(* ===== verification/Hnw_Prelude.thy ===== *)
theory Hnw_Prelude
  imports Main "HOL-Library.Word" "HOL-Library.Char_ord" "HOL-Library.List_Lexorder"
begin

section \<open>Shared types, string primitives and interfaces\<close>

text \<open>
  The types the components share (\<^verbatim>\<open>std::uint64_t\<close> as a 64-bit word, \<^verbatim>\<open>std::string\<close> as a
  list of 8-bit characters), the \<^verbatim>\<open>std::string\<close> searches the code is built on, and the
  interfaces that several components implement: a keyed store (the handle maps of the two
  services, the query map of a request line) and a pull source (a body, a line cache and a
  session, all read through a buffer of limited size).
\<close>

type_synonym u64 = "64 word"

named_theorems hnw_simps \<open>equations of the string primitives used by the component proofs\<close>

lemma unat_of_nat_u64: "n < 18446744073709551616 \<Longrightarrow> unat (of_nat n :: u64) = n"
  by (simp add: unat_of_nat take_bit_nat_eq_self_iff)

subsection \<open>Searching a std::string\<close>

text \<open>
  \<open>find0 sub s\<close> is \<^verbatim>\<open>s.find(sub)\<close>: the offset of the first occurrence, None for npos.
  \<open>find_from s sub pos\<close> is \<^verbatim>\<open>s.find(sub, pos)\<close>.
\<close>

fun find0 :: "string \<Rightarrow> string \<Rightarrow> nat option" where
  "find0 sub [] = (if sub = [] then Some 0 else None)"
| "find0 sub (c # cs) =
     (if take (length sub) (c # cs) = sub then Some 0 else map_option Suc (find0 sub cs))"

definition find_from :: "string \<Rightarrow> string \<Rightarrow> nat \<Rightarrow> nat option" where
  "find_from s sub pos =
     (if length s < pos then None else map_option ((+) pos) (find0 sub (drop pos s)))"

text \<open>\<open>rfind1 c s\<close> is \<^verbatim>\<open>s.find_last_of(c)\<close>: the offset of the last \<open>c\<close>.\<close>

fun rfind1 :: "char \<Rightarrow> string \<Rightarrow> nat option" where
  "rfind1 c [] = None"
| "rfind1 c (x # xs) =
     (case rfind1 c xs of Some i \<Rightarrow> Some (Suc i) | None \<Rightarrow> if x = c then Some 0 else None)"

lemma find0_occurs:
  "find0 sub s = Some p \<Longrightarrow> p + length sub \<le> length s \<and> take (length sub) (drop p s) = sub"
proof (induction s arbitrary: p)
  case Nil
  then show ?case by (simp split: if_splits)
next
  case (Cons c cs)
  show ?case
  proof (cases "take (length sub) (c # cs) = sub")
    case True
    then have "length sub \<le> length (c # cs)"
      by (metis length_take min.cobounded1 min_def nle_le)
    with True Cons.prems show ?thesis by simp
  next
    case False
    then obtain q where "find0 sub cs = Some q" and "p = Suc q"
      using Cons.prems by auto
    with Cons.IH [of q] show ?thesis by simp
  qed
qed

lemma find0_bound: "find0 sub s = Some p \<Longrightarrow> p + length sub \<le> length s"
  using find0_occurs by blast

lemma find0_decomp:
  assumes "find0 sub s = Some p"
  shows "s = take p s @ sub @ drop (p + length sub) s"
proof -
  from find0_occurs [OF assms] have occ: "take (length sub) (drop p s) = sub" by simp
  have "s = take p s @ drop p s" by simp
  also have "drop p s = take (length sub) (drop p s) @ drop (length sub) (drop p s)"
    by (simp only: append_take_drop_id)
  finally show ?thesis using occ by (simp add: add.commute)
qed

text \<open>A one-character pattern: the search is a scan for the character.\<close>

lemma find0_char_None: "find0 [c] s = None \<longleftrightarrow> c \<notin> set s"
  by (induction s) auto

lemma find0_char_append [hnw_simps]:
  "c \<notin> set a \<Longrightarrow> find0 [c] (a @ c # b) = Some (length a)"
  by (induction a) auto

lemma find0_Nil_pat: "find0 [] s = Some 0"
  by (cases s) auto

text \<open>The first offset is found: no occurrence starts earlier.\<close>

lemma find0_first:
  "find0 sub s = Some p \<Longrightarrow> q < p \<Longrightarrow> take (length sub) (drop q s) \<noteq> sub"
proof (induction s arbitrary: p q)
  case Nil
  then show ?case by (simp split: if_splits)
next
  case (Cons c cs)
  show ?case
  proof (cases q)
    case 0
    with Cons.prems show ?thesis by (auto split: if_splits)
  next
    case (Suc q')
    with Cons.prems obtain p' where "find0 sub cs = Some p'" and "p = Suc p'"
      by (auto split: if_splits)
    with Cons.IH [of p' q'] Cons.prems(2) Suc show ?thesis by simp
  qed
qed

lemma find0_append_first:
  assumes "sub \<noteq> []"
    and "\<And>q. q < length a \<Longrightarrow> take (length sub) (drop q (a @ sub @ b)) \<noteq> sub"
  shows "find0 sub (a @ sub @ b) = Some (length a)"
  using assms
proof (induction a)
  case Nil
  then show ?case by (cases sub) auto
next
  case (Cons x a)
  have "take (length sub) ((x # a) @ sub @ b) \<noteq> sub"
    using Cons.prems(2) [of 0] by simp
  moreover have "find0 sub (a @ sub @ b) = Some (length a)"
  proof (rule Cons.IH [OF Cons.prems(1)])
    fix q assume "q < length a"
    then show "take (length sub) (drop q (a @ sub @ b)) \<noteq> sub"
      using Cons.prems(2) [of "Suc q"] by simp
  qed
  ultimately show ?case by simp
qed

lemma rfind1_None: "rfind1 c s = None \<longleftrightarrow> c \<notin> set s"
  by (induction s) (auto split: option.splits)

lemma rfind1_append: "c \<notin> set b \<Longrightarrow> rfind1 c (a @ c # b) = Some (length a)"
proof (induction a)
  case Nil
  then show ?case by (simp add: rfind1_None split: option.splits)
next
  case (Cons x a)
  then show ?case by simp
qed

subsection \<open>Interface: a keyed store\<close>

text \<open>
  What the code uses of \<^verbatim>\<open>std::map\<close> and \<^verbatim>\<open>std::unordered_map\<close> through a component's own
  accessors: \<open>look\<close> after \<open>put\<close> and after \<open>del\<close>, under the representation invariant.
\<close>

locale keyed_store =
  fixes look :: "'m \<Rightarrow> 'k \<Rightarrow> 'v option"
    and put :: "'m \<Rightarrow> 'k \<Rightarrow> 'v \<Rightarrow> 'm"
    and del :: "'m \<Rightarrow> 'k \<Rightarrow> 'm"
    and ok :: "'m \<Rightarrow> bool"
  assumes look_put: "ok m \<Longrightarrow> look (put m k v) k' = (if k' = k then Some v else look m k')"
    and look_del: "ok m \<Longrightarrow> look (del m k) k' = (if k' = k then None else look m k')"
    and ok_put: "ok m \<Longrightarrow> ok (put m k v)"
    and ok_del: "ok m \<Longrightarrow> ok (del m k)"
begin

lemma look_put_same: "ok m \<Longrightarrow> look (put m k v) k = Some v"
  by (simp add: look_put)

lemma look_put_other: "ok m \<Longrightarrow> k' \<noteq> k \<Longrightarrow> look (put m k v) k' = look m k'"
  by (simp add: look_put)

lemma look_del_same: "ok m \<Longrightarrow> look (del m k) k = None"
  by (simp add: look_del)

lemma look_del_other: "ok m \<Longrightarrow> k' \<noteq> k \<Longrightarrow> look (del m k) k' = look m k'"
  by (simp add: look_del)

lemma look_put_put: "ok m \<Longrightarrow> look (put (put m k v) k w) = look (put m k w)"
  by (rule ext) (simp add: look_put ok_put)

lemma look_del_put: "ok m \<Longrightarrow> look m k = None \<Longrightarrow> look (del (put m k v) k) = look m"
  by (rule ext) (simp add: look_put look_del ok_put)

lemma look_fold_put:
  "ok m \<Longrightarrow> ok (fold (\<lambda>(k, v) m. put m k v) kvs m) \<and>
     look (fold (\<lambda>(k, v) m. put m k v) kvs m) k =
       (case map_of (rev kvs) k of Some v \<Rightarrow> Some v | None \<Rightarrow> look m k)"
proof (induction kvs arbitrary: m)
  case Nil
  then show ?case by simp
next
  case (Cons p kvs)
  obtain k' v' where p: "p = (k', v')" by (cases p)
  show ?case
    using Cons.IH [OF ok_put [OF Cons.prems, of k' v']] Cons.prems
    by (auto simp: p look_put map_add_def split: option.splits)
qed

end

subsection \<open>Interface: a pull source\<close>

text \<open>
  A reader that fills a buffer of at most \<open>n\<close> bytes per call. \<open>pending\<close> is the
  abstract content still to be delivered; every call with a buffer that has room hands out a prefix of
  it, a non-empty one while something is left.
\<close>

fun drain :: "('s \<Rightarrow> nat \<Rightarrow> string \<times> 's) \<Rightarrow> 's \<Rightarrow> nat list \<Rightarrow> string \<times> 's" where
  "drain pull s [] = ([], s)"
| "drain pull s (n # ns) =
     (let (b, s') = pull s n; (bs, s'') = drain pull s' ns in (b @ bs, s''))"

locale pull_source =
  fixes pull :: "'s \<Rightarrow> nat \<Rightarrow> string \<times> 's"
    and pending :: "'s \<Rightarrow> string"
    and ok :: "'s \<Rightarrow> bool"
  assumes pull_content: "ok s \<Longrightarrow> 0 < n \<Longrightarrow> n < 2 ^ 63 \<Longrightarrow> pull s n = (b, s') \<Longrightarrow> pending s = b @ pending s'"
    and pull_bound: "ok s \<Longrightarrow> 0 < n \<Longrightarrow> n < 2 ^ 63 \<Longrightarrow> pull s n = (b, s') \<Longrightarrow> length b \<le> n"
    and pull_progress:
      "ok s \<Longrightarrow> 0 < n \<Longrightarrow> n < 2 ^ 63 \<Longrightarrow> pending s \<noteq> [] \<Longrightarrow> pull s n = (b, s') \<Longrightarrow> b \<noteq> []"
    and pull_ok: "ok s \<Longrightarrow> 0 < n \<Longrightarrow> n < 2 ^ 63 \<Longrightarrow> pull s n = (b, s') \<Longrightarrow> ok s'"
begin

lemma drain_content:
  "ok s \<Longrightarrow> \<forall>n \<in> set ns. 0 < n \<and> n < 2 ^ 63 \<Longrightarrow> drain pull s ns = (bs, t) \<Longrightarrow>
     pending s = bs @ pending t \<and> ok t"
proof (induction ns arbitrary: s bs)
  case Nil
  then show ?case by simp
next
  case (Cons n ns)
  obtain b s' where p: "pull s n = (b, s')" by (cases "pull s n")
  obtain bs' t' where d: "drain pull s' ns = (bs', t')" by (cases "drain pull s' ns")
  have n: "0 < n" "n < 2 ^ 63" using Cons.prems(2) by simp_all
  have ok': "ok s'" by (rule pull_ok [OF Cons.prems(1) n p])
  have bs: "bs = b @ bs'" and t': "t' = t"
    using Cons.prems(3) p d by (simp_all add: Let_def)
  have "pending s' = bs' @ pending t \<and> ok t"
    using Cons.IH [OF ok'] Cons.prems(2) d t' by simp
  with pull_content [OF Cons.prems(1) n p] show ?case by (simp add: bs)
qed

lemma drain_all:
  assumes "ok s" and "\<forall>n \<in> set ns. 0 < n \<and> n < 2 ^ 63"
    and "length (pending s) \<le> length ns" and "drain pull s ns = (bs, t)"
  shows "bs = pending s \<and> pending t = []"
  using assms
proof (induction ns arbitrary: s bs)
  case Nil
  then show ?case by simp
next
  case (Cons n ns)
  obtain b s' where p: "pull s n = (b, s')" by (cases "pull s n")
  obtain bs' t' where d: "drain pull s' ns = (bs', t')" by (cases "drain pull s' ns")
  have n: "0 < n" "n < 2 ^ 63" using Cons.prems(2) by simp_all
  have ok': "ok s'" by (rule pull_ok [OF Cons.prems(1) n p])
  have bs: "bs = b @ bs'" and t': "t' = t"
    using Cons.prems(4) p d by (simp_all add: Let_def)
  have c: "pending s = b @ pending s'" by (rule pull_content [OF Cons.prems(1) n p])
  have "length (pending s') \<le> length ns"
  proof (cases "pending s = []")
    case True
    with c show ?thesis by simp
  next
    case False
    then have "b \<noteq> []" by (rule pull_progress [OF Cons.prems(1) n _ p])
    with c Cons.prems(3) show ?thesis by (cases b) auto
  qed
  then have "bs' = pending s' \<and> pending t = []"
    using Cons.IH [OF ok'] Cons.prems(2) d t' by simp
  with c show ?case by (simp add: bs)
qed

end

end
