(* ===== verification/Hnw_Codes.thy ===== *)
theory Hnw_Codes
  imports Hnw_Prelude
begin

section \<open>Codes and endpoints\<close>

text \<open>
  The enumerations and small structures of \<^verbatim>\<open>Src/base/hnw_define.h\<close>: the error codes with
  their integer values (events carry them as \<^verbatim>\<open>int\<close>), the event kinds, the channel kinds, the
  configuration selectors and \<^verbatim>\<open>NetPoint\<close>.
\<close>

subsection \<open>Error codes\<close>

datatype (plugins only: code size) err_code =
    HNW_BASE_OK
  | HNW_BASE_ALLOC_FAIL
  | HNW_BASE_CHANNEL_TYPE_FAIL
  | HNW_BASE_INVAILD_HANDLE
  | HNW_BASE_HANDLE_IS_USED
  | HNW_BASE_CREATE_SOCKET_FAIL
  | HNW_BASE_CONNECT_FAIL
  | HNW_BASE_CONNECT_TIME_OUT
  | HNW_BASE_RECV_DATA_FAIL
  | HNW_BASE_RECV_DATA_TIMEOUT
  | HNW_BASE_SEND_DATA_FAIL
  | HNW_BASE_SEND_DATA_TIMEOUT
  | HNW_BASE_EMPYTY_EVENT_CB
  | HNW_BASE_EMPYTY_LOG_CB
  | HNW_BASE_EMPYTY_MAKE_SHARED_CB
  | HNW_BASE_EMPYTY_ACCEPT_CB
  | HNW_BASE_EMPYTY_BUFF
  | HNW_BASE_SOCKET_OPEN_FAIL
  | HNW_BASE_SET_REUSE_ADDRESS_FAIL
  | HNW_BASE_BIND_ADDRESS_FAIL
  | HNW_BASE_LISTEN_FAIL
  | HNW_BASE_ACCEPT_FAIL
  | HNW_BASE_ACCEPT_CLI_IS_NOT_OPEN
  | HNW_BASE_REPEATED_INIT
  | HNW_BASE_REPEATED_RELEASE
  | HNW_BASE_ADDRESS_ENDPOINT_ERROR
  | HNW_BASE_EMPTY_SOCKET
  | HNW_BASE_NO_SUPPORT
  | HNW_BASE_CHANNEL_NOT_CONN
  | HNW_BASE_CHANNEL_CREATE_FAIL
  | HNW_BASE_CHANNEL_INIT_FAIL
  | HNW_BASE_PARAMS_IS_INVALID
  | HNW_BASE_SERVICE_IS_STOPED
  | HNW_BASE_SSL_CLIENT_HANDSHAKE_FAIL
  | HNW_BASE_SSL_SERVER_HANDSHAKE_FAIL
  | HNW_HTTP_PARSER_FAIL
  | HNW_HTTP_EMPTY_PARSER
  | HNW_HTTP_HOST_IS_IVAILD
  | HNW_HTTP_BAD_MESSAGE
  | HNW_HTTP_PARSER_KEY_IS_NO_EMPTY
  | HNW_HTTP_PARSER_BAD_START_LINE
  | HNW_HTTP_PARSER_BAD_HEAD_KEY
  | HNW_HTTP_PARSER_KEY_IS_EMPTY
  | HNW_HTTP_PARSER_CB_IS_EMPTY
  | HNW_HTTP_PARSER_CB_IS_DEFAULT
  | HNW_HTTP_STRUCT_MESSAGE_FAIL
  | HNW_HTTP_FILE_EXIST
  | HNW_HTTP_RES_NO_EXIST
  | HNW_HTTP_SEND_PENDING
  | HNW_HTTP_NOT_SUPPORT_RANGE
  | HNW_HTTP_RES_IS_INVALID
  | HNW_BASE_TIMER_TRIGGER
  | HNW_BASE_NUKNOW_ERROR

primrec err_code_int :: "err_code \<Rightarrow> int" where
  "err_code_int HNW_BASE_OK = 0"
| "err_code_int HNW_BASE_ALLOC_FAIL = - 998"
| "err_code_int HNW_BASE_CHANNEL_TYPE_FAIL = - 997"
| "err_code_int HNW_BASE_INVAILD_HANDLE = - 996"
| "err_code_int HNW_BASE_HANDLE_IS_USED = - 995"
| "err_code_int HNW_BASE_CREATE_SOCKET_FAIL = - 994"
| "err_code_int HNW_BASE_CONNECT_FAIL = - 993"
| "err_code_int HNW_BASE_CONNECT_TIME_OUT = - 992"
| "err_code_int HNW_BASE_RECV_DATA_FAIL = - 991"
| "err_code_int HNW_BASE_RECV_DATA_TIMEOUT = - 990"
| "err_code_int HNW_BASE_SEND_DATA_FAIL = - 989"
| "err_code_int HNW_BASE_SEND_DATA_TIMEOUT = - 988"
| "err_code_int HNW_BASE_EMPYTY_EVENT_CB = - 987"
| "err_code_int HNW_BASE_EMPYTY_LOG_CB = - 986"
| "err_code_int HNW_BASE_EMPYTY_MAKE_SHARED_CB = - 985"
| "err_code_int HNW_BASE_EMPYTY_ACCEPT_CB = - 984"
| "err_code_int HNW_BASE_EMPYTY_BUFF = - 983"
| "err_code_int HNW_BASE_SOCKET_OPEN_FAIL = - 982"
| "err_code_int HNW_BASE_SET_REUSE_ADDRESS_FAIL = - 981"
| "err_code_int HNW_BASE_BIND_ADDRESS_FAIL = - 980"
| "err_code_int HNW_BASE_LISTEN_FAIL = - 979"
| "err_code_int HNW_BASE_ACCEPT_FAIL = - 978"
| "err_code_int HNW_BASE_ACCEPT_CLI_IS_NOT_OPEN = - 977"
| "err_code_int HNW_BASE_REPEATED_INIT = - 976"
| "err_code_int HNW_BASE_REPEATED_RELEASE = - 975"
| "err_code_int HNW_BASE_ADDRESS_ENDPOINT_ERROR = - 974"
| "err_code_int HNW_BASE_EMPTY_SOCKET = - 973"
| "err_code_int HNW_BASE_NO_SUPPORT = - 972"
| "err_code_int HNW_BASE_CHANNEL_NOT_CONN = - 971"
| "err_code_int HNW_BASE_CHANNEL_CREATE_FAIL = - 970"
| "err_code_int HNW_BASE_CHANNEL_INIT_FAIL = - 969"
| "err_code_int HNW_BASE_PARAMS_IS_INVALID = - 968"
| "err_code_int HNW_BASE_SERVICE_IS_STOPED = - 967"
| "err_code_int HNW_BASE_SSL_CLIENT_HANDSHAKE_FAIL = - 966"
| "err_code_int HNW_BASE_SSL_SERVER_HANDSHAKE_FAIL = - 965"
| "err_code_int HNW_HTTP_PARSER_FAIL = - 964"
| "err_code_int HNW_HTTP_EMPTY_PARSER = - 963"
| "err_code_int HNW_HTTP_HOST_IS_IVAILD = - 962"
| "err_code_int HNW_HTTP_BAD_MESSAGE = - 961"
| "err_code_int HNW_HTTP_PARSER_KEY_IS_NO_EMPTY = - 960"
| "err_code_int HNW_HTTP_PARSER_BAD_START_LINE = - 959"
| "err_code_int HNW_HTTP_PARSER_BAD_HEAD_KEY = - 958"
| "err_code_int HNW_HTTP_PARSER_KEY_IS_EMPTY = - 957"
| "err_code_int HNW_HTTP_PARSER_CB_IS_EMPTY = - 956"
| "err_code_int HNW_HTTP_PARSER_CB_IS_DEFAULT = - 955"
| "err_code_int HNW_HTTP_STRUCT_MESSAGE_FAIL = - 954"
| "err_code_int HNW_HTTP_FILE_EXIST = - 953"
| "err_code_int HNW_HTTP_RES_NO_EXIST = - 952"
| "err_code_int HNW_HTTP_SEND_PENDING = - 951"
| "err_code_int HNW_HTTP_NOT_SUPPORT_RANGE = - 950"
| "err_code_int HNW_HTTP_RES_IS_INVALID = - 949"
| "err_code_int HNW_BASE_TIMER_TRIGGER = - 948"
| "err_code_int HNW_BASE_NUKNOW_ERROR = - 9999"

definition all_err_codes :: "err_code list" where
  "all_err_codes =
    [HNW_BASE_OK, HNW_BASE_ALLOC_FAIL,
     HNW_BASE_CHANNEL_TYPE_FAIL, HNW_BASE_INVAILD_HANDLE,
     HNW_BASE_HANDLE_IS_USED, HNW_BASE_CREATE_SOCKET_FAIL,
     HNW_BASE_CONNECT_FAIL, HNW_BASE_CONNECT_TIME_OUT,
     HNW_BASE_RECV_DATA_FAIL, HNW_BASE_RECV_DATA_TIMEOUT,
     HNW_BASE_SEND_DATA_FAIL, HNW_BASE_SEND_DATA_TIMEOUT,
     HNW_BASE_EMPYTY_EVENT_CB, HNW_BASE_EMPYTY_LOG_CB,
     HNW_BASE_EMPYTY_MAKE_SHARED_CB, HNW_BASE_EMPYTY_ACCEPT_CB,
     HNW_BASE_EMPYTY_BUFF, HNW_BASE_SOCKET_OPEN_FAIL,
     HNW_BASE_SET_REUSE_ADDRESS_FAIL, HNW_BASE_BIND_ADDRESS_FAIL,
     HNW_BASE_LISTEN_FAIL, HNW_BASE_ACCEPT_FAIL,
     HNW_BASE_ACCEPT_CLI_IS_NOT_OPEN, HNW_BASE_REPEATED_INIT,
     HNW_BASE_REPEATED_RELEASE, HNW_BASE_ADDRESS_ENDPOINT_ERROR,
     HNW_BASE_EMPTY_SOCKET, HNW_BASE_NO_SUPPORT,
     HNW_BASE_CHANNEL_NOT_CONN, HNW_BASE_CHANNEL_CREATE_FAIL,
     HNW_BASE_CHANNEL_INIT_FAIL, HNW_BASE_PARAMS_IS_INVALID,
     HNW_BASE_SERVICE_IS_STOPED, HNW_BASE_SSL_CLIENT_HANDSHAKE_FAIL,
     HNW_BASE_SSL_SERVER_HANDSHAKE_FAIL, HNW_HTTP_PARSER_FAIL,
     HNW_HTTP_EMPTY_PARSER, HNW_HTTP_HOST_IS_IVAILD,
     HNW_HTTP_BAD_MESSAGE, HNW_HTTP_PARSER_KEY_IS_NO_EMPTY,
     HNW_HTTP_PARSER_BAD_START_LINE, HNW_HTTP_PARSER_BAD_HEAD_KEY,
     HNW_HTTP_PARSER_KEY_IS_EMPTY, HNW_HTTP_PARSER_CB_IS_EMPTY,
     HNW_HTTP_PARSER_CB_IS_DEFAULT, HNW_HTTP_STRUCT_MESSAGE_FAIL,
     HNW_HTTP_FILE_EXIST, HNW_HTTP_RES_NO_EXIST,
     HNW_HTTP_SEND_PENDING, HNW_HTTP_NOT_SUPPORT_RANGE,
     HNW_HTTP_RES_IS_INVALID, HNW_BASE_TIMER_TRIGGER,
     HNW_BASE_NUKNOW_ERROR]"

text \<open>The cast from \<^verbatim>\<open>int\<close>, defined where the value is an enumerator.\<close>

definition err_code_of_int :: "int \<Rightarrow> err_code option" where
  "err_code_of_int i = find (\<lambda>e. err_code_int e = i) all_err_codes"

lemma all_err_codes_complete: "e \<in> set all_err_codes"
  by (cases e) (simp_all add: all_err_codes_def)

lemma distinct_err_codes: "distinct (map err_code_int all_err_codes)"
  by (simp add: all_err_codes_def)

lemma err_code_int_inj: "err_code_int a = err_code_int b \<Longrightarrow> a = b"
  using distinct_err_codes all_err_codes_complete
  by (metis distinct_map inj_onD)

lemma err_code_of_int_code: "err_code_of_int (err_code_int e) = Some e"
proof -
  have "find (\<lambda>x. err_code_int x = err_code_int e) all_err_codes \<noteq> None"
    using all_err_codes_complete [of e] by (auto simp: find_None_iff)
  then obtain x where x: "find (\<lambda>x. err_code_int x = err_code_int e) all_err_codes = Some x"
    by blast
  then have "err_code_int x = err_code_int e" by (auto simp: find_Some_iff)
  then show ?thesis using x err_code_int_inj by (simp add: err_code_of_int_def)
qed

lemma err_code_int_OK_iff [simp]: "err_code_int e = 0 \<longleftrightarrow> e = HNW_BASE_OK"
  by (cases e) simp_all

text \<open>Error codes are ordered by their value.\<close>

instantiation err_code :: linorder
begin

definition less_eq_err_code :: "err_code \<Rightarrow> err_code \<Rightarrow> bool" where
  "less_eq_err_code a b \<longleftrightarrow> err_code_int a \<le> err_code_int b"

definition less_err_code :: "err_code \<Rightarrow> err_code \<Rightarrow> bool" where
  "less_err_code a b \<longleftrightarrow> err_code_int a < err_code_int b"

instance
  by standard
    (auto simp: less_eq_err_code_def less_err_code_def intro: err_code_int_inj)

end

subsection \<open>Events and channels\<close>

datatype channel_type =
    HNW_INVAILD
  | TCP_SERVER
  | TCP_CLIENT
  | UDP
  | SSL_CLIENT
  | SSL_SERVER
  | TIMER

datatype event_type =
    HNW_BASE_ERROR
  | HNW_BASE_CONNECT_ESTABLISH
  | HNW_BASE_ACCEPT
  | HNW_BASE_RECV_DATA
  | HNW_BASE_SEND_COMPLETE
  | HNW_HTTP_RECV_REQUEST_HEAD
  | HNW_HTTP_RECV_REQUEST
  | HNW_HTTP_RECV_RESPONSE_HEAD
  | HNW_HTTP_RECV_RESPONSE
  | HNW_BASE_CLOSED

primrec event_type_int :: "event_type \<Rightarrow> int" where
  "event_type_int HNW_BASE_ERROR = - 1"
| "event_type_int HNW_BASE_CONNECT_ESTABLISH = 1"
| "event_type_int HNW_BASE_ACCEPT = 2"
| "event_type_int HNW_BASE_RECV_DATA = 3"
| "event_type_int HNW_BASE_SEND_COMPLETE = 4"
| "event_type_int HNW_HTTP_RECV_REQUEST_HEAD = 5"
| "event_type_int HNW_HTTP_RECV_REQUEST = 6"
| "event_type_int HNW_HTTP_RECV_RESPONSE_HEAD = 7"
| "event_type_int HNW_HTTP_RECV_RESPONSE = 8"
| "event_type_int HNW_BASE_CLOSED = 9"

definition HNW_INVALID_HANDLE :: int where
  "HNW_INVALID_HANDLE = -1"

record NetPoint =
  np_ip :: string
  np_port :: int

definition NET_INVALID_POINT :: NetPoint where
  "NET_INVALID_POINT = \<lparr>np_ip = [], np_port = -1\<rparr>"

definition NetPoint_eq :: "NetPoint \<Rightarrow> NetPoint \<Rightarrow> bool" where
  "NetPoint_eq l r = (if np_ip r = np_ip l \<and> np_port r = np_port l then True else False)"

lemma NetPoint_eq_iff: "NetPoint_eq l r \<longleftrightarrow> l = (r :: NetPoint)"
  by (cases l; cases r) (auto simp: NetPoint_eq_def)

subsection \<open>Configuration selectors\<close>

datatype config_type =
    SET_RECV_BUFF_SIZE
  | GET_RECV_BUFF_SIZE
  | SET_SEND_BUFF_SIZE
  | GET_SEND_BUFF_SIZE
  | SET_SERVER_ACCEPT_NUM
  | GET_SERVER_ACCEPT_NUM
  | SET_SSL_SERVER_CERT_FILE_PATH
  | GET_SSL_SERVER_CERT_FILE_PATH
  | SET_SSL_SERVER_PRI_KEY_FILE_PATH
  | GET_SSL_SERVER_PRI_KEY_FILE_PATH
  | SET_SSL_SERVER_TEMP_DH_FILE_PATH
  | GET_SSL_SERVER_TEMP_DH_FILE_PATH
  | SET_CONNECT_TIME_OUT_MS
  | GET_CONNECT_TIME_OUT_MS
  | SET_RECV_TIME_OUT_MS
  | GET_RECV_TIME_OUT_MS
  | SET_SEND_TIME_OUT_MS
  | GET_SEND_TIME_OUT_MS
  | SET_TIMER_TIME_OUT_MS
  | SET_TIMER_CB
  | CONFIG_OTHER int

definition config_of_int :: "int \<Rightarrow> config_type" where
  "config_of_int i =
    (if i = 0 then SET_RECV_BUFF_SIZE
     else if i = 1 then GET_RECV_BUFF_SIZE
     else if i = 2 then SET_SEND_BUFF_SIZE
     else if i = 3 then GET_SEND_BUFF_SIZE
     else if i = 4 then SET_SERVER_ACCEPT_NUM
     else if i = 5 then GET_SERVER_ACCEPT_NUM
     else if i = 10 then SET_SSL_SERVER_CERT_FILE_PATH
     else if i = 11 then GET_SSL_SERVER_CERT_FILE_PATH
     else if i = 12 then SET_SSL_SERVER_PRI_KEY_FILE_PATH
     else if i = 13 then GET_SSL_SERVER_PRI_KEY_FILE_PATH
     else if i = 14 then SET_SSL_SERVER_TEMP_DH_FILE_PATH
     else if i = 15 then GET_SSL_SERVER_TEMP_DH_FILE_PATH
     else if i = 16 then SET_CONNECT_TIME_OUT_MS
     else if i = 17 then GET_CONNECT_TIME_OUT_MS
     else if i = 18 then SET_RECV_TIME_OUT_MS
     else if i = 19 then GET_RECV_TIME_OUT_MS
     else if i = 20 then SET_SEND_TIME_OUT_MS
     else if i = 21 then GET_SEND_TIME_OUT_MS
     else if i = 22 then SET_TIMER_TIME_OUT_MS
     else if i = 23 then SET_TIMER_CB
     else CONFIG_OTHER i)"


end
