(* ===== verification/Http_Util.thy ===== *)
theory Http_Util
  imports Hnw_Prelude
begin

section \<open>String utilities of the HTTP layer\<close>

text \<open>
  \<^verbatim>\<open>Src/http/util/http_util.hpp\<close>: splitting, trimming, case conversion, the MIME and
  reason tables, URL decomposition, percent encoding and the textual digests. The digest
  algorithms themselves (\<^verbatim>\<open>boost::uuids::detail\<close>), the base64 iterators and \<^verbatim>\<open>rand\<close> are
  arguments. A read past the end of a string, where C++ leaves the result undefined, is None.
\<close>

subsection \<open>split\<close>

text \<open>
  The loop as the code writes it: \<open>beg\<close> is the start of the next piece, \<open>res\<close> what has
  been pushed. \<open>auto beg = 0\<close> makes it an \<^verbatim>\<open>int\<close> of 32 bits, which is sign-extended where it is a
  position and cut off from the sum it is set to. The outer option is None when the loop never ends, as
  with an empty splitor, the inner one when \<open>substr\<close> throws \<open>out_of_range\<close>.
\<close>

definition int_index :: "32 word \<Rightarrow> nat" where
  "int_index beg = unat (scast beg :: u64)"

partial_function (option) split_loop ::
  "string \<Rightarrow> string \<Rightarrow> 32 word \<Rightarrow> string list \<Rightarrow> string list option option" where
  "split_loop src splitor beg res =
     (case find_from src splitor (int_index beg) of
        None \<Rightarrow> Some (if length src < int_index beg then None else Some (res @ [drop (int_index beg) src]))
      | Some pos \<Rightarrow>
          split_loop src splitor (of_nat (pos + length splitor))
            (res @ [take (pos - int_index beg) (drop (int_index beg) src)]))"

text \<open>
  The total version the rest of the code is modelled with: every call site passes a
  non-empty splitor, for which \<open>split_loop\<close> computes exactly this as long as the source is shorter
  than 2 GB (\<open>split_loop_correct\<close>); the lines, fields and URLs it is given are taken to be.
\<close>

function split :: "string \<Rightarrow> string \<Rightarrow> string list" where
  "split src splitor =
     (case find0 splitor src of
        None \<Rightarrow> [src]
      | Some p \<Rightarrow>
          if splitor = [] then [src]
          else take p src # split (drop (p + length splitor) src) splitor)"
  by pat_completeness auto
termination
proof (relation "measure (\<lambda>(src, splitor). length src)")
  fix src splitor :: string and p
  assume "find0 splitor src = Some p" and "splitor \<noteq> []"
  then have "p + length splitor \<le> length src" and "0 < length splitor"
    by (simp_all add: find0_bound)
  then have "length src - (p + length splitor) < length src" by linarith
  then show "((drop (p + length splitor) src, splitor), (src, splitor)) \<in>
      measure (\<lambda>(src, splitor). length src)" by simp
qed simp

declare split.simps [simp del]

lemma split_None: "find0 splitor src = None \<Longrightarrow> split src splitor = [src]"
  by (simp add: split.simps)

lemma split_Some:
  "find0 splitor src = Some p \<Longrightarrow> splitor \<noteq> [] \<Longrightarrow>
     split src splitor = take p src # split (drop (p + length splitor) src) splitor"
  by (simp add: split.simps [of src])

lemma split_not_Nil [simp]: "split src splitor \<noteq> []"
  by (subst split.simps) (simp split: option.splits)

lemma split_length_pos [simp]: "0 < length (split src splitor)"
  by simp

text \<open>As long as the source is shorter than 2 GB, the \<^verbatim>\<open>int\<close> is the position.\<close>

lemma uint_of_nat_32: "n < 2 ^ 32 \<Longrightarrow> uint (of_nat n :: 32 word) = int n"
  by (simp add: uint_nat unat_of_nat take_bit_nat_eq_self_iff)

lemma int_index_of_nat:
  assumes "b < 2 ^ 31"
  shows "int_index (of_nat b) = b"
proof -
  have u: "uint (of_nat b :: 32 word) = int b" by (rule uint_of_nat_32) (use assms in simp)
  have "sint (of_nat b :: 32 word) = int b"
    unfolding sint_uint u using assms by (simp add: signed_take_bit_int_eq_self)
  then have "(scast (of_nat b :: 32 word) :: u64) = of_nat b" by (simp only: scast_eq of_int_of_nat_eq)
  then show ?thesis using unat_of_nat_u64 [of b] assms by (simp add: int_index_def)
qed

lemma int_index_negative:
  assumes "2 ^ 31 \<le> n" and "n < 2 ^ 32"
  shows "int_index (of_nat n) = 2 ^ 64 - 2 ^ 32 + n"
proof -
  have u: "uint (of_nat n :: 32 word) = int n" by (rule uint_of_nat_32 [OF assms(2)])
  have "int n + 2 ^ 31 - 2 ^ 32 = (int n + 2 ^ 31 - 2 ^ 32) mod 2 ^ 32"
    by (rule mod_pos_pos_trivial [symmetric]) (use assms in simp_all)
  also have "\<dots> = (int n + 2 ^ 31) mod 2 ^ 32" by (rule minus_mod_self2)
  finally have "take_bit 32 (int n + 2 ^ 31) = int n + 2 ^ 31 - 2 ^ 32" by (simp only: take_bit_eq_mod)
  then have "sint (of_nat n :: 32 word) = int n - 2 ^ 32"
    unfolding sint_uint u by (simp add: signed_take_bit_eq_take_bit_shift)
  then have "(scast (of_nat n :: 32 word) :: u64) = of_int (int n - 2 ^ 32)" by (simp only: scast_eq)
  also have "\<dots> = of_nat (18446744073709551616 - 2 ^ 32 + n)" by simp
  finally show ?thesis
    unfolding int_index_def using assms(2) by (simp only:) (subst unat_of_nat_u64; simp)
qed

lemma split_loop_gen:
  "splitor \<noteq> [] \<Longrightarrow> beg \<le> length src \<Longrightarrow> length src < 2 ^ 31 \<Longrightarrow>
     split_loop src splitor (of_nat beg) res = Some (Some (res @ split (drop beg src) splitor))"
proof (induction "length src - beg" arbitrary: beg res rule: less_induct)
  case less
  have i: "int_index (of_nat beg) = beg" by (rule int_index_of_nat) (use less.prems in linarith)
  show ?case
  proof (cases "find0 splitor (drop beg src)")
    case None
    then show ?thesis using less.prems i
      by (simp add: split_loop.simps [of src splitor "of_nat beg"] find_from_def split_None)
  next
    case (Some p)
    then have b: "p + length splitor \<le> length src - beg"
      using find0_bound [OF Some] by simp
    have l: "0 < length splitor" using less.prems(1) by simp
    have le: "beg + p + length splitor \<le> length src" using b less.prems(2) by arith
    have lt: "length src - (beg + p + length splitor) < length src - beg"
      using b l less.prems(2) by arith
    have dr: "drop (p + length splitor) (drop beg src) = drop (beg + p + length splitor) src"
      by (simp add: ac_simps)
    have "split_loop src splitor (of_nat beg) res =
        split_loop src splitor (of_nat (beg + p + length splitor)) (res @ [take p (drop beg src)])"
      using Some less.prems i
      by (simp add: split_loop.simps [of src splitor "of_nat beg"] find_from_def)
    also have "\<dots> = Some (Some ((res @ [take p (drop beg src)]) @
        split (drop (beg + p + length splitor) src) splitor))"
      by (rule less.hyps [OF lt less.prems(1) le less.prems(3)])
    also have "\<dots> = Some (Some (res @ split (drop beg src) splitor))"
      using split_Some [OF Some less.prems(1)] dr by simp
    finally show ?thesis .
  qed
qed

text \<open>Joining the pieces with the splitor gives the source back.\<close>

fun join :: "string \<Rightarrow> string list \<Rightarrow> string" where
  "join sep [] = []"
| "join sep [x] = x"
| "join sep (x # y # xs) = x @ sep @ join sep (y # xs)"

lemma join_Cons: "xs \<noteq> [] \<Longrightarrow> join sep (x # xs) = x @ sep @ join sep xs"
  by (cases xs) auto

lemma join_split_gen: "join splitor (split src splitor) = src"
proof (induction src splitor rule: split.induct)
  case (1 src splitor)
  show ?case
  proof (cases "find0 splitor src")
    case None
    then show ?thesis by (simp add: split_None)
  next
    case (Some p)
    show ?thesis
    proof (cases "splitor = []")
      case True
      with Some show ?thesis by (simp add: split.simps)
    next
      case False
      with 1 Some have "join splitor (split (drop (p + length splitor) src) splitor) =
          drop (p + length splitor) src" by simp
      with find0_decomp [OF Some] show ?thesis
        by (simp add: split_Some [OF Some False] join_Cons)
    qed
  qed
qed

text \<open>No piece of a split on a single character holds that character.\<close>

lemma split_char_Cons:
  "split (x # xs) [c] =
     (if x = c then [] # split xs [c]
      else (x # hd (split xs [c])) # tl (split xs [c]))"
proof (cases "find0 [c] xs")
  case None
  then show ?thesis
    by (subst split.simps) (auto simp: split_None)
next
  case (Some p)
  then show ?thesis
    by (subst split.simps) (auto simp: split_Some)
qed

lemma split_Nil_src: "split [] [c] = [[]]"
  by (simp add: split_None)

lemma split_char_notin: "x \<in> set (split s [c]) \<Longrightarrow> c \<notin> set x"
proof (induction s arbitrary: x)
  case Nil
  then show ?case by (simp add: split_Nil_src)
next
  case (Cons y s)
  have "split s [c] = hd (split s [c]) # tl (split s [c])" by simp
  then have h: "hd (split s [c]) \<in> set (split s [c])" and t: "set (tl (split s [c])) \<subseteq> set (split s [c])"
    by (metis list.set_intros(1), metis set_subset_Cons)
  from Cons.prems show ?case
    using Cons.IH h t by (auto simp: split_char_Cons split: if_splits)
qed

lemma split_char_single [hnw_simps]: "c \<notin> set s \<Longrightarrow> split s [c] = [s]"
  by (simp add: split_None find0_char_None)

lemma split_char_append [hnw_simps]:
  "c \<notin> set a \<Longrightarrow> split (a @ c # b) [c] = a # split b [c]"
  by (simp add: split_Some [OF find0_char_append])

lemma split_append_first:
  assumes "sep \<noteq> []"
    and "\<And>q. q < length a \<Longrightarrow> take (length sep) (drop q (a @ sep @ b)) \<noteq> sep"
  shows "split (a @ sep @ b) sep = a # split b sep"
  using split_Some [OF find0_append_first [OF assms] assms(1)] by simp

text \<open>
  A two-character separator whose first character differs from the second: a prefix
  without the first character is cut off exactly.
\<close>

lemma split_pair_append:
  assumes "c \<notin> set a"
  shows "split (a @ c # d # b) [c, d] = a # split b [c, d]"
proof -
  have "split (a @ [c, d] @ b) [c, d] = a # split b [c, d]"
  proof (rule split_append_first)
    fix q assume q: "q < length a"
    then have "drop q (a @ [c, d] @ b) = a ! q # drop (Suc q) a @ [c, d] @ b"
      by (simp add: Cons_nth_drop_Suc [symmetric])
    moreover have "a ! q \<noteq> c" using assms q by (metis nth_mem)
    ultimately show "take (length [c, d]) (drop q (a @ [c, d] @ b)) \<noteq> [c, d]" by simp
  qed simp
  then show ?thesis by simp
qed

lemma split_pair_single: "c \<notin> set s \<Longrightarrow> split s [c, d] = [s]"
proof (rule split_None, rule ccontr)
  assume c: "c \<notin> set s" and "find0 [c, d] s \<noteq> None"
  then obtain p where p: "find0 [c, d] s = Some p" by auto
  from find0_decomp [OF p] have "c \<in> set s"
    by (metis append.assoc in_set_conv_decomp append_Cons)
  with c show False by simp
qed

subsection \<open>The MIME table and the reason phrases\<close>

definition OCT_MIME :: string where
  "OCT_MIME = ''application/octet-stream''"

definition http_mime_table :: "(string \<times> string) list" where
  "http_mime_table =
    [(''.aac'', ''audio/aac''),
     (''.abw'', ''application/x-abiword''),
     (''.avi'', ''video/x-msvideo''),
     (''.bmp'', ''image/bmp''),
     (''.bz'', ''application/x-bzip''),
     (''.bz2'', ''application/x-bzip2''),
     (''.css'', ''text/css''),
     (''.csv'', ''text/csv''),
     (''.doc'', ''application/msword''),
     (''.docx'', ''application/vnd.openxmlformats-officedocument.wordprocessingml.document''),
     (''.epub'', ''application/epub+zip''),
     (''.gif'', ''image/gif''),
     (''.htm'', ''text/html''),
     (''.html'', ''text/html''),
     (''.ico'', ''image/vnd.microsoft.icon''),
     (''.jar'', ''application/java-archive''),
     (''.jpeg'', ''image/jpeg''),
     (''.jpg'', ''image/jpeg''),
     (''.js'', ''text/javascript''),
     (''.json'', ''application/json''),
     (''.mp3'', ''audio/mpeg''),
     (''.mpeg'', ''video/mpeg''),
     (''.png'', ''image/png''),
     (''.rar'', ''application/x-rar-compressed''),
     (''.ttf'', ''font/ttf''),
     (''.wav'', ''audio/wav''),
     (''.xls'', ''application/vnd.ms-excel''),
     (''.xlsx'', ''application/vnd.openxmlformats-officedocument.spreadsheetml.sheet''),
     (''.xml'', ''application/xml''),
     (''.zip'', ''application/zip''),
     (''.mp4'', ''video/mpeg4''),
     (''.rmvb'', ''application/vnd.rn-realmedia-vbr''),
     (''.zip'', ''application/zip''),
     (''.zip'', ''application/zip'')]"

text \<open>A \<^verbatim>\<open>std::map\<close> built from an initializer list keeps the first value of a repeated key.\<close>

definition http_mime :: "string \<Rightarrow> string \<Rightarrow> string" where
  "http_mime ext default_d =
     (case map_of http_mime_table ext of None \<Rightarrow> default_d | Some m \<Rightarrow> m)"

definition http_reasion_table :: "(string \<times> string) list" where
  "http_reasion_table =
    [(''200'', ''OK''),
     (''206'', ''Partial Content''),
     (''301'', ''Moved Permanently''),
     (''302'', ''Move Temporarily''),
     (''400'', ''Bad Request''),
     (''401'', ''Unauthorized''),
     (''403'', ''Forbidden''),
     (''404'', ''Not Found''),
     (''405'', ''Internal Server Error''),
     (''503'', ''Server Unavailable'')]"

definition http_reasion :: "string \<Rightarrow> string \<Rightarrow> string" where
  "http_reasion status defualt_r =
     (case map_of http_reasion_table status of None \<Rightarrow> defualt_r | Some r \<Rightarrow> r)"

definition get_http_mime_by_uri :: "string \<Rightarrow> string \<Rightarrow> string" where
  "get_http_mime_by_uri uri default_d =
     (case rfind1 (CHR ''.'') uri of
        None \<Rightarrow> default_d
      | Some p \<Rightarrow> http_mime (drop p uri) default_d)"

definition get_ext :: "string \<Rightarrow> string" where
  "get_ext str = (case rfind1 (CHR ''.'') str of None \<Rightarrow> [] | Some p \<Rightarrow> drop p str)"

lemma get_ext_append:
  "CHR ''.'' \<notin> set ext \<Longrightarrow> get_ext (base @ CHR ''.'' # ext) = CHR ''.'' # ext"
  by (simp add: get_ext_def rfind1_append)

lemma get_http_mime_by_uri_ext:
  "get_http_mime_by_uri uri d = (if CHR ''.'' \<in> set uri then http_mime (get_ext uri) d else d)"
  using rfind1_None [of "CHR ''.''" uri]
  by (auto simp: get_http_mime_by_uri_def get_ext_def split: option.splits)

subsection \<open>URLs\<close>

record UrlParam =
  url_protocol :: string
  url_host :: string
  url_port :: string
  url_path :: string
  url_query_string :: string

definition UrlParam_empty :: UrlParam where
  "UrlParam_empty = \<lparr>url_protocol = [], url_host = [], url_port = [], url_path = [],
     url_query_string = []\<rparr>"

text \<open>
  \<open>out\<close> is the caller's structure, updated field by field; a field the URL does not have
  keeps its value. The host and port part is the same code in both branches.
\<close>

definition url_authority :: "string \<Rightarrow> UrlParam \<Rightarrow> UrlParam" where
  "url_authority str out =
     (let v = split str '':'';
          out = out\<lparr>url_host := v ! 0\<rparr>
      in if 2 \<le> length v then out\<lparr>url_port := v ! 1\<rparr> else out)"

definition parser_url :: "string \<Rightarrow> UrlParam \<Rightarrow> bool \<times> UrlParam" where
  "parser_url url out =
     (let (out, pos) =
        (case find_from url ''://'' 0 of
           Some p \<Rightarrow> (out\<lparr>url_protocol := take p url\<rparr>, p + 3)
         | None \<Rightarrow> (out, 0))
      in case find_from url ''/'' pos of
           None \<Rightarrow> (True, url_authority (drop pos url) out)
         | Some p \<Rightarrow>
             let out = url_authority (take (p - pos) (drop pos url)) out; pos = p
             in case find_from url ''?'' pos of
                  Some p \<Rightarrow>
                    (True, out\<lparr>url_path := take (p - pos) (drop pos url),
                               url_query_string := drop (p + 1) url\<rparr>)
                | None \<Rightarrow> (True, out\<lparr>url_path := drop pos url\<rparr>))"

definition get_path_for_url :: "string \<Rightarrow> string" where
  "get_path_for_url url =
     (let param = snd (parser_url url UrlParam_empty)
      in if url_query_string param = [] then url_path param
         else url_path param @ ''?'' @ url_query_string param)"

definition get_host_for_url :: "string \<Rightarrow> string" where
  "get_host_for_url url =
     (let param = snd (parser_url url UrlParam_empty);
          result = (if url_protocol param = [] then ''http://''
                    else url_protocol param @ ''://'')
      in if url_host param = [] then []
         else let result = result @ url_host param
              in if url_port param = [] then result
                 else result @ '':'' @ url_port param)"

subsection \<open>Case conversion and trimming\<close>

text \<open>\<^verbatim>\<open>std::toupper\<close> and \<^verbatim>\<open>std::tolower\<close> in the C locale.\<close>

definition toupper :: "char \<Rightarrow> char" where
  "toupper c = (if CHR ''a'' \<le> c \<and> c \<le> CHR ''z'' then char_of (of_char c - 32 :: nat) else c)"

definition tolower :: "char \<Rightarrow> char" where
  "tolower c = (if CHR ''A'' \<le> c \<and> c \<le> CHR ''Z'' then char_of (of_char c + 32 :: nat) else c)"

text \<open>The guards of the two loops are \<open>'a' <= c || c <= 'z'\<close>, written out here.\<close>

definition to_upper :: "string \<Rightarrow> string" where
  "to_upper src = map (\<lambda>c. if CHR ''a'' \<le> c \<or> c \<le> CHR ''z'' then toupper c else c) src"

definition to_lower :: "string \<Rightarrow> string" where
  "to_lower src = map (\<lambda>c. if CHR ''A'' \<le> c \<or> c \<le> CHR ''Z'' then tolower c else c) src"

text \<open>The two index loops of \<open>trim\<close>; \<open>e\<close> is the code's \<^verbatim>\<open>end\<close>.\<close>

function trim_beg :: "string \<Rightarrow> nat \<Rightarrow> nat \<Rightarrow> nat" where
  "trim_beg src beg e =
     (if beg < e \<and> src ! beg = CHR '' '' then trim_beg src (Suc beg) e else beg)"
  by pat_completeness auto
termination
  by (relation "measure (\<lambda>(src, beg, e). e - beg)") auto

fun trim_end :: "string \<Rightarrow> nat \<Rightarrow> nat \<Rightarrow> string" where
  "trim_end src beg e =
     (if beg \<le> e
      then if src ! e \<noteq> CHR '' '' then take (e - beg + 1) (drop beg src)
           else (case e of 0 \<Rightarrow> [] | Suc e' \<Rightarrow> trim_end src beg e')
      else [])"

definition trim :: "string \<Rightarrow> string" where
  "trim src =
     (if src = [] then []
      else let e = length src - 1; beg = trim_beg src 0 e
           in if beg = e \<and> src ! beg = CHR '' '' then []
              else trim_end src beg e)"

declare trim_beg.simps [simp del] trim_end.simps [simp del]

subsection \<open>Percent encoding\<close>

definition dec2hexChar :: "int \<Rightarrow> char" where
  "dec2hexChar n =
     (if 0 \<le> n \<and> n \<le> 9 then char_of (nat (48 + n))
      else if 10 \<le> n \<and> n \<le> 15 then char_of (nat (65 + n - 10))
      else char_of (0::nat))"

definition hexChar2dec :: "char \<Rightarrow> int" where
  "hexChar2dec c =
     (if CHR ''0'' \<le> c \<and> c \<le> CHR ''9'' then of_char c - 48
      else if CHR ''a'' \<le> c \<and> c \<le> CHR ''f'' then (of_char c - 97) + 10
      else if CHR ''A'' \<le> c \<and> c \<le> CHR ''F'' then (of_char c - 65) + 10
      else -1)"

definition url_plain :: "char \<Rightarrow> bool" where
  "url_plain c \<longleftrightarrow>
     (CHR ''0'' \<le> c \<and> c \<le> CHR ''9'') \<or> (CHR ''a'' \<le> c \<and> c \<le> CHR ''z'') \<or>
     (CHR ''A'' \<le> c \<and> c \<le> CHR ''Z'') \<or> c = CHR ''/'' \<or> c = CHR ''.''"

text \<open>\<open>j\<close> is the value of the byte: a negative \<^verbatim>\<open>char\<close> has 256 added.\<close>

fun encode_url :: "string \<Rightarrow> string" where
  "encode_url [] = []"
| "encode_url (c # cs) =
     (if url_plain c then c # encode_url cs
      else let j = of_char c :: int; i1 = j div 16; i0 = j - i1 * 16
           in CHR ''%'' # dec2hexChar i1 # dec2hexChar i0 # encode_url cs)"

text \<open>
  \<open>URL[++i]\<close> at offset \<open>size()\<close> reads the terminating NUL; one further it is undefined,
  the None here.
\<close>

fun decode_url :: "string \<Rightarrow> string option" where
  "decode_url [] = Some []"
| "decode_url (c # cs) =
     (if c \<noteq> CHR ''%'' then map_option (Cons c) (decode_url cs)
      else case cs of
             [] \<Rightarrow> None
           | [c1] \<Rightarrow> Some [char_of (hexChar2dec c1 * 16 + hexChar2dec (char_of (0::nat)))]
           | c1 # c0 # cs' \<Rightarrow>
               map_option (Cons (char_of (hexChar2dec c1 * 16 + hexChar2dec c0))) (decode_url cs'))"

subsection \<open>Digests, base64 and uuid\<close>

text \<open>\<^verbatim>\<open>%x\<close> and \<^verbatim>\<open>%X\<close>, padded with zeros to a width.\<close>

definition hexdigit :: "bool \<Rightarrow> nat \<Rightarrow> char" where
  "hexdigit upper d = (if d < 10 then char_of (48 + d) else char_of ((if upper then 55 else 87) + d))"

fun hexnum :: "bool \<Rightarrow> nat \<Rightarrow> string" where
  "hexnum upper n =
     (if n < 16 then [hexdigit upper n] else hexnum upper (n div 16) @ [hexdigit upper (n mod 16)])"

declare hexnum.simps [simp del]

definition fmt_hex :: "bool \<Rightarrow> nat \<Rightarrow> nat \<Rightarrow> string" where
  "fmt_hex upper width n = (let s = hexnum upper n in replicate (width - length s) (CHR ''0'') @ s)"

text \<open>\<open>digest src i\<close> is word \<open>i\<close> of the digest that boost computes for \<open>src\<close>.\<close>

definition md5 :: "(string \<Rightarrow> nat \<Rightarrow> 32 word) \<Rightarrow> string \<Rightarrow> string" where
  "md5 digest src =
     (if src = [] then []
      else concat (map (\<lambda>i. fmt_hex False 8 (unat (digest src i))) [0..<4]))"

text \<open>
  The bytes of \<open>digest\<close> are read through a \<^verbatim>\<open>char*\<close> on a little-endian machine and put
  back into big-endian order; \<open>hash[i]\<close> is a signed \<^verbatim>\<open>char\<close>, so \<^verbatim>\<open>%02X\<close> prints its
  promotion to a 32-bit int.
\<close>

definition sha1_hash :: "(string \<Rightarrow> nat \<Rightarrow> 32 word) \<Rightarrow> string \<Rightarrow> nat \<Rightarrow> 8 word" where
  "sha1_hash digest src i =
     (let w = digest src (i div 4) in ucast (drop_bit (8 * (3 - i mod 4)) w))"

definition sha1 :: "(string \<Rightarrow> nat \<Rightarrow> 32 word) \<Rightarrow> string \<Rightarrow> string" where
  "sha1 digest src =
     (if src = [] then []
      else concat (map (\<lambda>i. fmt_hex True 2 (unat (scast (sha1_hash digest src i) :: 32 word)))
             [0..<20]))"

text \<open>
  \<open>b64\<close> is the boost iterator chain that turns 8-bit groups into base64 characters; the
  code adds the padding. \<open>unb64\<close> is the opposite chain, None where it throws; the result
  goes through \<open>c_str()\<close>, which cuts it at the first NUL.
\<close>

definition encode_base64 :: "(string \<Rightarrow> string) \<Rightarrow> string \<Rightarrow> string" where
  "encode_base64 b64 src =
     (let equal_count = (3 - length src mod 3) mod 3
      in b64 src @ replicate equal_count (CHR ''=''))"

definition c_str :: "string \<Rightarrow> string" where
  "c_str s = takeWhile (\<lambda>c. c \<noteq> char_of (0::nat)) s"

definition decode_base64 :: "(string \<Rightarrow> string option) \<Rightarrow> string \<Rightarrow> string" where
  "decode_base64 unb64 src = (case unb64 src of None \<Rightarrow> [] | Some r \<Rightarrow> c_str r)"

definition UUCHAR :: string where
  "UUCHAR = ''abcHSklabeakebKJHKS''"

text \<open>\<open>rnd i\<close> is the value of the \<open>i\<close>-th call of \<^verbatim>\<open>rand()\<close>.\<close>

definition uuid :: "(nat \<Rightarrow> nat) \<Rightarrow> string" where
  "uuid rnd = map (\<lambda>i. UUCHAR ! (rnd i mod length UUCHAR)) [0..<32]"

subsection \<open>Facts about split\<close>

text \<open>
  The loop of the code ends exactly when the splitor is not empty, and then computes
  \<open>split\<close>.
\<close>

lemma split_loop_empty_gen:
  assumes "split_loop src splitor beg res = Some r" and "splitor = []" and "beg = 0"
  shows False
proof -
  have "splitor = [] \<and> beg = 0 \<longrightarrow> False"
  proof (rule split_loop.raw_induct
      [where P = "\<lambda>src splitor beg res r. splitor = [] \<and> beg = 0 \<longrightarrow> False", OF _ assms(1)])
    fix f and src splitor :: string and beg :: "32 word" and res r
    assume IH: "\<And>src splitor beg res r. f src splitor beg res = Some r \<Longrightarrow> splitor = [] \<and> beg = 0 \<longrightarrow> False"
      and eq: "(case find_from src splitor (int_index beg) of
          None \<Rightarrow> Some (if length src < int_index beg then None else Some (res @ [drop (int_index beg) src]))
        | Some pos \<Rightarrow> f src splitor (of_nat (pos + length splitor))
            (res @ [take (pos - int_index beg) (drop (int_index beg) src)])) = Some r"
    show "splitor = [] \<and> beg = 0 \<longrightarrow> False"
    proof
      assume a: "splitor = [] \<and> beg = 0"
      then have "f src splitor 0 (res @ [[]]) = Some r"
        using eq by (simp add: find_from_def find0_Nil_pat int_index_def)
      with IH a show False by blast
    qed
  qed
  with assms(2,3) show False by blast
qed

subsection \<open>Facts about trim\<close>

lemma trim_beg_spec:
  "beg \<le> e \<Longrightarrow> e < length src \<Longrightarrow>
     (let b = trim_beg src beg e in beg \<le> b \<and> b \<le> e \<and> (b = e \<or> src ! b \<noteq> CHR '' '') \<and>
        dropWhile (\<lambda>c. c = CHR '' '') (drop beg src) = dropWhile (\<lambda>c. c = CHR '' '') (drop b src))"
proof (induction src beg e rule: trim_beg.induct)
  case (1 src beg e)
  show ?case
  proof (cases "beg < e \<and> src ! beg = CHR '' ''")
    case True
    have "drop beg src = src ! beg # drop (Suc beg) src"
      using 1(2,3) by (simp add: Cons_nth_drop_Suc)
    with True have "dropWhile (\<lambda>c. c = CHR '' '') (drop beg src) =
       dropWhile (\<lambda>c. c = CHR '' '') (drop (Suc beg) src)" by simp
    with 1(1) [OF True] 1(3) True show ?thesis
      by (simp add: trim_beg.simps [of src beg e] Let_def)
  next
    case False
    then show ?thesis using 1(2) by (auto simp add: trim_beg.simps [of src beg e] Let_def)
  qed
qed

lemma trim_end_spec:
  "e < length src \<Longrightarrow> beg \<le> Suc e \<Longrightarrow>
    trim_end src beg e =
      rev (dropWhile (\<lambda>c. c = CHR '' '') (rev (take (Suc e - beg) (drop beg src))))"
proof (induction src beg e rule: trim_end.induct)
  case (1 src beg e)
  show ?case
  proof (cases "beg \<le> e")
    case False
    with 1(3) show ?thesis by (subst trim_end.simps) simp
  next
    case True
    then have tk: "take (Suc e - beg) (drop beg src) = take (e - beg) (drop beg src) @ [src ! e]"
      using 1(2) by (simp add: Suc_diff_le take_Suc_conv_app_nth)
    show ?thesis
    proof (cases "src ! e = CHR '' ''")
      case False
      with True tk show ?thesis
        using Suc_diff_le [OF True] by (subst trim_end.simps) simp
    next
      case sp: True
      show ?thesis
      proof (cases e)
        case 0
        with True sp tk show ?thesis by (subst trim_end.simps) simp
      next
        case (Suc e')
        have "trim_end src beg e' =
          rev (dropWhile (\<lambda>c. c = CHR '' '') (rev (take (Suc e' - beg) (drop beg src))))"
          using 1(1) [OF True _ Suc] sp 1(2) True Suc by simp
        moreover have "trim_end src beg e = trim_end src beg e'"
          using True sp Suc by (subst trim_end.simps) simp
        ultimately show ?thesis using tk sp Suc by simp
      qed
    qed
  qed
qed

definition strip :: "string \<Rightarrow> string" where
  \<comment> \<open>reference definition: drop the spaces at both ends\<close>
  "strip s = rev (dropWhile (\<lambda>c. c = CHR '' '') (rev (dropWhile (\<lambda>c. c = CHR '' '') s)))"

lemma trim_strip: "trim src = strip src"
proof (cases "src = []")
  case True
  then show ?thesis by (simp add: trim_def strip_def)
next
  case False
  let ?sp = "\<lambda>c. c = CHR '' ''"
  define e where "e = length src - 1"
  define b where "b = trim_beg src 0 e"
  have e: "e < length src" using False by (simp add: e_def)
  have b: "b \<le> e" "b = e \<or> src ! b \<noteq> CHR '' ''"
      "dropWhile ?sp src = dropWhile ?sp (drop b src)"
    using trim_beg_spec [of 0 e src] e by (simp_all add: b_def Let_def)
  have cons: "drop b src = src ! b # drop (Suc b) src"
    using b(1) e by (simp add: Cons_nth_drop_Suc)
  have trim: "trim src = (if b = e \<and> src ! b = CHR '' '' then [] else trim_end src b e)"
    by (simp only: trim_def b_def e_def Let_def False if_False)
  show ?thesis
  proof (cases "src ! b = CHR '' ''")
    case True
    with b(2) have be: "b = e" by simp
    then have "drop (Suc b) src = []" using False by (simp add: e_def)
    with cons True b(3) have "dropWhile ?sp src = []" by simp
    then have "strip src = []" by (simp only: strip_def rev.simps dropWhile.simps)
    with trim be True show ?thesis by simp
  next
    case nsp: False
    have "take (Suc e - b) (drop b src) = drop b src"
      using False by (simp add: e_def)
    then have "trim_end src b e = rev (dropWhile ?sp (rev (drop b src)))"
      using trim_end_spec [of e src b] e b(1) by simp
    moreover have "dropWhile ?sp src = drop b src"
      using b(3) cons nsp by simp
    ultimately show ?thesis using trim nsp by (simp add: strip_def)
  qed
qed

lemma strip_hd: "strip s \<noteq> [] \<Longrightarrow> hd (strip s) \<noteq> CHR '' ''"
proof -
  let ?sp = "\<lambda>c. c = CHR '' ''"
  assume ne: "strip s \<noteq> []"
  define u where "u = dropWhile ?sp s"
  have st: "strip s = rev (dropWhile ?sp (rev u))" by (simp only: strip_def u_def)
  have "rev (takeWhile ?sp (rev u) @ dropWhile ?sp (rev u)) = u"
    by (simp only: takeWhile_dropWhile_id rev_rev_ident)
  then have u: "strip s @ rev (takeWhile ?sp (rev u)) = u" by (simp only: rev_append st)
  define w where "w = rev (takeWhile ?sp (rev u))"
  from u have "u = strip s @ w" by (simp only: w_def)
  with ne have "hd u = hd (strip s)" and "u \<noteq> []" by simp_all
  then show ?thesis using hd_dropWhile [of ?sp s] by (simp add: u_def)
qed

lemma strip_idem: "strip (strip s) = strip s"
proof (cases "strip s = []")
  case True
  show ?thesis unfolding True by (simp add: strip_def)
next
  case False
  let ?sp = "\<lambda>c. c = CHR '' ''"
  from strip_hd [OF False] have "dropWhile ?sp (strip s) = strip s"
    by (cases "strip s") auto
  then have "strip (strip s) = rev (dropWhile ?sp (rev (strip s)))" by (simp only: strip_def)
  also have "rev (strip s) = dropWhile ?sp (rev (dropWhile ?sp s))" by (simp add: strip_def)
  finally show ?thesis by (simp add: strip_def dropWhile_idem)
qed

lemma strip_no_edge:
  "s = [] \<or> (hd s \<noteq> CHR '' '' \<and> last s \<noteq> CHR '' '') \<Longrightarrow> strip s = s"
proof (cases s rule: rev_cases)
  case Nil
  then show ?thesis by (simp add: strip_def)
next
  case (snoc t x)
  assume a: "s = [] \<or> (hd s \<noteq> CHR '' '' \<and> last s \<noteq> CHR '' '')"
  with snoc have "dropWhile (\<lambda>c. c = CHR '' '') s = s" by (cases t) auto
  with a snoc show ?thesis by (simp add: strip_def)
qed

lemma strip_space_free: "CHR '' '' \<notin> set s \<Longrightarrow> strip s = s"
  by (rule strip_no_edge) (metis hd_in_set last_in_set)

subsection \<open>Facts about percent encoding\<close>

lemma nibble_cases:
  fixes n :: int
  assumes "0 \<le> n" and "n \<le> 15"
  shows "n \<in> {0, 1, 2, 3, 4, 5, 6, 7, 8, 9, 10, 11, 12, 13, 14, 15}"
  unfolding insert_iff empty_iff using assms by presburger

lemma hexChar2dec_dec2hexChar:
  assumes "0 \<le> n" and "n \<le> 15"
  shows "hexChar2dec (dec2hexChar n) = n"
proof -
  from nibble_cases [OF assms] show ?thesis
    by (elim insertE emptyE) (simp_all add: hexChar2dec_def dec2hexChar_def less_eq_char_def
        of_nat_of_char [where ?'a = int, symmetric])
qed

lemma dec2hexChar_plain:
  assumes "0 \<le> n" and "n \<le> 15"
  shows "url_plain (dec2hexChar n)"
proof -
  from nibble_cases [OF assms] show ?thesis
    by (elim insertE emptyE) (simp_all add: url_plain_def dec2hexChar_def less_eq_char_def)
qed

lemma of_char_int_bounds: "0 \<le> (of_char c :: int)" "(of_char c :: int) < 256"
proof -
  have "(of_char c :: int) = of_nat (of_char c)" by (simp only: of_nat_of_char)
  moreover have "(of_char c :: nat) < 256" by simp
  ultimately show "0 \<le> (of_char c :: int)" "(of_char c :: int) < 256" by linarith+
qed

lemma url_plain_not_percent: "url_plain c \<Longrightarrow> c \<noteq> CHR ''%''"
  by (auto simp: url_plain_def)

lemma encode_url_chars: "c \<in> set (encode_url s) \<Longrightarrow> url_plain c \<or> c = CHR ''%''"
proof (induction s)
  case Nil
  then show ?case by simp
next
  case (Cons x s)
  let ?j = "of_char x :: int"
  have b: "0 \<le> ?j div 16" "?j div 16 \<le> 15" "0 \<le> ?j - ?j div 16 * 16" "?j - ?j div 16 * 16 \<le> 15"
    using of_char_int_bounds [of x] by presburger+
  show ?case using Cons dec2hexChar_plain [OF b(1,2)] dec2hexChar_plain [OF b(3,4)]
    by (auto simp: Let_def split: if_splits)
qed

lemma decode_encode_char:
  "decode_url (encode_url (c # cs)) = map_option (Cons c) (decode_url (encode_url cs))"
proof (cases "url_plain c")
  case True
  then show ?thesis by (simp add: url_plain_not_percent)
next
  case False
  let ?j = "of_char c :: int"
  have b: "0 \<le> ?j div 16" "?j div 16 \<le> 15" "0 \<le> ?j - ?j div 16 * 16" "?j - ?j div 16 * 16 \<le> 15"
    using of_char_int_bounds [of c] by presburger+
  have "hexChar2dec (dec2hexChar (?j div 16)) * 16
      + hexChar2dec (dec2hexChar (?j - ?j div 16 * 16)) = ?j"
    using hexChar2dec_dec2hexChar [OF b(1,2)] hexChar2dec_dec2hexChar [OF b(3,4)] by simp
  then show ?thesis using False by (simp add: Let_def del: of_char_of)
qed

subsection \<open>Facts about URLs\<close>

lemma find_from_0: "find_from s sub 0 = find0 sub s"
  by (cases "find0 sub s") (simp_all add: find_from_def)

lemma find_from_append:
  "find_from (a @ b) sub (length a) = map_option ((+) (length a)) (find0 sub b)"
  by (simp add: find_from_def)

lemma find0_proto:
  assumes "CHR '':'' \<notin> set proto"
  shows "find0 ''://'' (proto @ CHR '':'' # CHR ''/'' # CHR ''/'' # rest) = Some (length proto)"
proof -
  have "find0 ''://'' (proto @ ''://'' @ rest) = Some (length proto)"
  proof (rule find0_append_first)
    fix q assume q: "q < length proto"
    then have "drop q (proto @ ''://'' @ rest) = proto ! q # drop (Suc q) proto @ ''://'' @ rest"
      by (simp add: Cons_nth_drop_Suc [symmetric])
    moreover have "proto ! q \<noteq> CHR '':''" using assms q by (metis nth_mem)
    ultimately show "take (length ''://'') (drop q (proto @ ''://'' @ rest)) \<noteq> ''://''" by simp
  qed simp
  then show ?thesis by simp
qed

lemma url_authority_port:
  "CHR '':'' \<notin> set h \<Longrightarrow> CHR '':'' \<notin> set port \<Longrightarrow>
     url_authority (h @ CHR '':'' # port) out = out\<lparr>url_host := h, url_port := port\<rparr>"
  by (simp add: url_authority_def split_char_append split_char_single)

lemma parser_url_full:
  assumes "CHR '':'' \<notin> set proto" and "set h \<inter> {CHR '':'', CHR ''/''} = {}"
    and "set port \<inter> {CHR '':'', CHR ''/''} = {}" and "CHR ''?'' \<notin> set p"
  shows "parser_url (proto @ ''://'' @ h @ CHR '':'' # port @ CHR ''/'' # p @ CHR ''?'' # q) out =
    (True, out\<lparr>url_protocol := proto, url_host := h, url_port := port,
       url_path := CHR ''/'' # p, url_query_string := q\<rparr>)"
proof -
  define a where "a = proto @ ''://''"
  define hp where "hp = h @ CHR '':'' # port"
  define pq where "pq = CHR ''/'' # p @ CHR ''?'' # q"
  define url where "url = a @ hp @ pq"
  have url_eq: "proto @ ''://'' @ h @ CHR '':'' # port @ CHR ''/'' # p @ CHR ''?'' # q = url"
    by (simp add: url_def a_def hp_def pq_def)
  have la: "length a = length proto + 3" by (simp add: a_def)
  have f1: "find_from url ''://'' 0 = Some (length proto)"
    using find0_proto [OF assms(1)] by (simp add: find_from_0 url_def a_def)
  have hp: "CHR ''/'' \<notin> set hp" using assms(2,3) by (auto simp: hp_def)
  have f2: "find_from url ''/'' (length a) = Some (length a + length hp)"
    using find0_char_append [OF hp, of "p @ CHR ''?'' # q"]
    unfolding url_def find_from_append by (simp add: pq_def)
  have "find0 ''?'' pq = Some (Suc (length p))"
    using find0_char_append [of "CHR ''?''" "CHR ''/'' # p" q] assms(4) by (simp add: pq_def)
  then have f3: "find_from url ''?'' (length a + length hp) =
      Some (length a + length hp + Suc (length p))"
    using find_from_append [of "a @ hp" pq "''?''"] by (simp add: url_def)
  have t1: "take (length proto) url = proto" by (simp add: url_def a_def)
  have t2: "take (length hp) (drop (length a) url) = hp" by (simp add: url_def)
  have t3: "take (Suc (length p)) (drop (length a + length hp) url) = CHR ''/'' # p"
    by (simp add: url_def pq_def)
  have t4: "drop (length a + length hp + Suc (length p) + 1) url = q"
    by (simp add: url_def pq_def)
  have auth: "url_authority hp o1 = o1\<lparr>url_host := h, url_port := port\<rparr>" for o1
    using url_authority_port [of h port o1] assms(2,3) by (simp add: hp_def)
  show ?thesis
    unfolding url_eq parser_url_def f1
    using f2 f3 t1 t2 t3 t4 auth by (simp add: la [symmetric] Let_def)
qed

subsection \<open>Facts about the digests' text\<close>

lemma hexnum_length:
  "16 ^ k \<le> n \<Longrightarrow> n < 16 ^ Suc k \<Longrightarrow> length (hexnum u n) = Suc k"
proof (induction k arbitrary: n)
  case 0
  then show ?case by (subst hexnum.simps) simp
next
  case (Suc k)
  have "16 ^ k \<le> n div 16" using div_le_mono [OF Suc.prems(1), of 16] by simp
  moreover have "n div 16 < 16 ^ Suc k" using Suc.prems(2) by (simp add: less_mult_imp_div_less)
  ultimately have "length (hexnum u (n div 16)) = Suc k" by (rule Suc.IH)
  moreover have "\<not> n < 16" using Suc.prems(1) by (simp add: not_less) (metis le_trans
      mult_le_mono2 nat_mult_1_right one_le_numeral one_le_power)
  ultimately show ?case by (subst hexnum.simps) simp
qed

lemma hexnum_length_le: "0 < k \<Longrightarrow> n < 16 ^ k \<Longrightarrow> length (hexnum u n) \<le> k"
proof (induction k arbitrary: n)
  case 0
  then show ?case by simp
next
  case (Suc k)
  show ?case
  proof (cases "n < 16")
    case True
    then show ?thesis by (subst hexnum.simps) simp
  next
    case False
    have "k \<noteq> 0" using False Suc.prems(2) by (cases k) auto
    moreover have "n div 16 < 16 ^ k" using Suc.prems(2) by (simp add: less_mult_imp_div_less)
    ultimately have "length (hexnum u (n div 16)) \<le> k" using Suc.IH by simp
    with False show ?thesis by (subst hexnum.simps) simp
  qed
qed

lemma fmt_hex_length: "0 < w \<Longrightarrow> n < 16 ^ w \<Longrightarrow> length (fmt_hex u w n) = w"
  using hexnum_length_le [of w n u] by (simp add: fmt_hex_def Let_def)

definition hex_lower :: "char set" where
  "hex_lower = set ''0123456789abcdef''"

lemma hexdigit_lower: "d < 16 \<Longrightarrow> hexdigit False d \<in> hex_lower"
proof -
  assume "d < 16"
  then have "d = 0 \<or> d = 1 \<or> d = 2 \<or> d = 3 \<or> d = 4 \<or> d = 5 \<or> d = 6 \<or> d = 7 \<or> d = 8 \<or>
    d = 9 \<or> d = 10 \<or> d = 11 \<or> d = 12 \<or> d = 13 \<or> d = 14 \<or> d = 15" by presburger
  then show ?thesis
    by (elim disjE) (simp_all add: hexdigit_def hex_lower_def char_of_def bit_0)
qed

lemma hexnum_lower: "set (hexnum False n) \<subseteq> hex_lower"
proof (induction n rule: less_induct)
  case (less n)
  show ?case
  proof (cases "n < 16")
    case True
    then show ?thesis by (subst hexnum.simps) (simp add: hexdigit_lower)
  next
    case False
    then have "set (hexnum False (n div 16)) \<subseteq> hex_lower" using less by simp
    with False show ?thesis by (subst hexnum.simps) (simp add: hexdigit_lower)
  qed
qed

lemma fmt_hex_lower: "set (fmt_hex False w n) \<subseteq> hex_lower"
  using hexnum_lower [of n] by (auto simp: fmt_hex_def Let_def hex_lower_def)

lemma md5_shape:
  assumes "src \<noteq> []"
  shows "length (md5 digest src) = 32" and "set (md5 digest src) \<subseteq> hex_lower"
proof -
  have "length (fmt_hex False 8 (unat (digest src i))) = 8" for i
    using unsigned_less [where 'a = nat, of "digest src i"] by (intro fmt_hex_length) simp_all
  then show "length (md5 digest src) = 32"
    using assms by (simp add: md5_def numeral_eq_Suc)
  show "set (md5 digest src) \<subseteq> hex_lower"
    using assms fmt_hex_lower by (auto simp: md5_def)
qed

lemma promote_arith:
  fixes u :: int
  assumes "0 \<le> u" and "u < 256"
  shows "((u + 128) mod 256 - 128) mod 4294967296 = (if u < 128 then u else 4294967040 + u)"
proof (cases "u < 128")
  case True
  with assms show ?thesis by simp
next
  case False
  have "(u + 128) mod 256 = (u - 128 + 256) mod 256" by (rule arg_cong) simp
  also have "\<dots> = (u - 128) mod 256" by (rule mod_add_self2)
  also have "\<dots> = u - 128" using assms False by (intro mod_pos_pos_trivial) simp_all
  finally have "(u + 128) mod 256 = u - 128" .
  then have "((u + 128) mod 256 - 128) mod 4294967296 = (u - 256) mod 4294967296" by simp
  also have "\<dots> = (u - 256 + 4294967296) mod 4294967296" by (simp only: mod_add_self2)
  also have "u - 256 + 4294967296 = 4294967040 + u" by simp
  also have "(4294967040 + u) mod 4294967296 = 4294967040 + u" using assms False by simp
  finally show ?thesis using False by simp
qed

lemma unat_scast_byte:
  fixes b :: "8 word"
  shows "unat (scast b :: 32 word) = (if unat b < 128 then unat b else 4294967040 + unat b)"
proof -
  have b: "0 \<le> uint b" "uint b < 256" using uint_lt2p [of b] by simp_all
  have si: "sint b = (uint b + 128) mod 256 - 128"
    by (simp add: sint_uint signed_take_bit_eq_take_bit_shift take_bit_eq_mod)
  have "uint (scast b :: 32 word) = sint b mod 4294967296"
    by (simp only: scast_eq uint_word_of_int len_num1 len_bit0 len_bit1) simp
  also have "\<dots> = (if uint b < 128 then uint b else 4294967040 + uint b)"
    unfolding si by (rule promote_arith [OF b])
  finally have "int (unat (scast b :: 32 word)) =
      (if int (unat b) < 128 then int (unat b) else 4294967040 + int (unat b))"
    by (simp only: uint_nat)
  moreover have "a = (if c < 128 then c else 4294967040 + c)"
    if "int a = (if int c < 128 then int c else 4294967040 + int c)" for a c :: nat
    using that by (simp split: if_splits)
  ultimately show ?thesis by blast
qed

lemma length_sha1_byte:
  fixes b :: "8 word"
  shows "length (fmt_hex True 2 (unat (scast b :: 32 word))) = (if unat b < 128 then 2 else 8)"
proof (cases "unat b < 128")
  case True
  then show ?thesis by (simp add: unat_scast_byte fmt_hex_length)
next
  case False
  have "unat b < 256" using unsigned_less [where 'a = nat, of b] by simp
  then have "length (hexnum True (4294967040 + unat b)) = 8"
    using hexnum_length [of 7 "4294967040 + unat b" True] by simp
  with False show ?thesis by (simp add: unat_scast_byte fmt_hex_def Let_def)
qed

subsection \<open>Properties\<close>

text \<open>C30: the loop of \<open>split\<close> ends for every non-empty splitor and every source shorter than 2 GB, without
  an exception, and computes pieces whose concatenation with the splitor between them is the source
  again.\<close>

theorem split_loop_correct:
  assumes "splitor \<noteq> []" and "length src < 2 ^ 31"
  shows "split_loop src splitor 0 [] = Some (Some (split src splitor)) \<and>
    join splitor (split src splitor) = src"
  using split_loop_gen [OF assms(1) _ assms(2), of 0 "[]"] by (simp add: join_split_gen)

theorem split_loop_correct_witness:
  "split_loop ''a=1&b'' ''&'' 0 [] = Some (Some (split ''a=1&b'' ''&'')) \<and>
   join ''&'' (split ''a=1&b'' ''&'') = ''a=1&b''"
  using split_loop_correct [of "''&''" "''a=1&b''"] by simp

text \<open>The bound is sharp: behind a first splitor that ends at 2 GB or later the \<^verbatim>\<open>int\<close> is negative, \<open>find\<close> finds
  nothing and \<open>substr\<close> throws.\<close>

theorem split_throws_beyond_int:
  assumes "find0 splitor src = Some p" and "2 ^ 31 \<le> p + length splitor" and "p + length splitor < 2 ^ 32"
    and "length src < 2 ^ 63"
  shows "split_loop src splitor 0 [] = Some None"
proof -
  define n where "n = p + length splitor"
  have i: "length src < int_index (of_nat n)"
    using int_index_negative [of n] assms(2-4) by (simp add: n_def)
  have "split_loop src splitor (of_nat n) res = Some None" for res
    using i by (simp add: split_loop.simps [of src splitor "of_nat n"] find_from_def)
  moreover have "find_from src splitor (int_index 0) = Some p"
    using assms(1) by (simp add: find_from_def int_index_def)
  ultimately show ?thesis by (simp only: split_loop.simps [of src splitor 0] option.case n_def)
qed

text \<open>with an empty splitor the loop of \<open>split\<close> never returns, whatever the source.\<close>

theorem split_loop_diverges: "split_loop src [] 0 [] = None"
  using split_loop_empty_gen [of src "[]" 0 "[]"] by (cases "split_loop src [] 0 []") auto

text \<open>Decoding an encoded URL gives the original bytes back, for every byte string,
  and never reads out of range.\<close>

theorem decode_url_encode_url: "decode_url (encode_url s) = Some s"
  by (induction s) (simp_all only: decode_encode_char encode_url.simps(1) decode_url.simps(1)
      option.map)

text \<open>The two index loops of \<open>trim\<close> remove exactly the leading and the trailing spaces,
  and trimming twice changes nothing more.\<close>

theorem trim_correct: "trim src = strip src \<and> trim (trim src) = trim src"
  by (simp add: trim_strip strip_idem)

text \<open>for a URL with protocol, host, port, path and query, the host part and the path part
  that the client derives from it are exactly its two halves.\<close>

theorem url_recompose:
  assumes "CHR '':'' \<notin> set proto" and "set h \<inter> {CHR '':'', CHR ''/''} = {}"
    and "set port \<inter> {CHR '':'', CHR ''/''} = {}" and "CHR ''?'' \<notin> set p"
    and "proto \<noteq> []" and "h \<noteq> []" and "port \<noteq> []" and "q \<noteq> []"
  shows "get_host_for_url (proto @ ''://'' @ h @ CHR '':'' # port @ CHR ''/'' # p @ CHR ''?'' # q)
      = proto @ ''://'' @ h @ CHR '':'' # port \<and>
    get_path_for_url (proto @ ''://'' @ h @ CHR '':'' # port @ CHR ''/'' # p @ CHR ''?'' # q)
      = CHR ''/'' # p @ CHR ''?'' # q"
  unfolding get_host_for_url_def get_path_for_url_def parser_url_full [OF assms(1-4)]
  using assms(5-8) by (simp add: Let_def)

theorem url_recompose_witness:
  "get_host_for_url ''http://www.baidu.com:8080/in?q=q&'' = ''http://www.baidu.com:8080'' \<and>
   get_path_for_url ''http://www.baidu.com:8080/in?q=q&'' = ''/in?q=q&''"
  using url_recompose [of "''http''" "''www.baidu.com''" "''8080''" "''in''" "''q=q&''"] by simp

text \<open>the SHA-1 text has the 40 digits of a SHA-1 digest plus six spurious ones for every
  digest byte of 128 or more, because the bytes are printed as sign-extended integers.\<close>

theorem sha1_length:
  assumes "src \<noteq> []"
  shows "length (sha1 digest src) =
    40 + 6 * length (filter (\<lambda>i. 128 \<le> unat (sha1_hash digest src i)) [0..<20])"
proof -
  have "length (concat (map (\<lambda>i. fmt_hex True 2
      (unat (scast (sha1_hash digest src i) :: 32 word))) is)) =
    2 * length is + 6 * length (filter (\<lambda>i. 128 \<le> unat (sha1_hash digest src i)) is)" for "is"
    by (induction "is") (simp_all add: length_sha1_byte)
  from this [of "[0..<20]"] assms show ?thesis by (simp add: sha1_def)
qed

theorem sha1_length_witness:
  "length (sha1 (\<lambda>s i. 0x11FF1111) ''x'') =
    40 + 6 * length (filter (\<lambda>i. 128 \<le> unat (sha1_hash (\<lambda>s i. 0x11FF1111) ''x'' i)) [0..<20])"
  using sha1_length [of "''x''" "\<lambda>s i. 0x11FF1111"] by simp

end
