(* ===== verification/Std_Text.thy ===== *)
theory Std_Text
  imports Hnw_Prelude
begin

section \<open>Decimal text of the standard library\<close>

text \<open>
  What the code uses of \<^verbatim>\<open>std::to_string\<close>, \<^verbatim>\<open>%llu\<close>, \<^verbatim>\<open>std::stoull\<close>, \<^verbatim>\<open>std::stoll\<close> and
  \<^verbatim>\<open>std::stoi\<close>: decimal printing, and reading with leading white space, an optional sign and
  a longest run of digits. None stands for the exceptions \<^verbatim>\<open>std::invalid_argument\<close> (no
  digits) and \<^verbatim>\<open>std::out_of_range\<close>.
\<close>

definition digit_char :: "nat \<Rightarrow> char" where
  "digit_char d = char_of (48 + d)"

definition isdigit :: "char \<Rightarrow> bool" where
  "isdigit c \<longleftrightarrow> CHR ''0'' \<le> c \<and> c \<le> CHR ''9''"

definition digit_val :: "char \<Rightarrow> nat" where
  "digit_val c = of_char c - 48"

fun show_nat :: "nat \<Rightarrow> string" where
  "show_nat n =
     (if n < 10 then [digit_char n] else show_nat (n div 10) @ [digit_char (n mod 10)])"

declare show_nat.simps [simp del]

definition read_digits :: "string \<Rightarrow> nat" where
  "read_digits ds = foldl (\<lambda>a c. a * 10 + digit_val c) 0 ds"

definition isspace :: "char \<Rightarrow> bool" where
  "isspace c \<longleftrightarrow> (let n = of_char c :: nat in n = 32 \<or> (9 \<le> n \<and> n \<le> 13))"

text \<open>Sign and magnitude of the number at the start of a string.\<close>

definition parse_int :: "string \<Rightarrow> (bool \<times> nat) option" where
  "parse_int s =
     (let s1 = dropWhile isspace s;
          (neg, s2) =
            (case s1 of
               [] \<Rightarrow> (False, [])
             | c # r \<Rightarrow> if c = CHR ''-'' then (True, r) else if c = CHR ''+'' then (False, r)
                        else (False, s1));
          ds = takeWhile isdigit s2
      in if ds = [] then None else Some (neg, read_digits ds))"

definition stoull :: "string \<Rightarrow> u64 option" where
  "stoull s =
     (case parse_int s of
        None \<Rightarrow> None
      | Some (neg, v) \<Rightarrow>
          if v < 2 ^ 64 then Some (if neg then - of_nat v else of_nat v) else None)"

definition sto_range :: "int \<Rightarrow> int \<Rightarrow> string \<Rightarrow> int option" where
  "sto_range lo hi s =
     (case parse_int s of
        None \<Rightarrow> None
      | Some (neg, v) \<Rightarrow>
          let i = (if neg then - int v else int v)
          in if lo \<le> i \<and> i \<le> hi then Some i else None)"

definition stoll :: "string \<Rightarrow> int option" where
  "stoll = sto_range (- (2 ^ 63)) (2 ^ 63 - 1)"

definition stoi :: "string \<Rightarrow> int option" where
  "stoi = sto_range (- (2 ^ 31)) (2 ^ 31 - 1)"

definition to_string :: "u64 \<Rightarrow> string" where
  "to_string w = show_nat (unat w)"

subsection \<open>Reading what was printed\<close>

lemma of_char_digit_char: "d < 10 \<Longrightarrow> (of_char (digit_char d) :: nat) = 48 + d"
  by (simp add: digit_char_def)

lemma isdigit_digit_char [simp]: "d < 10 \<Longrightarrow> isdigit (digit_char d)"
  by (simp add: isdigit_def less_eq_char_def of_char_digit_char)

lemma digit_val_digit_char [simp]: "d < 10 \<Longrightarrow> digit_val (digit_char d) = d"
  by (simp add: digit_val_def of_char_digit_char)

lemma show_nat_not_Nil [simp]: "show_nat n \<noteq> []"
  by (subst show_nat.simps) simp

lemma show_nat_digits: "\<forall>c \<in> set (show_nat n). isdigit c"
proof (induction n rule: less_induct)
  case (less n)
  show ?case
  proof (cases "n < 10")
    case True
    then show ?thesis by (subst show_nat.simps) simp
  next
    case False
    then have "\<forall>c \<in> set (show_nat (n div 10)). isdigit c" using less [of "n div 10"] by simp
    with False show ?thesis by (subst show_nat.simps) simp
  qed
qed

lemma read_digits_snoc: "read_digits (ds @ [c]) = read_digits ds * 10 + digit_val c"
  by (simp add: read_digits_def)

lemma read_digits_show_nat [simp]: "read_digits (show_nat n) = n"
proof (induction n rule: less_induct)
  case (less n)
  show ?case
  proof (cases "n < 10")
    case True
    then show ?thesis by (subst show_nat.simps) (simp add: read_digits_def)
  next
    case False
    then have "read_digits (show_nat (n div 10)) = n div 10" using less [of "n div 10"] by simp
    with False show ?thesis by (subst show_nat.simps) (simp add: read_digits_snoc)
  qed
qed

lemma isdigit_not_space: "isdigit c \<Longrightarrow> \<not> isspace c"
  by (auto simp: isdigit_def isspace_def less_eq_char_def Let_def)

lemma isdigit_not_sign: "isdigit c \<Longrightarrow> c \<noteq> CHR ''-'' \<and> c \<noteq> CHR ''+''"
  by (auto simp: isdigit_def less_eq_char_def)

lemma parse_int_digits:
  assumes "ds \<noteq> []" and "\<forall>c \<in> set ds. isdigit c" and "rest = [] \<or> \<not> isdigit (hd rest)"
  shows "parse_int (ds @ rest) = Some (False, read_digits ds)"
proof -
  obtain d ds' where ds: "ds = d # ds'" using assms(1) by (cases ds) auto
  have d: "isdigit d" using assms(2) ds by simp
  have dw: "dropWhile isspace (ds @ rest) = ds @ rest"
    using isdigit_not_space [OF d] by (simp add: ds)
  have tw: "takeWhile isdigit (ds @ rest) = ds"
    using assms(2,3) by (cases rest) (auto simp: takeWhile_append2)
  show ?thesis
    unfolding parse_int_def dw
    using isdigit_not_sign [OF d] tw by (simp add: ds Let_def)
qed

lemma parse_int_show_nat:
  "rest = [] \<or> \<not> isdigit (hd rest) \<Longrightarrow> parse_int (show_nat n @ rest) = Some (False, n)"
  using parse_int_digits [OF show_nat_not_Nil show_nat_digits, of rest n] by simp

lemma unat_u64_less: "unat (w :: u64) < 18446744073709551616"
  using unsigned_less [where 'a = nat, of w] by simp

lemma stoull_to_string_rest:
  "rest = [] \<or> \<not> isdigit (hd rest) \<Longrightarrow> stoull (to_string w @ rest) = Some w"
  using unat_u64_less [of w]
  by (simp add: stoull_def to_string_def parse_int_show_nat)

lemma stoull_to_string [simp]: "stoull (to_string w) = Some w"
  using stoull_to_string_rest [of "[]" w] by simp

lemma stoll_to_string: "unat w < 2 ^ 63 \<Longrightarrow> stoll (to_string w) = Some (int (unat w))"
  using parse_int_show_nat [of "[]" "unat w"]
  by (simp add: stoll_def sto_range_def to_string_def Let_def)

lemma stoll_range: "stoll s = Some i \<Longrightarrow> - (2 ^ 63) \<le> i \<and> i < 2 ^ 63"
  by (auto simp: stoll_def sto_range_def Let_def split: option.splits prod.splits if_splits)

lemma stoi_range: "stoi s = Some i \<Longrightarrow> - (2 ^ 31) \<le> i \<and> i < 2 ^ 31"
  by (auto simp: stoi_def sto_range_def Let_def split: option.splits prod.splits if_splits)

lemma to_string_not_Nil [simp]: "to_string w \<noteq> []"
  by (simp add: to_string_def)

lemma to_string_digits: "c \<in> set (to_string w) \<Longrightarrow> isdigit c"
  using show_nat_digits by (auto simp: to_string_def)

lemma to_string_notin: "\<not> isdigit c \<Longrightarrow> c \<notin> set (to_string w)"
  using to_string_digits by blast

lemma isdigit_simps [simp]:
  "\<not> isdigit (CHR ''-'')" "\<not> isdigit (CHR ''='')" "\<not> isdigit (CHR ''/'')" "\<not> isdigit (CHR '' '')"
  "\<not> isdigit (CHR '';'')" "\<not> isdigit (CHR '':'')" "\<not> isdigit (CHR 0x0A)" "\<not> isdigit (CHR 0x0D)"
  by (simp_all add: isdigit_def less_eq_char_def)

text \<open>How many characters a printed number takes.\<close>

lemma show_nat_length: "0 < k \<Longrightarrow> n < 10 ^ k \<Longrightarrow> length (show_nat n) \<le> k"
proof (induction k arbitrary: n)
  case 0
  then show ?case by simp
next
  case (Suc k)
  show ?case
  proof (cases "n < 10")
    case True
    then show ?thesis by (subst show_nat.simps) simp
  next
    case False
    have "k \<noteq> 0" using False Suc.prems(2) by (cases k) auto
    moreover have "n div 10 < 10 ^ k" using Suc.prems(2) by (simp add: less_mult_imp_div_less)
    ultimately have "length (show_nat (n div 10)) \<le> k" using Suc.IH by simp
    with False show ?thesis by (subst show_nat.simps) simp
  qed
qed

lemma to_string_length: "length (to_string w) \<le> 20"
proof -
  have "unat w < 10 ^ 20" using unat_u64_less [of w] by simp
  then show ?thesis unfolding to_string_def by (rule show_nat_length [rotated]) simp
qed

lemma isdigit_neq: "\<not> isdigit c \<Longrightarrow> isdigit d \<Longrightarrow> c \<noteq> d"
  by auto

end
