(* ===== verification/Http_Types.thy ===== *)
theory Http_Types
  imports Hnw_Codes Http_Util Std_Text
begin

section \<open>Data of the HTTP interface and what the platform provides\<close>

text \<open>
  The structures of \<^verbatim>\<open>Src/http/hnw_http.h\<close> (byte ranges, cookies, authentication data), and
  the record \<open>platform\<close> of the code's environment: the iteration order of
  \<^verbatim>\<open>std::unordered_multimap\<close>, which the C++ standard leaves open, and the boost algorithms.
\<close>

subsection \<open>HttpRange\<close>

record HttpRange =
  use_start_endpoint :: bool
  use_end_endpoint :: bool
  rg_start :: u64
  rg_end :: u64
  rg_total :: u64

definition HttpRange_default :: HttpRange where
  "HttpRange_default = \<lparr>use_start_endpoint = True, use_end_endpoint = True,
     rg_start = 0, rg_end = 0, rg_total = 0\<rparr>"

definition section_size :: "HttpRange \<Rightarrow> u64" where
  "section_size r =
     (if rg_total r = 0 \<and> use_end_endpoint r then 0
      else (if use_end_endpoint r then rg_total r - 1 else rg_end r)
         - (if use_start_endpoint r then 0 else rg_start r) + 1)"

definition section_start :: "HttpRange \<Rightarrow> u64" where
  "section_start r = (if use_start_endpoint r then 0 else rg_start r)"

definition section_end :: "HttpRange \<Rightarrow> u64" where
  "section_end r = (if use_end_endpoint r then rg_total r - 1 else rg_end r)"

definition HttpRange_eq :: "HttpRange \<Rightarrow> HttpRange \<Rightarrow> bool" where
  "HttpRange_eq a r \<longleftrightarrow>
     use_start_endpoint a = use_start_endpoint r \<and> use_end_endpoint a = use_end_endpoint r \<and>
     rg_start a = rg_start r \<and> rg_end a = rg_end r \<and> rg_total a = rg_total r"

lemma HttpRange_eq_iff: "HttpRange_eq a r \<longleftrightarrow> a = (r :: HttpRange)"
  by (cases a; cases r) (auto simp: HttpRange_eq_def)

text \<open>
  For a range that lies in a resource of \<open>rg_total\<close> bytes the size is the number of bytes
  between the two ends, with no wrap-around.
\<close>

lemma section_size_span:
  assumes "section_start r \<le> section_end r" and "rg_total r \<noteq> 0 \<or> \<not> use_end_endpoint r"
    and "unat (section_end r) < 2 ^ 64 - 1"
  shows "unat (section_size r) = unat (section_end r) - unat (section_start r) + 1"
proof -
  let ?d = "section_end r - section_start r"
  have eq: "section_size r = ?d + 1"
    using assms(2) by (auto simp: section_size_def section_start_def section_end_def)
  have "unat ?d = unat (section_end r) - unat (section_start r)"
    using assms(1) by (rule unat_sub)
  moreover have "unat (?d + 1) = unat ?d + 1"
    using calculation assms(3) by (simp add: unat_word_ariths)
  ultimately show ?thesis by (simp add: eq)
qed

subsection \<open>Cookies and authentication\<close>

record HnwCookie =
  ck_key :: string
  ck_value :: string

definition HnwCookie_default :: HnwCookie where
  "HnwCookie_default = \<lparr>ck_key = [], ck_value = []\<rparr>"

record HnwSetCookie =
  sc_value :: HnwCookie
  sc_max_age :: int
  sc_expires :: string
  sc_domain :: string
  sc_path :: string
  sc_is_secure :: bool

definition HnwSetCookie_default :: HnwSetCookie where
  "HnwSetCookie_default = \<lparr>sc_value = HnwCookie_default, sc_max_age = -1, sc_expires = [],
     sc_domain = [], sc_path = [], sc_is_secure = False\<rparr>"

datatype auth_method = NoneAuth | BasicAuth | DigestAuth

record HnwWWWAuthenticate =
  wa_method :: auth_method
  wa_realm :: string
  wa_qop :: string
  wa_nonce :: string
  wa_opaque :: string

definition HnwWWWAuthenticate_default :: HnwWWWAuthenticate where
  "HnwWWWAuthenticate_default = \<lparr>wa_method = NoneAuth, wa_realm = [], wa_qop = ''auth'',
     wa_nonce = [], wa_opaque = []\<rparr>"

record HnwAuthorization =
  au_method :: auth_method
  au_username :: string
  au_password :: string
  au_realm :: string
  au_nonce :: string
  au_uri :: string
  au_qop :: string
  au_nc :: string
  au_cnonce :: string
  au_response :: string
  au_opaque :: string

definition HnwAuthorization_default :: HnwAuthorization where
  "HnwAuthorization_default = \<lparr>au_method = NoneAuth, au_username = [], au_password = [],
     au_realm = [], au_nonce = [], au_uri = [], au_qop = [], au_nc = [], au_cnonce = [],
     au_response = [], au_opaque = []\<rparr>"

datatype body_type = BODY_RAW | BODY_FILE | BODY_DEFINE | BODY_EMPTY

datatype PeerType = Server | Client | PeerNone

subsection \<open>The unordered multimap of header fields\<close>

text \<open>
  A multimap is kept as the list of its elements in the order of insertion. What iterating
  over it yields is up to the library: elements with the same key are adjacent, and the
  order of the keys is arbitrary and may change with every insertion (a rehash).
  \<open>key_rank\<close>, an arbitrary function of the whole content, gives that order;
  \<open>newest_first\<close> says whether a new element goes before or behind its equals.
\<close>

type_synonym heads = "(string \<times> string) list"

record platform =
  key_rank :: "heads \<Rightarrow> string \<Rightarrow> nat"
  newest_first :: bool
  md5_digest :: "string \<Rightarrow> nat \<Rightarrow> 32 word"
  b64 :: "string \<Rightarrow> string"
  unb64 :: "string \<Rightarrow> string option"
  rand :: "nat \<Rightarrow> nat"

text \<open>A platform to evaluate on: keys in insertion order, constant digest, identity codec.\<close>

definition platform0 :: platform where
  "platform0 = \<lparr>key_rank = \<lambda>_ _. 0, newest_first = False, md5_digest = \<lambda>_ _. 0,
     b64 = \<lambda>s. s, unb64 = Some, rand = \<lambda>i. i\<rparr>"

definition umm_group :: "platform \<Rightarrow> heads \<Rightarrow> string \<Rightarrow> heads" where
  "umm_group P m k =
     (let g = filter (\<lambda>p. fst p = k) m in if newest_first P then rev g else g)"

definition umm_iter :: "platform \<Rightarrow> heads \<Rightarrow> heads" where
  "umm_iter P m =
     concat (map (umm_group P m) (sort_key (key_rank P m) (remdups (map fst m))))"

text \<open>\<open>umm_find\<close> is \<^verbatim>\<open>find(key)\<close> as the rest of the iteration from the found element on.\<close>

definition umm_find :: "platform \<Rightarrow> heads \<Rightarrow> string \<Rightarrow> heads" where
  "umm_find P m k = dropWhile (\<lambda>p. fst p \<noteq> k) (umm_iter P m)"

fun erase_first :: "string \<Rightarrow> heads \<Rightarrow> heads" where
  "erase_first k [] = []"
| "erase_first k (p # m) = (if fst p = k then m else p # erase_first k m)"

text \<open>\<open>umm_erase_found\<close> is \<^verbatim>\<open>erase(find(key))\<close>: it removes the one element found.\<close>

definition umm_erase_found :: "platform \<Rightarrow> heads \<Rightarrow> string \<Rightarrow> heads" where
  "umm_erase_found P m k =
     (if newest_first P then rev (erase_first k (rev m)) else erase_first k m)"

lemma umm_group_keys: "p \<in> set (umm_group P m k) \<Longrightarrow> fst p = k"
  by (auto simp: umm_group_def Let_def split: if_splits)

lemma set_umm_group: "set (umm_group P m k) = {p \<in> set m. fst p = k}"
  by (auto simp: umm_group_def Let_def)

lemma umm_group_Nil_iff: "umm_group P m k = [] \<longleftrightarrow> k \<notin> fst ` set m"
proof -
  have "umm_group P m k = [] \<longleftrightarrow> set (umm_group P m k) = {}" by simp
  also have "\<dots> \<longleftrightarrow> k \<notin> fst ` set m" by (force simp: set_umm_group)
  finally show ?thesis .
qed

lemma set_umm_iter [simp]: "set (umm_iter P m) = set m"
  by (auto simp: umm_iter_def set_umm_group)

lemma filter_concat_groups:
  "distinct ks \<Longrightarrow>
     filter (\<lambda>p. fst p = k) (concat (map (umm_group P m) ks)) =
       (if k \<in> set ks then umm_group P m k else [])"
proof (induction ks)
  case Nil
  then show ?case by simp
next
  case (Cons a ks)
  have "filter (\<lambda>p. fst p = k) (umm_group P m a) = (if a = k then umm_group P m a else [])"
    by (auto simp: filter_empty_conv filter_id_conv dest: umm_group_keys)
  with Cons show ?case by auto
qed

text \<open>Iterating visits each key's elements together, and they are the ones inserted.\<close>

lemma filter_umm_iter: "filter (\<lambda>p. fst p = k) (umm_iter P m) = umm_group P m k"
proof -
  have "distinct (sort_key (key_rank P m) (remdups (map fst m)))" by simp
  from filter_concat_groups [OF this, of k P m] show ?thesis
    using umm_group_Nil_iff [of P m k] by (auto simp: umm_iter_def)
qed

lemma dropWhile_concat_groups:
  "k \<in> set ks \<Longrightarrow> distinct ks \<Longrightarrow> umm_group P m k \<noteq> [] \<Longrightarrow>
    \<exists>rest. dropWhile (\<lambda>p. fst p \<noteq> k) (concat (map (umm_group P m) ks)) = umm_group P m k @ rest"
proof (induction ks)
  case Nil
  then show ?case by simp
next
  case (Cons a ks)
  show ?case
  proof (cases "a = k")
    case True
    then obtain p g where g: "umm_group P m k = p # g" using Cons.prems(3)
      by (cases "umm_group P m k") auto
    then have "fst p = k" using umm_group_keys [of p P m k] by simp
    with True g show ?thesis by simp
  next
    case False
    then have "dropWhile (\<lambda>p. fst p \<noteq> k) (umm_group P m a @ r) = dropWhile (\<lambda>p. fst p \<noteq> k) r" for r
      using umm_group_keys [of _ P m a] by (auto simp: dropWhile_append)
    with False Cons show ?thesis by auto
  qed
qed

lemma umm_find_group:
  assumes "k \<in> fst ` set m"
  shows "\<exists>rest. umm_find P m k = umm_group P m k @ rest"
  unfolding umm_find_def umm_iter_def
  by (rule dropWhile_concat_groups) (use assms in \<open>auto simp: umm_group_Nil_iff\<close>)

lemma umm_find_Nil_iff: "umm_find P m k = [] \<longleftrightarrow> k \<notin> fst ` set m"
  by (auto simp: umm_find_def dropWhile_eq_Nil_conv)

lemma umm_find_hd:
  assumes "umm_find P m k = p # rest"
  shows "fst p = k" and "p = hd (umm_group P m k)" and "umm_group P m k \<noteq> []"
proof -
  have "k \<in> fst ` set m" using assms umm_find_Nil_iff [of P m k] by auto
  then obtain r where "umm_find P m k = umm_group P m k @ r" and "umm_group P m k \<noteq> []"
    using umm_find_group umm_group_Nil_iff by metis
  then show "p = hd (umm_group P m k)" and "umm_group P m k \<noteq> []"
    using assms by (metis hd_append2 list.sel(1), simp)
  then show "fst p = k" by (metis hd_in_set umm_group_keys)
qed

lemma umm_iter_singleton_groups: "umm_group P [p] (fst p) = [p]"
  by (simp add: umm_group_def Let_def)

end
