(* ===== verification/Http_Body.thy ===== *)
theory Http_Body
  imports Http_Types
begin

section \<open>Message bodies\<close>

text \<open>
  \<^verbatim>\<open>Src/http/struct/http_body_impl.hpp\<close> (the read and write cursor, user callbacks),
  \<^verbatim>\<open>http_body_raw.hpp\<close> (a body in memory, with a capacity) and \<^verbatim>\<open>http_body_file.hpp\<close> (a body
  on a mapped file). The file system, memory mapping and \<^verbatim>\<open>rand\<close> are the fields of a record
  \<open>host\<close> over a type \<open>'w\<close> of outside worlds; the mapping calls of a body that was
  opened are taken not to throw. A read past the end of the caller's buffer is None.
\<close>

subsection \<open>The host\<close>

record 'w host =
  file_is_exist :: "'w \<Rightarrow> string \<Rightarrow> bool"
  file_size :: "'w \<Rightarrow> string \<Rightarrow> u64"
  create_null_file :: "'w \<Rightarrow> string \<Rightarrow> u64 \<Rightarrow> bool \<times> 'w"
  remove_file :: "'w \<Rightarrow> string \<Rightarrow> 'w"
  file_mapping :: "'w \<Rightarrow> string \<Rightarrow> bool \<Rightarrow> bool"
  region_read :: "'w \<Rightarrow> string \<Rightarrow> u64 \<Rightarrow> nat \<Rightarrow> string"
  region_write :: "'w \<Rightarrow> string \<Rightarrow> u64 \<Rightarrow> string \<Rightarrow> 'w"
  file_output :: "'w \<Rightarrow> string \<Rightarrow> string \<Rightarrow> 'w option"
  host_rand :: "'w \<Rightarrow> (nat \<Rightarrow> nat) \<times> 'w"

definition HTTP_FILE_FLAG_OPEN :: "32 word" where "HTTP_FILE_FLAG_OPEN = 0x00"
definition HTTP_FILE_FLAG_CREATE :: "32 word" where "HTTP_FILE_FLAG_CREATE = 0x01"
definition HTTP_FILE_FLAG_DELETE :: "32 word" where "HTTP_FILE_FLAG_DELETE = 0x04"
definition HTTP_FILE_FLAG_CREATE_NEW :: "32 word" where "HTTP_FILE_FLAG_CREATE_NEW = 0x08"
definition HTTP_FILE_FLAG_WRITE :: "32 word" where "HTTP_FILE_FLAG_WRITE = 0x10"

definition has_flag :: "32 word \<Rightarrow> 32 word \<Rightarrow> bool" where
  "has_flag flag f \<longleftrightarrow> and flag f \<noteq> 0"

definition do_file_by_flag :: "'w host \<Rightarrow> 'w \<Rightarrow> string \<Rightarrow> u64 \<Rightarrow> 32 word \<Rightarrow> bool \<times> 'w" where
  "do_file_by_flag H w file_name sz flag =
     (if \<not> file_is_exist H w file_name
      then if has_flag flag HTTP_FILE_FLAG_CREATE \<or> has_flag flag HTTP_FILE_FLAG_CREATE_NEW
           then create_null_file H w file_name sz
           else (False, w)
      else if has_flag flag HTTP_FILE_FLAG_CREATE_NEW
           then create_null_file H (remove_file H w file_name) file_name sz
           else (True, w))"

subsection \<open>RawBodyImpl\<close>

record RawBody =
  raw_body :: string
  maximum_capacity :: u64
  increment :: bool

definition raw_generate :: "u64 \<Rightarrow> RawBody" where
  "raw_generate cap = \<lparr>raw_body = [], maximum_capacity = cap, increment = False\<rparr>"

definition raw_generate_auto :: RawBody where
  "raw_generate_auto = \<lparr>raw_body = [], maximum_capacity = 0, increment = True\<rparr>"

definition raw_body_size :: "RawBody \<Rightarrow> u64" where
  "raw_body_size r = of_nat (length (raw_body r))"

definition raw_is_complete :: "RawBody \<Rightarrow> bool" where
  "raw_is_complete r \<longleftrightarrow> increment r \<or> maximum_capacity r = raw_body_size r"

definition raw_read_body_cb :: "RawBody \<Rightarrow> nat \<Rightarrow> u64 \<Rightarrow> string" where
  "raw_read_body_cb r buff_size start_pos =
     (let dl = raw_body_size r - start_pos
      in if sint dl \<le> 0 then []
         else if of_nat buff_size \<le> dl then take buff_size (drop (unat start_pos) (raw_body r))
         else take (unat dl) (drop (unat start_pos) (raw_body r)))"

definition raw_write_body_cb :: "RawBody \<Rightarrow> string \<Rightarrow> u64 \<Rightarrow> (nat \<times> RawBody) option" where
  "raw_write_body_cb r buff start_pos =
     (let end_pos = start_pos + of_nat (length buff);
          n = (if \<not> increment r \<and> maximum_capacity r \<le> end_pos
               then unat (maximum_capacity r - start_pos) else length buff)
      in if length buff < n then None
         else if raw_body_size r \<le> start_pos
         then Some (n, r\<lparr>raw_body := raw_body r @ take n buff\<rparr>)
         else Some (n, r\<lparr>raw_body := take (unat start_pos) (raw_body r) @ take n buff\<rparr>))"

subsection \<open>FileBodyImpl\<close>

record FileBody =
  fb_name :: string
  fb_size :: u64
  fb_flag :: "32 word"
  fb_range :: HttpRange

definition FileBody_new :: FileBody where
  "FileBody_new = \<lparr>fb_name = [], fb_size = 0, fb_flag = 0, fb_range = HttpRange_default\<rparr>"

text \<open>The destructor.\<close>

definition file_destroy :: "'w host \<Rightarrow> 'w \<Rightarrow> FileBody \<Rightarrow> 'w" where
  "file_destroy H w b =
     (if has_flag (fb_flag b) HTTP_FILE_FLAG_DELETE then remove_file H w (fb_name b) else w)"

text \<open>The first half of \<open>init\<close>: the file exists or is made, and its size is known.\<close>

definition file_init_open :: "'w host \<Rightarrow> 'w \<Rightarrow> FileBody \<Rightarrow> bool \<times> 'w \<times> FileBody" where
  "file_init_open H w b =
     (if \<not> file_is_exist H w (fb_name b)
      then if has_flag (fb_flag b) HTTP_FILE_FLAG_CREATE
              \<or> has_flag (fb_flag b) HTTP_FILE_FLAG_CREATE_NEW
           then let (ok, w) = create_null_file H w (fb_name b) (rg_total (fb_range b))
                in if \<not> ok then (False, w, b)
                   else (True, w, b\<lparr>fb_size := rg_total (fb_range b)\<rparr>)
           else (False, w, b)
      else if has_flag (fb_flag b) HTTP_FILE_FLAG_CREATE_NEW
           then let w = remove_file H w (fb_name b);
                    (ok, w) = create_null_file H w (fb_name b) (rg_total (fb_range b))
                in if \<not> ok then (False, w, b)
                   else (True, w, b\<lparr>fb_size := rg_total (fb_range b)\<rparr>)
           else let sz = file_size H w (fb_name b)
                in (True, w, b\<lparr>fb_size := sz, fb_range := (fb_range b)\<lparr>rg_total := sz\<rparr>\<rparr>))"

text \<open>The second half: the ends of the range, the three range checks, the mapping.\<close>

definition file_init_range :: "FileBody \<Rightarrow> bool \<times> FileBody" where
  "file_init_range b =
     (let rg = fb_range b;
          rg = (if use_start_endpoint rg then rg\<lparr>rg_start := 0\<rparr> else rg);
          rg = (if use_end_endpoint rg then rg\<lparr>rg_end := fb_size b - 1\<rparr> else rg);
          b = b\<lparr>fb_range := rg\<rparr>
      in if fb_size b \<le> rg_start rg then (False, b)
         else if fb_size b \<le> rg_end rg then (False, b)
         else if rg_end rg < rg_start rg then (False, b)
         else (True, b))"

definition file_init ::
  "'w host \<Rightarrow> 'w \<Rightarrow> FileBody \<Rightarrow> string \<Rightarrow> HttpRange \<Rightarrow> 32 word \<Rightarrow> bool \<times> 'w \<times> FileBody" where
  "file_init H w b name rg flag =
     (let b = b\<lparr>fb_name := name, fb_range := rg, fb_flag := flag\<rparr>;
          (ok, w, b) = file_init_open H w b
      in if \<not> ok then (False, w, b)
         else
           let b = (if has_flag (fb_flag b) HTTP_FILE_FLAG_CREATE
                       \<or> has_flag (fb_flag b) HTTP_FILE_FLAG_CREATE_NEW
                    then b\<lparr>fb_flag := or (fb_flag b) HTTP_FILE_FLAG_WRITE\<rparr> else b);
               (ok, b) = file_init_range b
           in if \<not> ok then (False, w, b)
              else if has_flag (fb_flag b) HTTP_FILE_FLAG_WRITE
              then (file_mapping H w (fb_name b) True, w, b)
              else (file_mapping H w (fb_name b) False, w, b))"

text \<open>A body that cannot be opened is destroyed when its last pointer goes.\<close>

definition file_generate ::
  "'w host \<Rightarrow> 'w \<Rightarrow> string \<Rightarrow> HttpRange \<Rightarrow> 32 word \<Rightarrow> FileBody option \<times> 'w" where
  "file_generate H w name rg flag =
     (let (ok, w, b) = file_init H w FileBody_new name rg flag
      in if ok then (Some b, w) else (None, file_destroy H w b))"

definition file_body_size :: "FileBody \<Rightarrow> u64" where
  "file_body_size b = rg_end (fb_range b) - rg_start (fb_range b) + 1"

definition file_is_complete :: "FileBody \<Rightarrow> u64 \<Rightarrow> bool" where
  "file_is_complete b write_pos \<longleftrightarrow> write_pos = file_body_size b"

definition file_read_body_cb :: "'w host \<Rightarrow> 'w \<Rightarrow> FileBody \<Rightarrow> nat \<Rightarrow> u64 \<Rightarrow> string" where
  "file_read_body_cb H w b buff_size start_pos =
     (let start_pos = start_pos + rg_start (fb_range b); e = rg_end (fb_range b)
      in if e + 1 \<le> start_pos then []
         else let fin = start_pos + of_nat buff_size;
                  offset = (if e + 1 \<le> fin then of_nat buff_size - (fin - e - 1)
                            else of_nat buff_size)
              in region_read H w (fb_name b) start_pos (unat offset))"

text \<open>The bound tested here is the size of the file, not the end of the range.\<close>

definition file_write_body_cb ::
  "'w host \<Rightarrow> 'w \<Rightarrow> FileBody \<Rightarrow> string \<Rightarrow> u64 \<Rightarrow> (nat \<times> 'w) option" where
  "file_write_body_cb H w b buff start_pos =
     (if \<not> has_flag (fb_flag b) HTTP_FILE_FLAG_WRITE then Some (0, w)
      else let start_pos = start_pos + rg_start (fb_range b); e = rg_end (fb_range b)
           in if e + 1 \<le> start_pos then Some (0, w)
              else let fin = start_pos + of_nat (length buff);
                       offset = (if fb_size b \<le> fin
                                 then of_nat (length buff) - (fin - e - 1)
                                 else of_nat (length buff)) :: u64
                   in if length buff < unat offset then None
                      else Some (unat offset,
                        region_write H w (fb_name b) start_pos (take (unat offset) buff)))"

subsection \<open>BaseBodyImpl\<close>

datatype BodyImpl = BaseImpl | RawImpl RawBody | FileImpl FileBody

text \<open>
  A read callback of the user yields the bytes it puts into a buffer of the given size; a
  write callback the number of bytes it takes.
\<close>

record HttpBody =
  bd_type :: body_type
  bd_read_pos :: u64
  bd_write_pos :: u64
  bd_read_cb :: "(nat \<Rightarrow> u64 \<Rightarrow> string) option"
  bd_write_cb :: "(string \<Rightarrow> u64 \<Rightarrow> nat) option"
  bd_impl :: BodyImpl

definition base_body :: "body_type \<Rightarrow> BodyImpl \<Rightarrow> HttpBody" where
  "base_body t impl = \<lparr>bd_type = t, bd_read_pos = 0, bd_write_pos = 0, bd_read_cb = None,
     bd_write_cb = None, bd_impl = impl\<rparr>"

definition raw_body_of :: "RawBody \<Rightarrow> HttpBody" where
  "raw_body_of r = base_body BODY_RAW (RawImpl r)"

definition file_body_of :: "FileBody \<Rightarrow> HttpBody" where
  "file_body_of b = base_body BODY_FILE (FileImpl b)"

definition is_complete :: "HttpBody \<Rightarrow> bool" where
  "is_complete b =
     (case bd_impl b of
        BaseImpl \<Rightarrow> True
      | RawImpl r \<Rightarrow> raw_is_complete r
      | FileImpl f \<Rightarrow> file_is_complete f (bd_write_pos b))"

definition body_size :: "HttpBody \<Rightarrow> u64" where
  "body_size b =
     (case bd_impl b of
        BaseImpl \<Rightarrow> 0
      | RawImpl r \<Rightarrow> raw_body_size r
      | FileImpl f \<Rightarrow> file_body_size f)"

definition read_body_cb :: "'w host \<Rightarrow> 'w \<Rightarrow> HttpBody \<Rightarrow> nat \<Rightarrow> u64 \<Rightarrow> string" where
  "read_body_cb H w b buff_size start_pos =
     (case bd_impl b of
        BaseImpl \<Rightarrow> []
      | RawImpl r \<Rightarrow> raw_read_body_cb r buff_size start_pos
      | FileImpl f \<Rightarrow> file_read_body_cb H w f buff_size start_pos)"

definition write_body_cb ::
  "'w host \<Rightarrow> 'w \<Rightarrow> HttpBody \<Rightarrow> string \<Rightarrow> u64 \<Rightarrow> (nat \<times> 'w \<times> HttpBody) option" where
  "write_body_cb H w b buff start_pos =
     (case bd_impl b of
        BaseImpl \<Rightarrow> Some (0, w, b)
      | RawImpl r \<Rightarrow>
          map_option (\<lambda>(n, r). (n, w, b\<lparr>bd_impl := RawImpl r\<rparr>)) (raw_write_body_cb r buff start_pos)
      | FileImpl f \<Rightarrow>
          map_option (\<lambda>(n, w). (n, w, b)) (file_write_body_cb H w f buff start_pos))"

definition read_body :: "'w host \<Rightarrow> 'w \<Rightarrow> HttpBody \<Rightarrow> nat \<Rightarrow> string \<times> HttpBody" where
  "read_body H w b buff_size =
     (let data = (case bd_read_cb b of
                    Some cb \<Rightarrow> cb buff_size (bd_read_pos b)
                  | None \<Rightarrow> read_body_cb H w b buff_size (bd_read_pos b))
      in (data, b\<lparr>bd_read_pos := bd_read_pos b + of_nat (length data)\<rparr>))"

definition write_body ::
  "'w host \<Rightarrow> 'w \<Rightarrow> HttpBody \<Rightarrow> string \<Rightarrow> (nat \<times> 'w \<times> HttpBody) option" where
  "write_body H w b buff =
     (case (case bd_write_cb b of
              Some cb \<Rightarrow> Some (cb buff (bd_write_pos b), w, b)
            | None \<Rightarrow> write_body_cb H w b buff (bd_write_pos b)) of
        None \<Rightarrow> None
      | Some (n, w, b) \<Rightarrow> Some (n, w, b\<lparr>bd_write_pos := bd_write_pos b + of_nat n\<rparr>))"

subsection \<open>A body in memory as a pull source\<close>

lemma sint_u64_small: "unat (w :: u64) < 2 ^ 63 \<Longrightarrow> sint w = int (unat w)"
proof -
  assume "unat w < 2 ^ 63"
  then have "int (unat w) < int (2 ^ 63)" by (simp only: of_nat_less_iff)
  then have lt: "uint w < 2 ^ 63" unfolding uint_nat by (simp only: of_nat_power of_nat_numeral)
  have "sint w = signed_take_bit 63 (uint w)" by (simp add: sint_uint)
  also have "\<dots> = uint w"
    by (rule iffD2 [OF signed_take_bit_int_eq_self_iff]) (use lt uint_ge_0 [of w] in linarith)
  finally show ?thesis by (simp only: uint_nat)
qed

lemma raw_read_take:
  assumes "length (raw_body r) < 2 ^ 63" and "unat pos \<le> length (raw_body r)" and "n < 2 ^ 63"
  shows "raw_read_body_cb r n pos = take n (drop (unat pos) (raw_body r))"
proof -
  let ?L = "length (raw_body r)" and ?dl = "raw_body_size r - pos"
  have L: "unat (raw_body_size r) = ?L"
    unfolding raw_body_size_def by (rule unat_of_nat_u64) (use assms(1) in simp)
  then have "pos \<le> raw_body_size r" using assms(2) by (simp add: word_le_nat_alt)
  then have dl: "unat ?dl = ?L - unat pos" by (simp add: unat_sub L)
  have s: "sint ?dl = int (?L - unat pos)"
    using sint_u64_small [of ?dl] dl assms(1) by simp
  have n: "unat (of_nat n :: u64) = n" by (rule unat_of_nat_u64) (use assms(3) in simp)
  then have le: "(of_nat n \<le> ?dl) \<longleftrightarrow> n \<le> ?L - unat pos" by (simp add: word_le_nat_alt dl)
  show ?thesis by (simp add: raw_read_body_cb_def Let_def s le dl)
qed

definition raw_ok :: "HttpBody \<Rightarrow> bool" where
  "raw_ok b \<longleftrightarrow> bd_read_cb b = None \<and>
     (case bd_impl b of
        RawImpl r \<Rightarrow> length (raw_body r) < 2 ^ 63 \<and> unat (bd_read_pos b) \<le> length (raw_body r)
      | _ \<Rightarrow> False)"

definition raw_pending :: "HttpBody \<Rightarrow> string" where
  "raw_pending b =
     (case bd_impl b of RawImpl r \<Rightarrow> drop (unat (bd_read_pos b)) (raw_body r) | _ \<Rightarrow> [])"

lemma read_body_raw:
  assumes "raw_ok b" and "n < 2 ^ 63"
  shows "read_body H w b n =
      (take n (raw_pending b), b\<lparr>bd_read_pos := bd_read_pos b + of_nat (length (take n (raw_pending b)))\<rparr>)"
    and "raw_ok (snd (read_body H w b n))"
    and "raw_pending (snd (read_body H w b n)) = drop n (raw_pending b)"
proof -
  obtain r where r: "bd_impl b = RawImpl r" and L: "length (raw_body r) < 2 ^ 63"
    and p: "unat (bd_read_pos b) \<le> length (raw_body r)" and cb: "bd_read_cb b = None"
    using assms(1) by (auto simp: raw_ok_def split: BodyImpl.splits)
  let ?d = "take n (drop (unat (bd_read_pos b)) (raw_body r))"
  have rd: "raw_read_body_cb r n (bd_read_pos b) = ?d" by (rule raw_read_take [OF L p assms(2)])
  then show eq: "read_body H w b n =
      (take n (raw_pending b), b\<lparr>bd_read_pos := bd_read_pos b + of_nat (length (take n (raw_pending b)))\<rparr>)"
    by (simp add: read_body_def read_body_cb_def r cb raw_pending_def)
  let ?k = "length ?d"
  have k: "unat (of_nat ?k :: u64) = ?k" by (rule unat_of_nat_u64) (use L in simp)
  have "unat (bd_read_pos b) + ?k \<le> length (raw_body r)" using p by simp
  then have pos: "unat (bd_read_pos b + of_nat ?k) = unat (bd_read_pos b) + ?k"
    using L k by (simp add: unat_word_ariths)
  show "raw_ok (snd (read_body H w b n))"
    using L p pos by (simp add: eq raw_ok_def r cb raw_pending_def del: length_take length_drop) simp
  show "raw_pending (snd (read_body H w b n)) = drop n (raw_pending b)"
    unfolding eq using pos by (simp add: raw_pending_def r del: length_take) (simp add: min_def add.commute)
qed

subsection \<open>Facts about file bodies\<close>

lemma file_init_range_ok:
  assumes "file_init_range b = (True, b')"
  shows "rg_start (fb_range b') \<le> rg_end (fb_range b') \<and> rg_end (fb_range b') < fb_size b' \<and>
    fb_size b' = fb_size b \<and> fb_name b' = fb_name b \<and> fb_flag b' = fb_flag b \<and>
    rg_start (fb_range b') = (if use_start_endpoint (fb_range b) then 0 else rg_start (fb_range b)) \<and>
    rg_end (fb_range b') = (if use_end_endpoint (fb_range b) then fb_size b - 1 else rg_end (fb_range b))"
  using assms
  by (auto simp: file_init_range_def Let_def not_le not_less split: if_splits)

text \<open>What the mapping of a file promises: a region is the bytes of the file at its offset.\<close>

definition mapped :: "'w host \<Rightarrow> 'w \<Rightarrow> string \<Rightarrow> string \<Rightarrow> bool" where
  "mapped H w name content \<longleftrightarrow>
     (\<forall>pos n. region_read H w name pos n = take n (drop (unat pos) content))"

definition file_section :: "string \<Rightarrow> FileBody \<Rightarrow> string" where
  "file_section content f =
     take (Suc (unat (rg_end (fb_range f))) - unat (rg_start (fb_range f)))
       (drop (unat (rg_start (fb_range f))) content)"

definition file_ok :: "'w host \<Rightarrow> 'w \<Rightarrow> string \<Rightarrow> FileBody \<Rightarrow> bool" where
  "file_ok H w content f \<longleftrightarrow> mapped H w (fb_name f) content \<and>
     rg_start (fb_range f) \<le> rg_end (fb_range f) \<and> rg_end (fb_range f) < fb_size f \<and>
     unat (fb_size f) = length content \<and> length content < 2 ^ 63"

lemma file_section_length:
  assumes "file_ok H w content f"
  shows "length (file_section content f) =
    Suc (unat (rg_end (fb_range f))) - unat (rg_start (fb_range f))"
proof -
  have "unat (rg_end (fb_range f)) < length content"
    using assms by (simp add: file_ok_def word_less_nat_alt)
  then show ?thesis unfolding file_section_def length_take length_drop by linarith
qed

lemma unat_Suc_u64: "unat (x :: u64) < 2 ^ 63 \<Longrightarrow> unat (x + 1) = Suc (unat x)"
  by (simp add: unat_word_ariths)

lemma unat_add_u64: "unat (x :: u64) + unat y < 18446744073709551616 \<Longrightarrow> unat (x + y) = unat x + unat y"
  by (simp add: unat_word_ariths)

lemma file_body_size_section:
  assumes "file_ok H w content f"
  shows "unat (file_body_size f) = length (file_section content f)"
proof -
  let ?s = "rg_start (fb_range f)" and ?e = "rg_end (fb_range f)"
  have "unat (?e - ?s) = unat ?e - unat ?s"
    using assms by (simp add: file_ok_def unat_sub)
  moreover have "unat ?s \<le> unat ?e" and "unat ?e < 2 ^ 63"
    using assms by (simp_all add: file_ok_def word_le_nat_alt word_less_nat_alt)
  ultimately show ?thesis
    using file_section_length [OF assms] unat_Suc_u64 [of "?e - ?s"]
    by (simp add: file_body_size_def Suc_diff_le)
qed

lemma file_read_take:
  assumes ok: "file_ok H w content f" and pos: "unat pos \<le> length (file_section content f)"
    and n: "n < 2 ^ 63"
  shows "file_read_body_cb H w f n pos = take n (drop (unat pos) (file_section content f))"
proof -
  let ?s = "rg_start (fb_range f)" and ?e = "rg_end (fb_range f)"
  have m: "region_read H w (fb_name f) p k = take k (drop (unat p) content)" for p k
    using ok by (simp add: file_ok_def mapped_def)
  have se: "unat ?s \<le> unat ?e" and e: "unat ?e < length content" and c: "length content < 2 ^ 63"
    using ok by (simp_all add: file_ok_def word_le_nat_alt word_less_nat_alt)
  have L: "length (file_section content f) = Suc (unat ?e) - unat ?s"
    by (rule file_section_length [OF ok])
  have e1: "unat (?e + 1) = Suc (unat ?e)" by (rule unat_Suc_u64) (use e c in linarith)
  have c': "length content < 9223372036854775808" using c by simp
  have p1: "unat (pos + ?s) = unat pos + unat ?s"
    by (rule unat_add_u64) (use pos L e c' se in linarith)
  have un: "unat (of_nat n :: u64) = n" by (rule unat_of_nat_u64) (use n in simp)
  have fin: "unat (pos + ?s + of_nat n) = unat pos + unat ?s + n"
  proof -
    have "n < 9223372036854775808" using n by simp
    then have "unat (pos + ?s) + unat (of_nat n :: u64) < 18446744073709551616"
      unfolding p1 un using pos L e c' se by linarith
    from unat_add_u64 [OF this] show ?thesis by (simp only: p1 un)
  qed
  have dr: "drop (unat pos) (file_section content f) =
      take (Suc (unat ?e) - (unat pos + unat ?s)) (drop (unat pos + unat ?s) content)"
    by (simp add: file_section_def drop_take add.commute)
  show ?thesis
  proof (cases "?e + 1 \<le> pos + ?s")
    case True
    then have "Suc (unat ?e) \<le> unat pos + unat ?s" by (simp add: word_le_nat_alt e1 p1)
    with True dr show ?thesis by (simp add: file_read_body_cb_def Let_def)
  next
    case False
    then have lt: "unat pos + unat ?s < Suc (unat ?e)" by (simp add: word_le_nat_alt e1 p1)
    show ?thesis
    proof (cases "?e + 1 \<le> pos + ?s + of_nat n")
      case True
      then have ge: "Suc (unat ?e) \<le> unat pos + unat ?s + n" by (simp add: word_le_nat_alt e1 fin)
      have "pos + ?s + of_nat n - ?e - 1 = pos + ?s + of_nat n - (?e + 1)" by simp
      then have d: "unat (pos + ?s + of_nat n - ?e - 1) = unat pos + unat ?s + n - Suc (unat ?e)"
        using True e1 fin by (simp only: unat_sub)
      have le: "pos + ?s + of_nat n - ?e - 1 \<le> of_nat n"
        using lt by (simp add: word_le_nat_alt d un)
      have off: "unat (of_nat n - (pos + ?s + of_nat n - ?e - 1)) =
          Suc (unat ?e) - (unat pos + unat ?s)"
        unfolding unat_sub [OF le] un d using ge lt by arith
      have K: "min n (Suc (unat ?e) - (unat pos + unat ?s)) = Suc (unat ?e) - (unat pos + unat ?s)"
        by (rule min.absorb2) (use ge in arith)
      show ?thesis
        unfolding file_read_body_cb_def Let_def if_not_P [OF False] if_P [OF True] off m p1 dr
        by (simp only: take_take K)
    next
      case nge: False
      then have "unat pos + unat ?s + n < Suc (unat ?e)" by (simp add: word_le_nat_alt e1 fin)
      with False nge show ?thesis
        by (simp add: file_read_body_cb_def Let_def un m p1 dr min_def)
    qed
  qed
qed

subsection \<open>Every body is a pull source\<close>

text \<open>\<open>cont\<close> gives the content of the mapped files; reading leaves the world as it is.\<close>

definition body_content :: "(string \<Rightarrow> string) \<Rightarrow> HttpBody \<Rightarrow> string" where
  "body_content cont b =
     (case bd_impl b of
        BaseImpl \<Rightarrow> []
      | RawImpl r \<Rightarrow> raw_body r
      | FileImpl f \<Rightarrow> file_section (cont (fb_name f)) f)"

definition body_pending :: "(string \<Rightarrow> string) \<Rightarrow> HttpBody \<Rightarrow> string" where
  "body_pending cont b = drop (unat (bd_read_pos b)) (body_content cont b)"

definition body_ok :: "'w host \<Rightarrow> 'w \<Rightarrow> (string \<Rightarrow> string) \<Rightarrow> HttpBody \<Rightarrow> bool" where
  "body_ok H w cont b \<longleftrightarrow> bd_read_cb b = None \<and>
     unat (bd_read_pos b) \<le> length (body_content cont b) \<and> length (body_content cont b) < 2 ^ 63 \<and>
     (case bd_impl b of FileImpl f \<Rightarrow> file_ok H w (cont (fb_name f)) f | _ \<Rightarrow> True)"

lemma read_body_cb_take:
  assumes "body_ok H w cont b" and "n < 2 ^ 63"
  shows "read_body_cb H w b n (bd_read_pos b) = take n (body_pending cont b)"
proof (cases "bd_impl b")
  case BaseImpl
  then show ?thesis by (simp add: read_body_cb_def body_pending_def body_content_def)
next
  case (RawImpl r)
  then show ?thesis using raw_read_take [of r "bd_read_pos b" n] assms
    by (simp add: read_body_cb_def body_pending_def body_content_def body_ok_def)
next
  case (FileImpl f)
  then show ?thesis using file_read_take [of H w "cont (fb_name f)" f "bd_read_pos b" n] assms
    by (simp add: read_body_cb_def body_pending_def body_content_def body_ok_def)
qed

lemma read_body_pull:
  assumes ok: "body_ok H w cont b" and n: "n < 2 ^ 63" and rd: "read_body H w b n = (d, b')"
  shows "d = take n (body_pending cont b)" and "body_ok H w cont b'"
    and "body_pending cont b' = drop n (body_pending cont b)"
proof -
  let ?C = "body_content cont b" and ?p = "unat (bd_read_pos b)"
  have cb: "bd_read_cb b = None" and p: "?p \<le> length ?C" and c: "length ?C < 2 ^ 63"
    using ok by (simp_all add: body_ok_def)
  have d: "d = take n (body_pending cont b)"
    and b': "b' = b\<lparr>bd_read_pos := bd_read_pos b + of_nat (length d)\<rparr>"
    using rd unfolding read_body_cb_take [OF ok n, symmetric] read_body_def
    by (auto simp: cb Let_def)
  have ld: "length d = min (length ?C - ?p) n" by (simp add: d body_pending_def)
  have "unat (of_nat (length d) :: u64) = length d"
    by (rule unat_of_nat_u64) (use ld c in simp)
  then have pos: "unat (bd_read_pos b') = ?p + length d"
    using unat_add_u64 [of "bd_read_pos b" "of_nat (length d)"] p c ld by (simp add: b')
  have C: "body_content cont b' = ?C" by (simp add: body_content_def b')
  show "d = take n (body_pending cont b)" by (rule d)
  show "body_ok H w cont b'" using ok pos ld p C by (simp add: body_ok_def b')
  show "body_pending cont b' = drop n (body_pending cont b)"
    using ld p unfolding body_pending_def C pos by (auto simp: min_def add.commute)
qed

interpretation body_src: pull_source "read_body H w" "body_pending cont" "body_ok H w cont"
proof
  fix s n b s' assume ok: "body_ok H w cont s" and pos: "0 < n" and n: "n < 2 ^ 63" and rd: "read_body H w s n = (b, s')"
  note r = read_body_pull [OF ok n rd]
  show "body_pending cont s = b @ body_pending cont s'" by (simp add: r)
  show "length b \<le> n" by (simp add: r)
  show "body_ok H w cont s'" by (rule r)
  show "b \<noteq> []" if "body_pending cont s \<noteq> []" using that pos by (simp add: r)
qed

subsection \<open>Filling a body of fixed capacity\<close>

text \<open>The body of capacity \<open>c\<close> after \<open>d\<close> was written to it.\<close>

definition raw_filled :: "u64 \<Rightarrow> string \<Rightarrow> HttpBody" where
  "raw_filled cap d = (raw_body_of \<lparr>raw_body = d, maximum_capacity = cap, increment = False\<rparr>)
     \<lparr>bd_write_pos := of_nat (length d)\<rparr>"

lemma raw_filled_Nil: "raw_filled cap [] = raw_body_of (raw_generate cap)"
  by (simp add: raw_filled_def raw_body_of_def raw_generate_def base_body_def)

lemma raw_filled_complete:
  assumes "length d < 18446744073709551616"
  shows "is_complete (raw_filled cap d) \<longleftrightarrow> length d = unat cap"
proof -
  have "is_complete (raw_filled cap d) \<longleftrightarrow> cap = of_nat (length d)"
    by (simp only: is_complete_def raw_filled_def raw_body_of_def base_body_def raw_is_complete_def
      raw_body_size_def HttpBody.select_convs HttpBody.update_convs RawBody.select_convs
      BodyImpl.case simp_thms)
  also have "\<dots> \<longleftrightarrow> length d = unat cap"
    using unat_of_nat_u64 [OF assms] word_eq_iff_unsigned [where ?'a = nat, of cap "of_nat (length d)"]
    by (simp add: eq_commute)
  finally show ?thesis .
qed

lemma raw_filled_content: "body_pending cont (raw_filled c d) = d"
  by (simp add: body_pending_def body_content_def raw_filled_def raw_body_of_def base_body_def)

lemma raw_filled_ok: "length d < 2 ^ 63 \<Longrightarrow> body_ok H w cont (raw_filled c d)"
  by (simp add: body_ok_def body_content_def raw_filled_def raw_body_of_def base_body_def)

lemma raw_filled_write:
  assumes "length d \<le> unat cap" and "length d + length buff < 18446744073709551616"
  shows "write_body H w (raw_filled cap d) buff =
    (let n = min (length buff) (unat cap - length d) in Some (n, w, raw_filled cap (d @ take n buff)))"
proof -
  have ud: "unat (of_nat (length d) :: u64) = length d"
    by (rule unat_of_nat_u64) (use assms in simp)
  have ub: "unat (of_nat (length buff) :: u64) = length buff"
    by (rule unat_of_nat_u64) (use assms in simp)
  have e: "unat (of_nat (length d) + of_nat (length buff) :: u64) = length d + length buff"
    using unat_add_u64 [of "of_nat (length d)" "of_nat (length buff)"] ud ub assms by simp
  have s: "unat (cap - of_nat (length d)) = unat cap - length d"
    using assms(1) ud by (simp add: unat_sub word_le_nat_alt)
  let ?n = "min (length buff) (unat cap - length d)"
  have n: "(if cap \<le> of_nat (length d) + of_nat (length buff)
      then unat (cap - of_nat (length d)) else length buff) = ?n"
    unfolding word_le_nat_alt e s using assms(1) by simp
  have "raw_write_body_cb \<lparr>raw_body = d, maximum_capacity = cap, increment = False\<rparr> buff
      (of_nat (length d)) =
      Some (?n, \<lparr>raw_body = d @ take ?n buff, maximum_capacity = cap, increment = False\<rparr>)"
    by (simp only: raw_write_body_cb_def RawBody.select_convs not_False_eq_True simp_thms Let_def n
        raw_body_size_def order_refl if_True if_False) simp
  then show ?thesis
    by (simp add: write_body_def write_body_cb_def raw_filled_def raw_body_of_def base_body_def Let_def)
qed

fun write_all :: "'w host \<Rightarrow> 'w \<Rightarrow> HttpBody \<Rightarrow> string list \<Rightarrow> ('w \<times> HttpBody) option" where
  "write_all H w b [] = Some (w, b)"
| "write_all H w b (x # xs) =
     (case write_body H w b x of None \<Rightarrow> None | Some (_, w, b) \<Rightarrow> write_all H w b xs)"

lemma write_all_filled:
  "length d \<le> unat cap \<Longrightarrow> length d + length (concat xs) < 18446744073709551616 \<Longrightarrow>
     write_all H w (raw_filled cap d) xs = Some (w, raw_filled cap (take (unat cap) (d @ concat xs)))"
proof (induction xs arbitrary: d)
  case Nil
  then show ?case by simp
next
  case (Cons x xs)
  let ?n = "min (length x) (unat cap - length d)"
  have "write_body H w (raw_filled cap d) x = Some (?n, w, raw_filled cap (d @ take ?n x))"
    using raw_filled_write [of d cap x H w] Cons.prems by (simp add: Let_def)
  moreover have "length (d @ take ?n x) \<le> unat cap" using Cons.prems(1) by simp
  moreover have "take (unat cap) ((d @ take ?n x) @ concat xs) = take (unat cap) (d @ x @ concat xs)"
    using Cons.prems(1) by (cases "length x \<le> unat cap - length d") simp_all
  moreover have "length (d @ take ?n x) + length (concat xs) < 18446744073709551616"
    using Cons.prems(2) by simp
  ultimately show ?case using Cons.IH [of "d @ take ?n x"] by simp
qed

lemma file_generate_ends:
  assumes "file_generate H w name rg flag = (Some b, w')"
  shows "rg_start (fb_range b) \<le> rg_end (fb_range b) \<and> rg_end (fb_range b) < fb_size b \<and>
    rg_start (fb_range b) = (if use_start_endpoint rg then 0 else rg_start rg) \<and>
    (use_end_endpoint rg \<longrightarrow> rg_end (fb_range b) = fb_size b - 1) \<and>
    (\<not> use_end_endpoint rg \<longrightarrow> rg_end (fb_range b) = rg_end rg) \<and>
    unat (file_body_size b) = unat (rg_end (fb_range b)) - unat (rg_start (fb_range b)) + 1 \<and>
    unat (file_body_size b) \<le> unat (fb_size b)"
proof -
  obtain w1 where ini: "file_init H w FileBody_new name rg flag = (True, w1, b)"
    using assms by (auto simp: file_generate_def split: prod.splits if_splits)
  obtain w2 b1 where op: "file_init_open H w
      (FileBody_new\<lparr>fb_name := name, fb_range := rg, fb_flag := flag\<rparr>) = (True, w2, b1)"
    using ini by (auto simp: file_init_def Let_def split: prod.splits if_splits)
  define b2 where "b2 = (if has_flag (fb_flag b1) HTTP_FILE_FLAG_CREATE
      \<or> has_flag (fb_flag b1) HTTP_FILE_FLAG_CREATE_NEW
      then b1\<lparr>fb_flag := or (fb_flag b1) HTTP_FILE_FLAG_WRITE\<rparr> else b1)"
  have rb: "file_init_range b2 = (True, b)"
    using ini op by (auto simp: file_init_def Let_def b2_def [symmetric] split: prod.splits if_splits)
  have "use_start_endpoint (fb_range b1) = use_start_endpoint rg \<and>
      use_end_endpoint (fb_range b1) = use_end_endpoint rg \<and>
      rg_start (fb_range b1) = rg_start rg \<and> rg_end (fb_range b1) = rg_end rg"
    using op by (auto simp: file_init_open_def Let_def split: prod.splits if_splits)
  moreover have "fb_range b2 = fb_range b1" and "fb_size b2 = fb_size b1" by (simp_all add: b2_def)
  moreover note ro = file_init_range_ok [OF rb]
  have r: "rg_start (fb_range b) \<le> rg_end (fb_range b)" "rg_end (fb_range b) < fb_size b"
    using ro by blast+
  moreover have q: "rg_start (fb_range b) = (if use_start_endpoint rg then 0 else rg_start rg)"
    "use_end_endpoint rg \<longrightarrow> rg_end (fb_range b) = fb_size b - 1"
    "\<not> use_end_endpoint rg \<longrightarrow> rg_end (fb_range b) = rg_end rg"
    using calculation ro by simp_all
  let ?d = "rg_end (fb_range b) - rg_start (fb_range b)"
  have d: "unat ?d = unat (rg_end (fb_range b)) - unat (rg_start (fb_range b))"
    using r(1) by (rule unat_sub)
  have e: "unat (rg_end (fb_range b)) < unat (fb_size b)" using r(2) by (simp add: word_less_nat_alt)
  have "unat ?d + 1 < 18446744073709551616" using d e unat_u64_less [of "fb_size b"] by linarith
  then have sz: "unat (file_body_size b) = unat (rg_end (fb_range b)) - unat (rg_start (fb_range b)) + 1"
    using unat_add_u64 [of ?d 1] d by (simp add: file_body_size_def)
  with e have "unat (file_body_size b) \<le> unat (fb_size b)" by linarith
  with r q sz show ?thesis by blast
qed

subsection \<open>Properties\<close>

text \<open>
  A body of capacity \<open>cap\<close> keeps the first \<open>cap\<close> bytes of whatever chunks are written to it,
  is complete exactly when that many have arrived, and hands them out again through any
  sequence of buffers that is long enough.
\<close>

theorem raw_body_write_read:
  assumes "length (concat xs) < 2 ^ 63"
    and "\<forall>n \<in> set ns. 0 < n \<and> n < 2 ^ 63" and "length (concat xs) \<le> length ns"
  shows "\<exists>b. write_all H w (raw_body_of (raw_generate cap)) xs = Some (w, b) \<and>
    (is_complete b \<longleftrightarrow> unat cap \<le> length (concat xs)) \<and>
    fst (drain (read_body H w) b ns) = take (unat cap) (concat xs)"
proof -
  let ?d = "take (unat cap) (concat xs)"
  let ?b = "raw_filled cap ?d"
  have "write_all H w (raw_body_of (raw_generate cap)) xs = Some (w, ?b)"
    using write_all_filled [of "[]" cap xs H w] assms(1) by (simp add: raw_filled_Nil)
  moreover have "is_complete ?b \<longleftrightarrow> unat cap \<le> length (concat xs)"
    using raw_filled_complete [of ?d cap] assms(1) by auto
  moreover have "length ?d < 2 ^ 63" using assms(1) by (simp add: min_less_iff_disj)
  then have ok: "body_ok H w (\<lambda>_. []) ?b" by (rule raw_filled_ok)
  moreover obtain bs t where dr: "drain (read_body H w) ?b ns = (bs, t)" by fastforce
  then have "bs = body_pending (\<lambda>_. []) ?b"
    using body_src.drain_all [OF ok assms(2) _ dr] assms(3) by (simp add: raw_filled_content)
  ultimately show ?thesis using dr by (simp add: raw_filled_content)
qed

text \<open>
  C27: A file body that opens covers a non-empty range inside its file: its two ends are ordered
  and below the file's size, the requested start is kept, an open end becomes the last byte,
  and body_size is the number of bytes between the ends, without wrap-around.
\<close>

theorem file_generate_range:
  assumes "file_generate H w name rg flag = (Some b, w')"
  shows "rg_start (fb_range b) \<le> rg_end (fb_range b) \<and> rg_end (fb_range b) < fb_size b \<and>
    rg_start (fb_range b) = (if use_start_endpoint rg then 0 else rg_start rg) \<and>
    (use_end_endpoint rg \<longrightarrow> rg_end (fb_range b) = fb_size b - 1) \<and>
    (\<not> use_end_endpoint rg \<longrightarrow> rg_end (fb_range b) = rg_end rg) \<and>
    unat (file_body_size b) = unat (rg_end (fb_range b)) - unat (rg_start (fb_range b)) + 1 \<and>
    unat (file_body_size b) \<le> unat (fb_size b)"
  using file_generate_ends [OF assms] .

text \<open>A host with one file of five bytes.\<close>

definition host1 :: "unit host" where
  "host1 = \<lparr>file_is_exist = \<lambda>_ n. n = ''a.txt'', file_size = \<lambda>_ _. 5,
     create_null_file = \<lambda>w _ _. (False, w), remove_file = \<lambda>w _. w, file_mapping = \<lambda>_ _ _. True,
     region_read = \<lambda>_ _ pos n. take n (drop (unat pos) ''hello''),
     region_write = \<lambda>w _ _ _. w, file_output = \<lambda>w _ _. Some w, host_rand = \<lambda>w. (\<lambda>i. i, w)\<rparr>"

definition range1 :: HttpRange where
  "range1 = \<lparr>use_start_endpoint = False, use_end_endpoint = False, rg_start = 2, rg_end = 3,
     rg_total = 0\<rparr>"

definition file1 :: FileBody where
  "file1 = \<lparr>fb_name = ''a.txt'', fb_size = 5, fb_flag = HTTP_FILE_FLAG_WRITE,
     fb_range = range1\<lparr>rg_total := 5\<rparr>\<rparr>"

theorem raw_body_write_read_witness:
  "\<exists>b. write_all host1 () (raw_body_of (raw_generate 3)) [''ab'', ''cde''] =
      Some ((), b) \<and> fst (drain (read_body host1 ()) b [2, 2, 2, 1, 1]) = ''abc''"
  using raw_body_write_read [of "[''ab'', ''cde'']" "[2, 2, 2, 1, 1]" host1 "()" 3] by auto

lemma file_generate_host1:
  "file_generate host1 () ''a.txt'' range1 HTTP_FILE_FLAG_WRITE = (Some file1, ())"
  by (simp add: file_generate_def file_init_def file_init_open_def file_init_range_def host1_def
      range1_def file1_def FileBody_new_def has_flag_def HTTP_FILE_FLAG_CREATE_def
      HTTP_FILE_FLAG_CREATE_NEW_def HTTP_FILE_FLAG_WRITE_def HTTP_FILE_FLAG_OPEN_def Let_def)

theorem file_generate_range_witness: "unat (file_body_size file1) = 2"
  using file_generate_range [OF file_generate_host1] by (simp add: file1_def range1_def)

text \<open>
  C28: A file body hands out exactly the bytes of its range, in order, whatever buffer sizes it
  is read with, given that a mapped region is the bytes of the file at its offset; body_size
  is their number.
\<close>

theorem file_body_reads_range:
  assumes "mapped H w (fb_name f) content" and "rg_start (fb_range f) \<le> rg_end (fb_range f)"
    and "rg_end (fb_range f) < fb_size f" and "unat (fb_size f) = length content"
    and "length content < 2 ^ 63"
    and "\<forall>n \<in> set ns. 0 < n \<and> n < 2 ^ 63" and "length content \<le> length ns"
  shows "fst (drain (read_body H w) (file_body_of f) ns) = file_section content f \<and>
    unat (body_size (file_body_of f)) = length (file_section content f)"
proof -
  have f: "file_ok H w content f" using assms(1-5) by (simp add: file_ok_def)
  have le: "length (file_section content f) \<le> length content" by (simp add: file_section_def)
  have ok: "body_ok H w (\<lambda>_. content) (file_body_of f)"
    using f le assms(5) by (simp add: body_ok_def file_body_of_def base_body_def body_content_def)
  have p: "body_pending (\<lambda>_. content) (file_body_of f) = file_section content f"
    by (simp add: body_pending_def body_content_def file_body_of_def base_body_def)
  obtain bs t where dr: "drain (read_body H w) (file_body_of f) ns = (bs, t)" by fastforce
  from body_src.drain_all [OF ok assms(6) _ dr] p le assms(7)
  have "bs = file_section content f" by simp
  with dr file_body_size_section [OF f] show ?thesis
    by (simp add: body_size_def file_body_of_def base_body_def)
qed

theorem file_body_reads_range_witness:
  "fst (drain (read_body host1 ()) (file_body_of file1) [2, 2, 2, 2, 2]) = ''ll''"
proof -
  have "fst (drain (read_body host1 ()) (file_body_of file1) [2, 2, 2, 2, 2]) =
      file_section ''hello'' file1 \<and>
      unat (body_size (file_body_of file1)) = length (file_section ''hello'' file1)"
    by (rule file_body_reads_range) (simp_all add: mapped_def host1_def file1_def range1_def)
  then show ?thesis by (simp add: file_section_def file1_def range1_def)
qed

text \<open>
  Writing tests the end of the chunk against the size of the file and not the end of the
  range: a chunk that ends inside the file but behind the range is written whole, and the
  body, now longer than its own size, is not complete.
\<close>

theorem file_write_beyond_range:
  assumes "has_flag (fb_flag f) HTTP_FILE_FLAG_WRITE" and "rg_end (fb_range f) < fb_size f"
    and "rg_start (fb_range f) \<le> rg_end (fb_range f)"
    and "unat (rg_end (fb_range f)) + 1 < unat (rg_start (fb_range f)) + length buff"
    and "unat (rg_start (fb_range f)) + length buff < unat (fb_size f)"
  shows "file_write_body_cb H w f buff 0 =
      Some (length buff, region_write H w (fb_name f) (rg_start (fb_range f)) buff) \<and>
    \<not> file_is_complete f (of_nat (length buff))"
proof -
  let ?s = "rg_start (fb_range f)" and ?e = "rg_end (fb_range f)"
  have lb: "length buff < 18446744073709551616"
    using assms(5) unat_u64_less [of "fb_size f"] by linarith
  note ub = unat_of_nat_u64 [OF lb]
  have "unat ?s + unat (of_nat (length buff) :: u64) < 18446744073709551616"
    unfolding ub using assms(5) unat_u64_less [of "fb_size f"] by linarith
  from unat_add_u64 [OF this] ub
  have fin: "unat (?s + of_nat (length buff)) = unat ?s + length buff" by simp
  have e1: "unat (?e + 1) = unat ?e + 1"
    using unat_add_u64 [of ?e 1] assms(2) unat_u64_less [of "fb_size f"]
    by (simp add: word_less_nat_alt)
  have c1: "\<not> ?e + 1 \<le> 0 + ?s" using assms(3) by (simp add: word_le_nat_alt e1)
  have c2: "\<not> fb_size f \<le> 0 + ?s + of_nat (length buff)"
    using assms(5) by (simp add: word_le_nat_alt fin)
  have w: "file_write_body_cb H w f buff 0 =
      Some (length buff, region_write H w (fb_name f) ?s buff)"
    unfolding file_write_body_cb_def Let_def
    using assms(1) by (simp only: c1 c2 not_True_eq_False if_False ub) simp
  have "unat (file_body_size f) \<noteq> unat (of_nat (length buff) :: u64)"
  proof -
    have "unat (?e - ?s) = unat ?e - unat ?s" using assms(3) by (rule unat_sub)
    moreover have "unat ?e < unat (fb_size f)" using assms(2) by (simp add: word_less_nat_alt)
    then have "unat (?e - ?s) + unat (1 :: u64) < 18446744073709551616"
      using unat_u64_less [of "fb_size f"] calculation by simp
    from unat_add_u64 [OF this] have "unat (file_body_size f) = unat ?e - unat ?s + 1"
      using calculation by (simp add: file_body_size_def)
    moreover have "unat ?s \<le> unat ?e" using assms(3) by (simp add: word_le_nat_alt)
    ultimately show ?thesis unfolding ub using assms(4) by linarith
  qed
  with w show ?thesis by (auto simp: file_is_complete_def)
qed

theorem file_write_beyond_range_witness:
  "file_write_body_cb host1 () (file1\<lparr>fb_range := range1\<lparr>rg_end := 2\<rparr>\<rparr>) ''xy'' 0 =
     Some (2, region_write host1 () ''a.txt'' 2 ''xy'')"
  using file_write_beyond_range [of "file1\<lparr>fb_range := range1\<lparr>rg_end := 2\<rparr>\<rparr>" "''xy''" host1 "()"]
  by (simp add: file1_def range1_def has_flag_def HTTP_FILE_FLAG_WRITE_def)

end
