(* ===== verification/Http_Head.thy ===== *)
theory Http_Head
  imports Http_Types
begin

section \<open>Header fields: HeadImpl\<close>

text \<open>
  \<^verbatim>\<open>Src/http/struct/http_head_impl.hpp\<close>. The object's state is its multimap \<open>head_\<close>; every
  operation takes it and returns the new one. \<open>P\<close> gives the platform, so a lemma about an
  operation that iterates holds for every iteration order.
\<close>

definition HEAD_SPLIT :: string where "HEAD_SPLIT = '': ''"
definition CRLF :: string where "CRLF = [CHR 0x0D, CHR 0x0A]"
definition HTTP_LEN :: string where "HTTP_LEN = ''Content-Length''"
definition HTTP_CT :: string where "HTTP_CT = ''Content-Type''"
definition HTTP_CONN :: string where "HTTP_CONN = ''Connection''"
definition HTTP_CONN_CLOSE :: string where "HTTP_CONN_CLOSE = ''Close''"
definition HTTP_CONN_KEEPALIVE :: string where "HTTP_CONN_KEEPALIVE = ''keep-alive''"
definition HTTP_RANGE :: string where "HTTP_RANGE = ''Range''"
definition HTTP_CONTENT_RANGE :: string where "HTTP_CONTENT_RANGE = ''Content-Range''"
definition HTTP_RANGE_BYTE :: string where "HTTP_RANGE_BYTE = ''bytes''"
definition HTTP_SET_COOKIE :: string where "HTTP_SET_COOKIE = ''Set-Cookie''"
definition HTTP_COOKIE :: string where "HTTP_COOKIE = ''Cookie''"
definition HTTP_WWW_AUTH :: string where "HTTP_WWW_AUTH = ''WWW-Authenticate''"
definition HTTP_AUTH :: string where "HTTP_AUTH = ''Authorization''"
definition HTTP_LOC :: string where "HTTP_LOC = ''Location''"
definition HTTP_HOST :: string where "HTTP_HOST = ''Host''"
definition HTTP_UA :: string where "HTTP_UA = ''User-Agent''"
definition HTTP_ACCEPT :: string where "HTTP_ACCEPT = ''Accept''"

subsection \<open>Access by key\<close>

definition add_head :: "heads \<Rightarrow> string \<Rightarrow> string \<Rightarrow> heads" where
  "add_head h key value = h @ [(key, value)]"

text \<open>\<^verbatim>\<open>std::to_string\<close> of a signed value.\<close>

definition int64_to_string :: "int \<Rightarrow> string" where
  "int64_to_string i = (if i < 0 then CHR ''-'' # show_nat (nat (- i)) else show_nat (nat i))"

definition add_head_int64 :: "heads \<Rightarrow> string \<Rightarrow> int \<Rightarrow> heads" where
  "add_head_int64 h key value = add_head h key (int64_to_string value)"

definition add_head_uint64 :: "heads \<Rightarrow> string \<Rightarrow> u64 \<Rightarrow> heads" where
  "add_head_uint64 h key value = add_head h key (to_string value)"

definition del_head :: "heads \<Rightarrow> string \<Rightarrow> heads" where
  "del_head h key = filter (\<lambda>p. fst p \<noteq> key) h"

text \<open>The loop runs from the found element to the end of the map.\<close>

definition get_heads :: "platform \<Rightarrow> heads \<Rightarrow> string \<Rightarrow> string list" where
  "get_heads P h key = map snd (umm_find P h key)"

definition get_head :: "platform \<Rightarrow> heads \<Rightarrow> string \<Rightarrow> string \<Rightarrow> string" where
  "get_head P h key notfind =
     (case umm_find P h key of [] \<Rightarrow> notfind | p # _ \<Rightarrow> snd p)"

definition get_head_int64 :: "platform \<Rightarrow> heads \<Rightarrow> string \<Rightarrow> int \<Rightarrow> int" where
  "get_head_int64 P h key notfind =
     (let str = get_head P h key []
      in if str = [] then notfind
         else case stoll str of None \<Rightarrow> notfind | Some i \<Rightarrow> i)"

definition get_head_uint64 :: "platform \<Rightarrow> heads \<Rightarrow> string \<Rightarrow> u64 \<Rightarrow> u64" where
  "get_head_uint64 P h key notfind =
     (let str = get_head P h key []
      in if str = [] then notfind
         else case stoull str of None \<Rightarrow> notfind | Some w \<Rightarrow> w)"

definition get_head_count :: "heads \<Rightarrow> string \<Rightarrow> nat" where
  "get_head_count h key = length (filter (\<lambda>p. fst p = key) h)"

definition get_head_count_all :: "heads \<Rightarrow> nat" where
  "get_head_count_all h = length h"

definition head_line :: "string \<times> string \<Rightarrow> string" where
  "head_line p = fst p @ HEAD_SPLIT @ snd p @ CRLF"

definition head_string :: "platform \<Rightarrow> heads \<Rightarrow> string" where
  "head_string P h = concat (map head_line (umm_iter P h))"

definition merge_one :: "bool \<Rightarrow> heads \<Rightarrow> string \<times> string \<Rightarrow> heads" where
  "merge_one bcoverage h p =
     (if get_head_count h (fst p) \<noteq> 0
      then if bcoverage then add_head (del_head h (fst p)) (fst p) (snd p) else h
      else add_head h (fst p) (snd p))"

text \<open>\<open>other\<close> is None for a null pointer.\<close>

definition merge :: "platform \<Rightarrow> heads \<Rightarrow> heads option \<Rightarrow> bool \<Rightarrow> heads" where
  "merge P h other bcoverage =
     (case other of None \<Rightarrow> h | Some ps \<Rightarrow> foldl (merge_one bcoverage) h (umm_iter P ps))"

subsection \<open>Byte ranges\<close>

text \<open>
  The two ends of \<open>r = split(.., "-")\<close>, read into \<open>rg\<close>; False when a number does not
  parse, with what was assigned before the exception kept.
\<close>

definition range_ends :: "string list \<Rightarrow> HttpRange \<Rightarrow> bool \<times> HttpRange" where
  "range_ends r rg =
     (let (ok, rg) =
        (if length (r ! 0) = 0 then (True, rg\<lparr>use_start_endpoint := True\<rparr>)
         else let rg = rg\<lparr>use_start_endpoint := False\<rparr>
              in case stoull (r ! 0) of
                   None \<Rightarrow> (False, rg)
                 | Some v \<Rightarrow> (True, rg\<lparr>rg_start := v\<rparr>))
      in if \<not> ok then (False, rg)
         else if 2 \<le> length r
         then if length (r ! 1) = 0 then (True, rg\<lparr>use_end_endpoint := True\<rparr>)
              else let rg = rg\<lparr>use_end_endpoint := False\<rparr>
                   in case stoull (r ! 1) of
                        None \<Rightarrow> (False, rg)
                      | Some v \<Rightarrow> (True, rg\<lparr>rg_end := v\<rparr>)
         else (True, rg))"

definition get_range :: "platform \<Rightarrow> heads \<Rightarrow> HttpRange \<Rightarrow> bool \<times> HttpRange" where
  "get_range P h rg =
     (let src = get_head P h HTTP_RANGE []
      in if src = [] then (False, rg)
         else let bv = split src ''=''
              in if length bv \<noteq> 2 \<or> find0 HTTP_RANGE_BYTE (bv ! 0) = None then (False, rg)
                 else let vec = split (bv ! 1) '';''
                      in range_ends (split (vec ! 0) ''-'') rg)"

definition set_range :: "heads \<Rightarrow> HttpRange \<Rightarrow> bool \<times> heads" where
  "set_range h rg =
     (let start = (if use_start_endpoint rg then 0 else rg_start rg);
          tmp = (if use_end_endpoint rg
                 then HTTP_RANGE_BYTE @ ''='' @ to_string start @ ''-''
                 else HTTP_RANGE_BYTE @ ''='' @ to_string start @ ''-'' @ to_string (rg_end rg))
      in if 32 \<le> length tmp then (False, h)
         else (True, add_head (del_head h HTTP_RANGE) HTTP_RANGE tmp))"

definition get_content_range :: "platform \<Rightarrow> heads \<Rightarrow> HttpRange \<Rightarrow> bool \<times> HttpRange" where
  "get_content_range P h rg =
     (let src = get_head P h HTTP_CONTENT_RANGE []
      in if src = [] then (False, rg)
         else let bv = split src '' ''
              in if length bv \<noteq> 2 \<or> find0 HTTP_RANGE_BYTE (bv ! 0) = None then (False, rg)
                 else let vec = split (bv ! 1) ''/''
                      in if length vec = 2
                         then let (ok, rg) = range_ends (split (vec ! 0) ''-'') rg
                              in if \<not> ok then (False, rg)
                                 else case stoull (vec ! 1) of
                                        None \<Rightarrow> (False, rg)
                                      | Some t \<Rightarrow> (True, rg\<lparr>rg_total := t\<rparr>)
                         else (False, rg))"

definition set_content_range :: "heads \<Rightarrow> HttpRange \<Rightarrow> bool \<times> heads" where
  "set_content_range h rg =
     (let tmp = HTTP_RANGE_BYTE @ '' '' @ to_string (section_start rg) @ ''-'' @
            to_string (section_end rg) @ ''/'' @ to_string (rg_total rg)
      in if 256 \<le> length tmp then (False, h)
         else (True, add_head (del_head h HTTP_CONTENT_RANGE) HTTP_CONTENT_RANGE tmp))"

subsection \<open>Content type and connection\<close>

definition set_content_type :: "heads \<Rightarrow> string \<Rightarrow> bool \<times> heads" where
  "set_content_type h value = (True, add_head h HTTP_CT value)"

definition set_content_type_by_ext :: "heads \<Rightarrow> string \<Rightarrow> bool \<times> heads" where
  "set_content_type_by_ext h ext =
     (let ct = http_mime ext [] in if ct = [] then (False, h) else set_content_type h ct)"

definition set_content_type_by_uri :: "heads \<Rightarrow> string \<Rightarrow> bool \<times> heads" where
  "set_content_type_by_uri h uri = set_content_type_by_ext h (get_ext uri)"

definition get_content_type :: "platform \<Rightarrow> heads \<Rightarrow> string" where
  "get_content_type P h = get_head P h HTTP_CT []"

definition get_keep_alive :: "platform \<Rightarrow> heads \<Rightarrow> bool" where
  "get_keep_alive P h =
     (if get_head P h HTTP_CONN HTTP_CONN_CLOSE = HTTP_CONN_CLOSE then False else True)"

definition set_keep_alive :: "heads \<Rightarrow> bool \<Rightarrow> heads" where
  "set_keep_alive h is_alive =
     add_head (del_head h HTTP_CONN) HTTP_CONN
       (if is_alive then HTTP_CONN_KEEPALIVE else HTTP_CONN_CLOSE)"

subsection \<open>Laws of the accessors\<close>

lemma get_head_group:
  "get_head P h k nf = (case umm_group P h k of [] \<Rightarrow> nf | p # _ \<Rightarrow> snd p)"
proof (cases "umm_group P h k")
  case Nil
  then have "umm_find P h k = []" by (simp add: umm_find_Nil_iff umm_group_Nil_iff)
  with Nil show ?thesis by (simp add: get_head_def)
next
  case (Cons p g)
  then have "umm_find P h k \<noteq> []" using umm_group_Nil_iff [of P h k] by (simp add: umm_find_Nil_iff)
  then obtain q r where f: "umm_find P h k = q # r" by (cases "umm_find P h k") auto
  with umm_find_hd [OF f] Cons show ?thesis by (simp add: get_head_def)
qed

lemma umm_group_cong:
  "filter (\<lambda>p. fst p = k) h = filter (\<lambda>p. fst p = k) h' \<Longrightarrow> umm_group P h k = umm_group P h' k"
  by (simp add: umm_group_def)

lemma get_head_cong:
  "filter (\<lambda>p. fst p = k) h = filter (\<lambda>p. fst p = k) h' \<Longrightarrow> get_head P h k nf = get_head P h' k nf"
  by (simp add: get_head_group umm_group_cong [of k h h'])

lemma filter_del_head:
  "filter (\<lambda>p. fst p = k) (del_head h key) = (if k = key then [] else filter (\<lambda>p. fst p = k) h)"
  by (auto simp: del_head_def filter_empty_conv intro!: filter_cong)

lemma filter_add_head:
  "filter (\<lambda>p. fst p = k) (add_head h key v) =
     filter (\<lambda>p. fst p = k) h @ (if k = key then [(key, v)] else [])"
  by (simp add: add_head_def)

text \<open>The idiom of every setter: delete, then add.\<close>

lemma get_head_replace [hnw_simps]:
  "get_head P (add_head (del_head h key) key v) k nf = (if k = key then v else get_head P h k nf)"
proof (cases "k = key")
  case True
  have "umm_group P (add_head (del_head h key) key v) key = [(key, v)]"
    by (simp add: umm_group_def filter_add_head filter_del_head Let_def)
  with True show ?thesis by (simp add: get_head_group)
next
  case False
  then have "filter (\<lambda>p. fst p = k) (add_head (del_head h key) key v) = filter (\<lambda>p. fst p = k) h"
    by (simp add: filter_add_head filter_del_head)
  from get_head_cong [OF this, of P nf] False show ?thesis by simp
qed

lemma get_head_del [hnw_simps]:
  "get_head P (del_head h key) k nf = (if k = key then nf else get_head P h k nf)"
proof (cases "k = key")
  case True
  then show ?thesis by (simp add: get_head_group umm_group_def filter_del_head Let_def)
next
  case False
  then have "filter (\<lambda>p. fst p = k) (del_head h key) = filter (\<lambda>p. fst p = k) h"
    by (simp add: filter_del_head)
  from get_head_cong [OF this, of P nf] False show ?thesis by simp
qed

lemma get_head_add_other:
  "k \<noteq> key \<Longrightarrow> get_head P (add_head h key v) k nf = get_head P h k nf"
  by (rule get_head_cong) (simp add: filter_add_head)

lemma get_head_add_fresh:
  "get_head_count h key = 0 \<Longrightarrow> get_head P (add_head h key v) key nf = v"
  by (simp add: get_head_group umm_group_def filter_add_head get_head_count_def Let_def)

lemma get_head_count_add [hnw_simps]:
  "get_head_count (add_head h key v) k = get_head_count h k + (if k = key then 1 else 0)"
  by (simp add: get_head_count_def filter_add_head)

lemma get_head_count_del [hnw_simps]:
  "get_head_count (del_head h key) k = (if k = key then 0 else get_head_count h k)"
  by (simp add: get_head_count_def filter_del_head)

lemma get_head_count_zero: "get_head_count h k = 0 \<longleftrightarrow> k \<notin> fst ` set h"
  by (auto simp: get_head_count_def filter_empty_conv)

lemma get_head_notfind: "get_head_count h k = 0 \<Longrightarrow> get_head P h k nf = nf"
  by (simp add: get_head_group umm_group_def get_head_count_def Let_def)

text \<open>get_heads starts with the values of the key, but does not stop there.\<close>

lemma get_heads_prefix:
  "\<exists>rest. get_heads P h k = map snd (umm_group P h k) @ rest"
proof (cases "k \<in> fst ` set h")
  case True
  from umm_find_group [OF this, of P] show ?thesis by (auto simp: get_heads_def)
next
  case False
  then have "umm_group P h k = []" by (simp only: umm_group_Nil_iff not_False_eq_True)
  then show ?thesis by simp
qed

lemma get_heads_absent: "get_head_count h k = 0 \<Longrightarrow> get_heads P h k = []"
  by (simp add: get_heads_def umm_find_Nil_iff get_head_count_zero)

text \<open>\<open>merge_one\<close> seen through one key.\<close>

lemma filter_merge_one_cover:
  "filter (\<lambda>p. fst p = k) (merge_one True h q) =
     (if fst q = k then [q] else filter (\<lambda>p. fst p = k) h)"
  by (cases q) (auto simp: merge_one_def filter_add_head filter_del_head get_head_count_def)

lemma filter_merge_cover:
  "filter (\<lambda>p. fst p = k) (foldl (merge_one True) h ps) =
     (if filter (\<lambda>p. fst p = k) ps = [] then filter (\<lambda>p. fst p = k) h
      else [last (filter (\<lambda>p. fst p = k) ps)])"
proof (induction ps arbitrary: h)
  case Nil
  then show ?case by simp
next
  case (Cons q ps)
  show ?case using Cons.IH [of "merge_one True h q"] by (auto simp: filter_merge_one_cover)
qed

lemma filter_merge_one_keep:
  "filter (\<lambda>p. fst p = k) (merge_one False h q) =
     (if fst q = k \<and> filter (\<lambda>p. fst p = k) h = [] then [q] else filter (\<lambda>p. fst p = k) h)"
  by (cases q) (auto simp: merge_one_def filter_add_head get_head_count_def)

lemma filter_merge_keep:
  "filter (\<lambda>p. fst p = k) (foldl (merge_one False) h ps) =
     (if filter (\<lambda>p. fst p = k) h \<noteq> [] then filter (\<lambda>p. fst p = k) h
      else take 1 (filter (\<lambda>p. fst p = k) ps))"
proof (induction ps arbitrary: h)
  case Nil
  then show ?case by simp
next
  case (Cons q ps)
  show ?case using Cons.IH [of "merge_one False h q"] by (auto simp: filter_merge_one_keep)
qed

subsection \<open>Properties\<close>

lemma set_range_text:
  "fst (set_range h rg) \<longleftrightarrow>
     6 + length (to_string (section_start rg)) + 1 +
       (if use_end_endpoint rg then 0 else length (to_string (rg_end rg))) < 32"
  by (auto simp: set_range_def section_start_def HTTP_RANGE_BYTE_def Let_def)

lemma range_ends_print:
  "range_ends [to_string a, to_string b] rg =
     (True, rg\<lparr>use_start_endpoint := False, rg_start := a, use_end_endpoint := False, rg_end := b\<rparr>)"
  "range_ends [to_string a, []] rg =
     (True, rg\<lparr>use_start_endpoint := False, rg_start := a, use_end_endpoint := True\<rparr>)"
  by (simp_all add: range_ends_def)

lemma split_dash:
  "split (to_string a @ CHR ''-'' # s) ''-'' = to_string a # split s ''-''"
  "split (to_string a) ''-'' = [to_string a]" "split [] ''-'' = [[]]"
  by (simp_all add: split_char_append split_char_single to_string_notin)

lemma HTTP_RANGE_BYTE_notin:
  "CHR ''='' \<notin> set HTTP_RANGE_BYTE" "CHR '' '' \<notin> set HTTP_RANGE_BYTE"
  by (simp_all add: HTTP_RANGE_BYTE_def)

lemma bytes_eq_split:
  "CHR ''='' \<notin> set s \<Longrightarrow> split (HTTP_RANGE_BYTE @ CHR ''='' # s) ''='' = [HTTP_RANGE_BYTE, s]"
  "CHR '' '' \<notin> set s \<Longrightarrow> split (HTTP_RANGE_BYTE @ CHR '' '' # s) '' '' = [HTTP_RANGE_BYTE, s]"
  by (simp_all only: split_char_append split_char_single HTTP_RANGE_BYTE_notin not_False_eq_True)

lemma find0_bytes: "find0 HTTP_RANGE_BYTE HTTP_RANGE_BYTE = Some 0"
  by (simp add: HTTP_RANGE_BYTE_def)

lemma get_range_text:
  assumes "get_head P h HTTP_RANGE [] = HTTP_RANGE_BYTE @ CHR ''='' # s"
    and "CHR ''='' \<notin> set s" and "CHR '';'' \<notin> set s"
  shows "get_range P h rg = range_ends (split s ''-'') rg"
  using assms
  by (simp add: get_range_def bytes_eq_split find0_bytes split_char_single Let_def)

text \<open>
  C26: A range that set_range accepts is read back by get_range: the start as a number (an
  open start is written as 0), the end as it was, an open end as open. Whatever the
  iteration order of the header map and whatever Range fields it held before.
\<close>

theorem set_range_get_range:
  assumes "set_range h rg = (True, h')"
  shows "get_range P h' rg0 =
    (True, if use_end_endpoint rg
           then rg0\<lparr>use_start_endpoint := False, rg_start := section_start rg,
                  use_end_endpoint := True\<rparr>
           else rg0\<lparr>use_start_endpoint := False, rg_start := section_start rg,
                  use_end_endpoint := False, rg_end := rg_end rg\<rparr>)"
proof -
  let ?s = "to_string (section_start rg) @
      CHR ''-'' # (if use_end_endpoint rg then [] else to_string (rg_end rg))"
  have "h' = add_head (del_head h HTTP_RANGE) HTTP_RANGE (HTTP_RANGE_BYTE @ CHR ''='' # ?s)"
    using assms by (auto simp: set_range_def section_start_def Let_def split: if_splits)
  then have "get_head P h' HTTP_RANGE [] = HTTP_RANGE_BYTE @ CHR ''='' # ?s"
    by (simp add: get_head_replace)
  then have "get_range P h' rg0 = range_ends (split ?s ''-'') rg0"
    by (rule get_range_text) (auto simp: to_string_notin)
  then show ?thesis by (simp add: split_dash range_ends_print)
qed

theorem set_range_get_range_witness:
  "\<exists>h'. set_range [] \<lparr>use_start_endpoint = False, use_end_endpoint = False, rg_start = 5,
       rg_end = 17, rg_total = 0\<rparr> = (True, h') \<and>
     snd (get_range platform0 h' HttpRange_default) = \<lparr>use_start_endpoint = False,
       use_end_endpoint = False, rg_start = 5, rg_end = 17, rg_total = 0\<rparr>"
proof -
  let ?rg = "\<lparr>use_start_endpoint = False, use_end_endpoint = False, rg_start = 5,
       rg_end = 17, rg_total = 0\<rparr> :: HttpRange"
  have "fst (set_range [] ?rg)"
    unfolding set_range_text
    by (simp add: section_start_def to_string_def show_nat.simps [of 17] show_nat.simps [of 5]
        show_nat.simps [of "Suc 0"])
  then obtain h' where h': "set_range [] ?rg = (True, h')" by (cases "set_range [] ?rg") auto
  from set_range_get_range [OF h', of platform0 HttpRange_default] h' show ?thesis
    by (auto simp: HttpRange_default_def section_start_def)
qed

lemma content_range_text:
  "fst (set_content_range h rg) \<and>
   get_content_range P (snd (set_content_range h rg)) rg0 =
     (True, rg0\<lparr>use_start_endpoint := False, use_end_endpoint := False,
        rg_start := section_start rg, rg_end := section_end rg, rg_total := rg_total rg\<rparr>) \<and>
   get_head_count (snd (set_content_range h rg)) HTTP_CONTENT_RANGE = 1"
proof -
  let ?s = "to_string (section_start rg) @ CHR ''-'' # to_string (section_end rg) @
      CHR ''/'' # to_string (rg_total rg)"
  let ?h = "add_head (del_head h HTTP_CONTENT_RANGE) HTTP_CONTENT_RANGE
      (HTTP_RANGE_BYTE @ CHR '' '' # ?s)"
  have "length (HTTP_RANGE_BYTE @ CHR '' '' # ?s) < 256"
    using to_string_length [of "section_start rg"] to_string_length [of "section_end rg"]
      to_string_length [of "rg_total rg"] by (simp add: HTTP_RANGE_BYTE_def)
  then have set: "set_content_range h rg = (True, ?h)"
    by (simp add: set_content_range_def Let_def)
  have slash: "split ?s ''/'' =
      [to_string (section_start rg) @ CHR ''-'' # to_string (section_end rg), to_string (rg_total rg)]"
    using split_char_append [of "CHR ''/''" "to_string (section_start rg) @
        CHR ''-'' # to_string (section_end rg)" "to_string (rg_total rg)"]
    by (simp add: to_string_notin split_char_single)
  have sp: "split (HTTP_RANGE_BYTE @ CHR '' '' # ?s) '' '' = [HTTP_RANGE_BYTE, ?s]"
    by (rule bytes_eq_split(2)) (simp add: to_string_notin)
  have "get_content_range P ?h rg0 =
     (True, rg0\<lparr>use_start_endpoint := False, rg_start := section_start rg,
        use_end_endpoint := False, rg_end := section_end rg, rg_total := rg_total rg\<rparr>)"
    unfolding get_content_range_def get_head_replace
    by (simp add: sp slash find0_bytes split_dash range_ends_print Let_def)
  with set show ?thesis by (simp add: get_head_count_add get_head_count_del)
qed

lemma content_range_read_back:
  "get_content_range P (snd (set_content_range h rg)) rg0 =
     (True, rg0\<lparr>use_start_endpoint := False, use_end_endpoint := False,
        rg_start := section_start rg, rg_end := section_end rg, rg_total := rg_total rg\<rparr>)"
  using content_range_text [of h rg P rg0] by blast

text \<open>
  A byte range of a resource that set_content_range writes is read back by
  get_content_range with the two effective ends and the total size; the setter never fails
  and drops every earlier Content-Range field.
\<close>

theorem set_content_range_get_content_range:
  "fst (set_content_range h rg) \<and>
   get_content_range P (snd (set_content_range h rg)) rg0 =
     (True, rg0\<lparr>use_start_endpoint := False, use_end_endpoint := False,
        rg_start := section_start rg, rg_end := section_end rg, rg_total := rg_total rg\<rparr>) \<and>
   get_head_count (snd (set_content_range h rg)) HTTP_CONTENT_RANGE = 1"
  by (rule content_range_text)

text \<open>
  What merge leaves under every key. With bcoverage a key of the other header takes
  the last value the iteration over it yields, and every other key keeps its value; without,
  a key this header already has keeps its value and a new one takes the first.
\<close>

theorem merge_get_head:
  "get_head P (merge P h (Some other) cov) key nf =
     (if cov
      then if key \<in> fst ` set other then snd (last (umm_group P other key))
           else get_head P h key nf
      else if key \<in> fst ` set h then get_head P h key nf
           else if key \<in> fst ` set other then snd (hd (umm_group P other key)) else nf)"
proof (cases cov)
  case True
  have f: "filter (\<lambda>p. fst p = key) (merge P h (Some other) True) =
     (if umm_group P other key = [] then filter (\<lambda>p. fst p = key) h
      else [last (umm_group P other key)])"
    by (simp add: merge_def filter_merge_cover filter_umm_iter)
  show ?thesis
  proof (cases "key \<in> fst ` set other")
    case k: True
    then have "umm_group P other key \<noteq> []" using umm_group_Nil_iff [of P other key] by simp
    with f True k show ?thesis
      by (simp add: get_head_group umm_group_def [of P "merge P h (Some other) True"] Let_def)
  next
    case False
    then have "umm_group P other key = []" by (simp only: umm_group_Nil_iff not_False_eq_True)
    with f have "filter (\<lambda>p. fst p = key) (merge P h (Some other) True) =
        filter (\<lambda>p. fst p = key) h" by simp
    from get_head_cong [OF this, of P nf] True False show ?thesis by simp
  qed
next
  case False
  have f: "filter (\<lambda>p. fst p = key) (merge P h (Some other) False) =
     (if filter (\<lambda>p. fst p = key) h \<noteq> [] then filter (\<lambda>p. fst p = key) h
      else take 1 (umm_group P other key))"
    by (simp add: merge_def filter_merge_keep filter_umm_iter)
  show ?thesis
  proof (cases "key \<in> fst ` set h")
    case k: True
    then have "filter (\<lambda>p. fst p = key) h \<noteq> []" by (force simp: filter_empty_conv)
    with f have "filter (\<lambda>p. fst p = key) (merge P h (Some other) False) =
        filter (\<lambda>p. fst p = key) h" by simp
    from get_head_cong [OF this, of P nf] False k show ?thesis by simp
  next
    case k: False
    then have "filter (\<lambda>p. fst p = key) h = []" by (force simp: filter_empty_conv)
    with f have g: "filter (\<lambda>p. fst p = key) (merge P h (Some other) False) =
        take 1 (umm_group P other key)" by simp
    show ?thesis
    proof (cases "umm_group P other key")
      case Nil
      then have "key \<notin> fst ` set other" using umm_group_Nil_iff [of P other key] by blast
      with g Nil False k show ?thesis
        by (simp add: get_head_group umm_group_def [of P "merge P h (Some other) False"] Let_def)
    next
      case (Cons p r)
      then have "key \<in> fst ` set other" using umm_group_Nil_iff [of P other key] by simp
      with g Cons False k show ?thesis
        by (simp add: get_head_group umm_group_def [of P "merge P h (Some other) False"] Let_def)
    qed
  qed
qed

text \<open>
  get_heads does not stop at the end of the key's elements: with two fields of different
  keys, on every platform one of the two lookups returns the value of both.
\<close>

theorem get_heads_leaks:
  "a = b \<or> get_heads P [(a, x), (b, y)] a = [x, y] \<or> get_heads P [(a, x), (b, y)] b = [y, x]"
proof (cases "a = b")
  case False
  let ?m = "[(a, x), (b, y)]"
  have g: "umm_group P ?m a = [(a, x)]" "umm_group P ?m b = [(b, y)]"
    using False by (simp_all add: umm_group_def Let_def)
  have "umm_iter P ?m = [(a, x), (b, y)] \<or> umm_iter P ?m = [(b, y), (a, x)]"
    using False g by (simp add: umm_iter_def)
  then show ?thesis using False by (auto simp: get_heads_def umm_find_def)
qed simp

end
