(* ===== verification/Std_Map.thy ===== *)
theory Std_Map
  imports Hnw_Prelude
begin

section \<open>std::map\<close>

text \<open>
  An ordered map as the code uses it (\<^verbatim>\<open>std::map\<close> of \<^verbatim>\<open>Src/\<close>): the list of its entries
  in increasing key order, which is the order an iteration visits them in. \<open>omap_get\<close> is
  \<^verbatim>\<open>find\<close>, \<open>omap_put\<close> is \<^verbatim>\<open>m[k] = v\<close>, \<open>omap_del\<close> is \<^verbatim>\<open>erase(k)\<close>.
\<close>

type_synonym ('k, 'v) omap = "('k \<times> 'v) list"

definition omap_ok :: "('k::linorder, 'v) omap \<Rightarrow> bool" where
  "omap_ok m \<longleftrightarrow> sorted_wrt (<) (map fst m)"

definition omap_get :: "('k, 'v) omap \<Rightarrow> 'k \<Rightarrow> 'v option" where
  "omap_get m k = map_of m k"

fun omap_put :: "('k::linorder, 'v) omap \<Rightarrow> 'k \<Rightarrow> 'v \<Rightarrow> ('k, 'v) omap" where
  "omap_put [] k v = [(k, v)]"
| "omap_put (p # m) k v =
     (if k < fst p then (k, v) # p # m
      else if k = fst p then (k, v) # m
      else p # omap_put m k v)"

definition omap_del :: "('k, 'v) omap \<Rightarrow> 'k \<Rightarrow> ('k, 'v) omap" where
  "omap_del m k = filter (\<lambda>p. fst p \<noteq> k) m"

lemma omap_ok_Nil [simp]: "omap_ok []"
  by (simp add: omap_ok_def)

lemma omap_get_Nil [simp]: "omap_get [] k = None"
  by (simp add: omap_get_def)

lemma omap_put_keys: "fst ` set (omap_put m k v) = insert k (fst ` set m)"
  by (induction m) auto

lemma omap_put_ok: "omap_ok m \<Longrightarrow> omap_ok (omap_put m k v)"
proof (induction m)
  case Nil
  then show ?case by (simp add: omap_ok_def)
next
  case (Cons p m)
  have tl: "omap_ok m" using Cons.prems by (simp add: omap_ok_def)
  have hd: "\<forall>x \<in> fst ` set m. fst p < x" using Cons.prems by (simp add: omap_ok_def)
  consider "k < fst p" | "k = fst p" | "fst p < k" by (meson linorder_cases)
  then show ?case
  proof cases
    case 1
    with Cons.prems show ?thesis by (auto simp: omap_ok_def)
  next
    case 2
    with Cons.prems show ?thesis by (auto simp: omap_ok_def)
  next
    case 3
    have "\<forall>x \<in> fst ` set (omap_put m k v). fst p < x"
      using hd 3 by (simp add: omap_put_keys)
    with Cons.IH [OF tl] 3 show ?thesis by (auto simp: omap_ok_def)
  qed
qed

lemma omap_get_put: "omap_get (omap_put m k v) k' = (if k' = k then Some v else omap_get m k')"
  by (induction m) (auto simp: omap_get_def)

lemma omap_get_put_ok: "omap_ok m \<Longrightarrow>
    omap_get (omap_put m k v) k' = (if k' = k then Some v else omap_get m k')"
  by (rule omap_get_put)

lemma omap_get_del: "omap_get (omap_del m k) k' = (if k' = k then None else omap_get m k')"
  by (induction m) (auto simp: omap_get_def omap_del_def)

lemma omap_del_ok: "omap_ok m \<Longrightarrow> omap_ok (omap_del m k)"
  unfolding omap_ok_def omap_del_def
  by (induction m) auto

interpretation om: keyed_store omap_get omap_put omap_del omap_ok
  by unfold_locales (simp_all add: omap_get_put omap_get_del omap_put_ok omap_del_ok)

text \<open>Maps with the same lookups are the same list of entries.\<close>

lemma omap_eqI:
  assumes "omap_ok m" and "omap_ok n" and "omap_get m = omap_get n"
  shows "m = n"
proof -
  have dm: "distinct (map fst m)" "sorted (map fst m)" and dn: "distinct (map fst n)" "sorted (map fst n)"
    using assms(1,2) unfolding omap_ok_def by (auto simp: strict_sorted_iff)
  have mo: "map_of m = map_of n" using assms(3) by (auto simp: omap_get_def fun_eq_iff)
  then have "set m = set n" using dm(1) dn(1) by (metis map_of_inject_set)
  then have k: "map fst m = map fst n"
    using dm dn by (metis list.set_map sorted_distinct_set_unique)
  show ?thesis
  proof (rule nth_equalityI)
    show l: "length m = length n" using k by (metis length_map)
    fix i assume i: "i < length m"
    have f: "fst (m ! i) = fst (n ! i)" using k i l by (metis nth_map)
    have "map_of m (fst (m ! i)) = Some (snd (m ! i))"
      using dm(1) i by (simp add: map_of_is_SomeI)
    moreover have "map_of n (fst (n ! i)) = Some (snd (n ! i))"
      using dn(1) i l by (simp add: map_of_is_SomeI)
    ultimately show "m ! i = n ! i" using mo f by (simp add: prod_eq_iff)
  qed
qed

lemma omap_put_append:
  assumes "omap_ok (m @ [(k, v)])"
  shows "omap_put m k v = m @ [(k, v)]"
  using assms
proof (induction m)
  case Nil
  then show ?case by simp
next
  case (Cons p m)
  have "fst p < k" using Cons.prems by (auto simp: omap_ok_def sorted_wrt_append)
  moreover have "omap_ok (m @ [(k, v)])" using Cons.prems by (simp add: omap_ok_def)
  ultimately show ?case using Cons.IH by (auto simp: not_less_iff_gr_or_eq)
qed

text \<open>Putting the entries of a map one by one into the empty map rebuilds it.\<close>

lemma omap_put_all:
  "omap_ok (m @ n) \<Longrightarrow> foldl (\<lambda>m p. omap_put m (fst p) (snd p)) m n = m @ n"
proof (induction n arbitrary: m)
  case Nil
  then show ?case by simp
next
  case (Cons p n)
  have "omap_ok (m @ [p])" using Cons.prems by (simp add: omap_ok_def sorted_wrt_append)
  then have "omap_put m (fst p) (snd p) = m @ [p]" using omap_put_append [of m "fst p" "snd p"] by simp
  with Cons.IH [of "m @ [p]"] Cons.prems show ?case by simp
qed

end
