(* ===== verification/Http_Auth.thy ===== *)
theory Http_Auth
  imports Http_Head Std_Map
begin

section \<open>Cookies and authentication: HeadImpl\<close>

text \<open>
  The second half of \<^verbatim>\<open>Src/http/struct/http_head_impl.hpp\<close>: cookies on both sides, and the
  Basic and Digest headers with their check.
\<close>

subsection \<open>Cookies of a request\<close>

definition cookie_one :: "string \<Rightarrow> HnwCookie" where
  "cookie_one kv =
     (let k_v = split kv ''=''; cookie = HnwCookie_default\<lparr>ck_key := k_v ! 0\<rparr>
      in if 2 \<le> length k_v then cookie\<lparr>ck_value := k_v ! 1\<rparr> else cookie)"

definition cookie_from_string :: "string \<Rightarrow> HnwCookie list \<Rightarrow> HnwCookie list" where
  "cookie_from_string str cookies = cookies @ map cookie_one (split str '';'')"

definition cookie_to_string :: "HnwCookie list \<Rightarrow> string" where
  "cookie_to_string cookies =
     concat (map (\<lambda>c. ck_key c @ ''='' @ ck_value c @ '';'') cookies)"

definition get_cookies :: "platform \<Rightarrow> heads \<Rightarrow> HnwCookie list" where
  "get_cookies P h =
     concat (map (\<lambda>str. cookie_from_string str []) (get_heads P h HTTP_COOKIE))"

definition set_cookie :: "platform \<Rightarrow> heads \<Rightarrow> HnwCookie \<Rightarrow> bool \<times> heads" where
  "set_cookie P h cookie =
     (let data = get_cookies P h @ [cookie]
      in (True, add_head (del_head h HTTP_COOKIE) HTTP_COOKIE (cookie_to_string data)))"

text \<open>The result is the flag and the caller's \<open>out\<close>.\<close>

definition get_cookie :: "platform \<Rightarrow> heads \<Rightarrow> string \<Rightarrow> HnwCookie \<Rightarrow> bool \<times> HnwCookie" where
  "get_cookie P h name out =
     (case find (\<lambda>d. ck_key d = name) (get_cookies P h) of
        Some d \<Rightarrow> (True, d)
      | None \<Rightarrow> (False, out))"

definition del_cookie :: "platform \<Rightarrow> heads \<Rightarrow> string \<Rightarrow> bool \<times> heads" where
  "del_cookie P h name =
     (let data = filter (\<lambda>d. ck_key d \<noteq> name) (get_cookies P h)
      in (True, add_head (del_head h HTTP_COOKIE) HTTP_COOKIE (cookie_to_string data)))"

subsection \<open>Cookies set by a response\<close>

text \<open>
  One attribute after the first; \<open>k_v[1]\<close> of an attribute without a value is a read past the
  end of a vector, the None here.
\<close>

definition set_cookie_attr :: "string list \<Rightarrow> HnwSetCookie \<Rightarrow> HnwSetCookie option" where
  "set_cookie_attr k_v cookies =
     (let v = (if 2 \<le> length k_v then Some (k_v ! 1) else None)
      in if k_v ! 0 = ''Expires'' then map_option (\<lambda>x. cookies\<lparr>sc_expires := x\<rparr>) v
         else if k_v ! 0 = ''Path'' then map_option (\<lambda>x. cookies\<lparr>sc_path := x\<rparr>) v
         else if k_v ! 0 = ''Domain'' then map_option (\<lambda>x. cookies\<lparr>sc_domain := x\<rparr>) v
         else if k_v ! 0 = ''HttpOnly'' then Some (cookies\<lparr>sc_is_secure := False\<rparr>)
         else Some cookies)"

fun set_cookie_attrs :: "string list \<Rightarrow> HnwSetCookie \<Rightarrow> HnwSetCookie option" where
  "set_cookie_attrs [] cookies = Some cookies"
| "set_cookie_attrs (kv # kvs) cookies =
     (case set_cookie_attr (split kv ''='') cookies of
        None \<Rightarrow> None
      | Some c \<Rightarrow> set_cookie_attrs kvs c)"

definition set_cookie_from_string :: "string \<Rightarrow> HnwSetCookie \<Rightarrow> HnwSetCookie option" where
  "set_cookie_from_string str cookies =
     (let kvs = split str '';''; k_v = split (hd kvs) ''='';
          cookies = cookies\<lparr>sc_value := (sc_value cookies)\<lparr>ck_key := k_v ! 0\<rparr>\<rparr>;
          cookies = (if 2 \<le> length k_v
                     then cookies\<lparr>sc_value := (sc_value cookies)\<lparr>ck_value := k_v ! 1\<rparr>\<rparr>
                     else cookies)
      in set_cookie_attrs (tl kvs) cookies)"

definition set_cookie_to_string :: "HnwSetCookie \<Rightarrow> string" where
  "set_cookie_to_string cookies =
     (let res = ck_key (sc_value cookies) @ ''='' @ ck_value (sc_value cookies);
          res = (if sc_domain cookies \<noteq> [] then res @ ''; Domain='' @ sc_domain cookies else res);
          res = (if sc_path cookies \<noteq> [] then res @ ''; Path='' @ sc_path cookies else res);
          res = (if sc_expires cookies \<noteq> [] then res @ ''; Expires='' @ sc_expires cookies else res);
          res = (if \<not> sc_is_secure cookies then res @ ''; HttpOnly'' else res)
      in res)"

definition set_setcookie :: "heads \<Rightarrow> HnwSetCookie \<Rightarrow> bool \<times> heads" where
  "set_setcookie h cookie = (True, add_head h HTTP_SET_COOKIE (set_cookie_to_string cookie))"

fun setcookies_of :: "string list \<Rightarrow> HnwSetCookie list option" where
  "setcookies_of [] = Some []"
| "setcookies_of (str # strs) =
     (case set_cookie_from_string str HnwSetCookie_default of
        None \<Rightarrow> None
      | Some s \<Rightarrow> map_option (Cons s) (setcookies_of strs))"

definition get_setcookies :: "platform \<Rightarrow> heads \<Rightarrow> HnwSetCookie list option" where
  "get_setcookies P h = setcookies_of (get_heads P h HTTP_SET_COOKIE)"

fun find_setcookie :: "string list \<Rightarrow> string \<Rightarrow> HnwSetCookie \<Rightarrow> (bool \<times> HnwSetCookie) option" where
  "find_setcookie [] name out = Some (False, out)"
| "find_setcookie (str # strs) name out =
     (case set_cookie_from_string str HnwSetCookie_default of
        None \<Rightarrow> None
      | Some s \<Rightarrow>
          if ck_key (sc_value s) = name then Some (True, s)
          else find_setcookie strs name out)"

definition get_setcookie ::
  "platform \<Rightarrow> heads \<Rightarrow> string \<Rightarrow> HnwSetCookie \<Rightarrow> (bool \<times> HnwSetCookie) option" where
  "get_setcookie P h name out = find_setcookie (get_heads P h HTTP_SET_COOKIE) name out"

text \<open>
  \<open>p\<close> is the iterator as the rest of the map from it on. Nothing in the body of the loop
  moves it: an element that does not match is tested again, and the loop never ends.
\<close>

partial_function (option) del_setcookie_loop ::
  "platform \<Rightarrow> heads \<Rightarrow> string \<Rightarrow> heads \<Rightarrow> (bool \<times> heads) option" where
  "del_setcookie_loop P h name p =
     (case p of
        [] \<Rightarrow> Some (False, h)
      | (_, str) # _ \<Rightarrow>
          (case set_cookie_from_string str HnwSetCookie_default of
             None \<Rightarrow> None
           | Some s \<Rightarrow>
               if ck_key (sc_value s) = name
               then Some (True, umm_erase_found P h HTTP_SET_COOKIE)
               else del_setcookie_loop P h name p))"

definition del_setcookie :: "platform \<Rightarrow> heads \<Rightarrow> string \<Rightarrow> (bool \<times> heads) option" where
  "del_setcookie P h name = del_setcookie_loop P h name (umm_find P h HTTP_SET_COOKIE)"

subsection \<open>The key and value scanner\<close>

datatype SplitKeyValueStatus = Status_KEY | Status_VALUE | Status_STR

record kv_scan =
  kv_key :: string
  kv_value :: string
  kv_status :: SplitKeyValueStatus
  kv_map :: "(string, string) omap"

definition kv_init :: kv_scan where
  "kv_init = \<lparr>kv_key = [], kv_value = [], kv_status = Status_KEY, kv_map = []\<rparr>"

definition kv_put :: "kv_scan \<Rightarrow> (string, string) omap" where
  "kv_put st = omap_put (kv_map st) (trim (kv_key st)) (trim (kv_value st))"

definition quote :: "char \<Rightarrow> bool" where
  "quote c \<longleftrightarrow> c = CHR 0x22 \<or> c = CHR 0x27"

definition kv_step :: "char \<Rightarrow> kv_scan \<Rightarrow> char \<Rightarrow> kv_scan" where
  "kv_step link st c =
     (case kv_status st of
        Status_KEY \<Rightarrow>
          if c = CHR ''='' then st\<lparr>kv_status := Status_VALUE\<rparr>
          else st\<lparr>kv_key := kv_key st @ [c]\<rparr>
      | Status_VALUE \<Rightarrow>
          if quote c then st\<lparr>kv_status := Status_STR\<rparr>
          else if c = link
          then st\<lparr>kv_map := kv_put st, kv_key := [], kv_value := [], kv_status := Status_KEY\<rparr>
          else st\<lparr>kv_value := kv_value st @ [c]\<rparr>
      | Status_STR \<Rightarrow>
          if quote c then st\<lparr>kv_status := Status_VALUE\<rparr>
          else st\<lparr>kv_value := kv_value st @ [c]\<rparr>)"

definition split_ky :: "string \<Rightarrow> char \<Rightarrow> (string, string) omap" where
  "split_ky src link =
     (let st = foldl (kv_step link) kv_init src
      in if kv_key st \<noteq> [] then kv_put st else kv_map st)"

definition get_value_for_map :: "(string, string) omap \<Rightarrow> string \<Rightarrow> string \<Rightarrow> string" where
  "get_value_for_map m key default_value =
     (case omap_get m key of None \<Rightarrow> default_value | Some v \<Rightarrow> v)"

subsection \<open>WWW-Authenticate\<close>

definition dquote :: string where "dquote = [CHR 0x22]"

definition get_www_authenticate :: "platform \<Rightarrow> heads \<Rightarrow> HnwWWWAuthenticate" where
  "get_www_authenticate P h =
     (let auth = HnwWWWAuthenticate_default; str = get_head P h HTTP_WWW_AUTH []
      in if str = [] then HnwWWWAuthenticate_default
         else case find0 '' '' str of
                None \<Rightarrow> HnwWWWAuthenticate_default
              | Some p \<Rightarrow>
                  if length str \<le> p + 1 then HnwWWWAuthenticate_default
                  else
                    let auth_method = take p str; data = drop (p + 1) str;
                        m = split_ky data (CHR '','')
                    in if auth_method = ''Digest''
                       then auth\<lparr>wa_method := DigestAuth,
                              wa_realm := get_value_for_map m ''realm'' [],
                              wa_nonce := get_value_for_map m ''nonce'' [],
                              wa_opaque := get_value_for_map m ''opaque'' [],
                              wa_qop := get_value_for_map m ''qop'' []\<rparr>
                       else if auth_method = ''Basic''
                       then auth\<lparr>wa_method := BasicAuth,
                              wa_realm := get_value_for_map m ''realm'' []\<rparr>
                       else HnwWWWAuthenticate_default)"

definition set_www_authenticate :: "heads \<Rightarrow> HnwWWWAuthenticate \<Rightarrow> bool \<times> heads" where
  "set_www_authenticate h auth =
     (case wa_method auth of
        NoneAuth \<Rightarrow> (False, h)
      | BasicAuth \<Rightarrow>
          (True, add_head (del_head h HTTP_WWW_AUTH) HTTP_WWW_AUTH
             (''Basic realm='' @ dquote @ wa_realm auth @ dquote))
      | DigestAuth \<Rightarrow>
          (True, add_head (del_head h HTTP_WWW_AUTH) HTTP_WWW_AUTH
             (''Digest realm='' @ dquote @ wa_realm auth @ dquote @ '','' @
              ''qop='' @ dquote @ wa_qop auth @ dquote @ '','' @
              ''nonce='' @ dquote @ wa_nonce auth @ dquote @ '','' @
              ''opaque='' @ dquote @ wa_opaque auth @ dquote)))"

subsection \<open>Authorization\<close>

definition get_auth_info :: "platform \<Rightarrow> HnwAuthorization \<Rightarrow> string \<Rightarrow> string" where
  "get_auth_info P auth http_method =
     (if au_method auth = BasicAuth
      then encode_base64 (b64 P) (au_username auth @ '':'' @ au_password auth)
      else if au_method auth = DigestAuth
      then let ha1 = md5 (md5_digest P)
                 (au_username auth @ '':'' @ au_realm auth @ '':'' @ au_password auth);
               ha2 = md5 (md5_digest P) (http_method @ '':'' @ au_uri auth)
           in md5 (md5_digest P)
                (ha1 @ '':'' @ au_nonce auth @ '':'' @ au_nc auth @ '':'' @ au_cnonce auth @ '':'' @
                 au_qop auth @ '':'' @ ha2)
      else [])"

definition get_authorization :: "platform \<Rightarrow> heads \<Rightarrow> HnwAuthorization" where
  "get_authorization P h =
     (let auth = HnwAuthorization_default; str = get_head P h HTTP_AUTH []
      in if str = [] then HnwAuthorization_default
         else case find0 '' '' str of
                None \<Rightarrow> HnwAuthorization_default
              | Some p \<Rightarrow>
                  if length str \<le> p + 1 then HnwAuthorization_default
                  else
                    let auth_method = take p str; data = drop (p + 1) str
                    in if auth_method = ''Digest''
                       then let m = split_ky data (CHR '','')
                            in auth\<lparr>au_method := DigestAuth,
                                 au_realm := get_value_for_map m ''realm'' [],
                                 au_nonce := get_value_for_map m ''nonce'' [],
                                 au_opaque := get_value_for_map m ''opaque'' [],
                                 au_qop := get_value_for_map m ''qop'' [],
                                 au_cnonce := get_value_for_map m ''cnonce'' [],
                                 au_nc := get_value_for_map m ''nc'' [],
                                 au_response := get_value_for_map m ''response'' [],
                                 au_uri := get_value_for_map m ''uri'' [],
                                 au_username := get_value_for_map m ''username'' []\<rparr>
                       else if auth_method = ''Basic''
                       then let u_p = split (decode_base64 (unb64 P) data) '':''
                            in if length u_p < 2 then HnwAuthorization_default
                               else auth\<lparr>au_method := BasicAuth, au_username := u_p ! 0,
                                         au_password := u_p ! 1\<rparr>
                       else HnwAuthorization_default)"

definition set_authorization ::
  "platform \<Rightarrow> heads \<Rightarrow> HnwAuthorization \<Rightarrow> string \<Rightarrow> bool \<times> heads" where
  "set_authorization P h auth http_method =
     (case au_method auth of
        NoneAuth \<Rightarrow> (False, h)
      | BasicAuth \<Rightarrow>
          (True, add_head (del_head h HTTP_AUTH) HTTP_AUTH
             (''Basic '' @ get_auth_info P auth http_method))
      | DigestAuth \<Rightarrow>
          (True, add_head (del_head h HTTP_AUTH) HTTP_AUTH
             (''Digest username='' @ dquote @ au_username auth @ dquote @ '','' @
              ''realm='' @ dquote @ au_realm auth @ dquote @ '','' @
              ''nonce='' @ dquote @ au_nonce auth @ dquote @ '','' @
              ''uri='' @ dquote @ au_uri auth @ dquote @ '','' @
              ''qop='' @ au_qop auth @ '','' @
              ''nc='' @ au_nc auth @ '','' @
              ''cnonce='' @ dquote @ au_cnonce auth @ dquote @ '','' @
              ''response='' @ dquote @ get_auth_info P auth http_method @ dquote @ '','' @
              ''opaque='' @ dquote @ au_opaque auth @ dquote @ '','')))"

text \<open>\<^verbatim>\<open>check_auth(auth, password, method)\<close>, and the overload on the header's own data.\<close>

definition check_auth :: "platform \<Rightarrow> HnwAuthorization \<Rightarrow> string \<Rightarrow> string \<Rightarrow> bool" where
  "check_auth P auth password http_method =
     (case au_method auth of
        BasicAuth \<Rightarrow> c_str (au_password auth) = c_str password
      | DigestAuth \<Rightarrow>
          get_auth_info P (auth\<lparr>au_password := password\<rparr>) http_method = au_response auth
      | NoneAuth \<Rightarrow> False)"

definition check_auth_head :: "platform \<Rightarrow> heads \<Rightarrow> string \<Rightarrow> string \<Rightarrow> bool" where
  "check_auth_head P h password http_method =
     check_auth P (get_authorization P h) password http_method"

subsection \<open>Facts about the scanner\<close>

text \<open>A field between two commas: a key without \<open>=\<close>, a value quoted or plain.\<close>

definition quote_free :: "string \<Rightarrow> bool" where
  "quote_free s \<longleftrightarrow> (\<forall>c \<in> set s. \<not> quote c)"

definition kv_quoted :: "string \<Rightarrow> string \<Rightarrow> string" where
  "kv_quoted k v = k @ ''='' @ dquote @ v @ dquote"

definition kv_plain :: "string \<Rightarrow> string \<Rightarrow> string" where
  "kv_plain k v = k @ ''='' @ v"

definition kv_at_key :: "(string, string) omap \<Rightarrow> kv_scan" where
  "kv_at_key m = kv_init\<lparr>kv_map := m\<rparr>"

lemma foldl_kv_key:
  "kv_status st = Status_KEY \<Longrightarrow> CHR ''='' \<notin> set k \<Longrightarrow>
     foldl (kv_step link) st k = st\<lparr>kv_key := kv_key st @ k\<rparr>"
  by (induction k arbitrary: st) (auto simp: kv_step_def)

lemma foldl_kv_value:
  "kv_status st = Status_VALUE \<Longrightarrow> quote_free v \<Longrightarrow> link \<notin> set v \<Longrightarrow>
     foldl (kv_step link) st v = st\<lparr>kv_value := kv_value st @ v\<rparr>"
  by (induction v arbitrary: st) (auto simp: kv_step_def quote_free_def)

lemma foldl_kv_str:
  "kv_status st = Status_STR \<Longrightarrow> quote_free v \<Longrightarrow>
     foldl (kv_step link) st v = st\<lparr>kv_value := kv_value st @ v\<rparr>"
  by (induction v arbitrary: st) (auto simp: kv_step_def quote_free_def)

lemma foldl_kv_quoted:
  assumes "CHR ''='' \<notin> set k" and "quote_free v"
  shows "foldl (kv_step link) (kv_at_key m) (kv_quoted k v) =
    (kv_at_key m)\<lparr>kv_key := k, kv_value := v, kv_status := Status_VALUE\<rparr>"
  using assms
  by (simp add: kv_quoted_def foldl_kv_key foldl_kv_str kv_at_key_def kv_init_def kv_step_def
      dquote_def quote_def)

lemma foldl_kv_plain:
  assumes "CHR ''='' \<notin> set k" and "quote_free v" and "link \<notin> set v"
  shows "foldl (kv_step link) (kv_at_key m) (kv_plain k v) =
    (kv_at_key m)\<lparr>kv_key := k, kv_value := v, kv_status := Status_VALUE\<rparr>"
  using assms
  by (simp add: kv_plain_def foldl_kv_key foldl_kv_value kv_at_key_def kv_init_def kv_step_def)

lemma kv_step_link:
  "\<not> quote link \<Longrightarrow>
   kv_step link ((kv_at_key m)\<lparr>kv_key := k, kv_value := v, kv_status := Status_VALUE\<rparr>) link =
     kv_at_key (omap_put m (trim k) (trim v))"
  by (simp add: kv_step_def kv_at_key_def kv_init_def kv_put_def)

text \<open>The list of fields a header is printed from, and what the scanner makes of it.\<close>

datatype kv_field = Quoted string string | Plain string string

fun kv_text :: "kv_field \<Rightarrow> string" where
  "kv_text (Quoted k v) = kv_quoted k v"
| "kv_text (Plain k v) = kv_plain k v"

fun kv_pair :: "kv_field \<Rightarrow> string \<times> string" where
  "kv_pair (Quoted k v) = (k, v)"
| "kv_pair (Plain k v) = (k, v)"

fun kv_field_ok :: "char \<Rightarrow> kv_field \<Rightarrow> bool" where
  "kv_field_ok link (Quoted k v) \<longleftrightarrow> k \<noteq> [] \<and> CHR ''='' \<notin> set k \<and> quote_free v"
| "kv_field_ok link (Plain k v) \<longleftrightarrow>
     k \<noteq> [] \<and> CHR ''='' \<notin> set k \<and> quote_free v \<and> link \<notin> set v"

definition kv_puts :: "(string, string) omap \<Rightarrow> kv_field list \<Rightarrow> (string, string) omap" where
  "kv_puts m fs =
     foldl (\<lambda>m f. omap_put m (trim (fst (kv_pair f))) (trim (snd (kv_pair f)))) m fs"

lemma kv_puts_Cons:
  "kv_puts m (f # fs) =
     kv_puts (omap_put m (trim (fst (kv_pair f))) (trim (snd (kv_pair f)))) fs"
  by (simp add: kv_puts_def)

lemma foldl_kv_field:
  "kv_field_ok link f \<Longrightarrow> foldl (kv_step link) (kv_at_key m) (kv_text f) =
     (kv_at_key m)\<lparr>kv_key := fst (kv_pair f), kv_value := snd (kv_pair f),
        kv_status := Status_VALUE\<rparr>"
  by (cases f) (simp_all add: foldl_kv_quoted foldl_kv_plain)

lemma foldl_kv_fields:
  "\<forall>f \<in> set fs. kv_field_ok link f \<Longrightarrow> \<not> quote link \<Longrightarrow>
     foldl (kv_step link) (kv_at_key m) (concat (map (\<lambda>f. kv_text f @ [link]) fs)) =
       kv_at_key (kv_puts m fs)"
proof (induction fs arbitrary: m)
  case Nil
  then show ?case by (simp add: kv_puts_def)
next
  case (Cons f fs)
  then show ?case by (simp add: foldl_kv_field kv_step_link kv_puts_Cons)
qed

text \<open>With or without a comma after the last field.\<close>

lemma split_ky_closed:
  assumes "\<forall>f \<in> set fs. kv_field_ok link f" and "\<not> quote link"
  shows "split_ky (concat (map (\<lambda>f. kv_text f @ [link]) fs)) link = kv_puts [] fs"
proof -
  have "kv_init = kv_at_key []" by (simp add: kv_at_key_def kv_init_def)
  then have "foldl (kv_step link) kv_init (concat (map (\<lambda>f. kv_text f @ [link]) fs)) =
      kv_at_key (kv_puts [] fs)" using foldl_kv_fields [OF assms, of "[]"] by (simp only:)
  then show ?thesis by (simp only: split_ky_def Let_def) (simp add: kv_at_key_def kv_init_def)
qed

lemma split_ky_open:
  assumes "\<forall>f \<in> set (fs @ [g]). kv_field_ok link f" and "\<not> quote link"
  shows "split_ky (concat (map (\<lambda>f. kv_text f @ [link]) fs) @ kv_text g) link =
    kv_puts [] (fs @ [g])"
proof -
  have i: "kv_init = kv_at_key []" by (simp add: kv_at_key_def kv_init_def)
  have g: "kv_field_ok link g" and "\<forall>f \<in> set fs. kv_field_ok link f" using assms(1) by simp_all
  from foldl_kv_fields [OF this(2) assms(2), of "[]"] foldl_kv_field [OF g, of "kv_puts [] fs"]
  have "foldl (kv_step link) kv_init
      (concat (map (\<lambda>f. kv_text f @ [link]) fs) @ kv_text g) =
      (kv_at_key (kv_puts [] fs))\<lparr>kv_key := fst (kv_pair g), kv_value := snd (kv_pair g),
        kv_status := Status_VALUE\<rparr>" by (simp add: i)
  moreover have "fst (kv_pair g) \<noteq> []" using g by (cases g) simp_all
  ultimately show ?thesis
    by (simp add: split_ky_def kv_put_def kv_at_key_def kv_puts_def)
qed

lemma omap_get_kv_puts:
  "omap_get (kv_puts m fs) k =
     (case map_of (rev (map (\<lambda>f. (trim (fst (kv_pair f)), trim (snd (kv_pair f)))) fs)) k of
        None \<Rightarrow> omap_get m k | Some v \<Rightarrow> Some v)"
proof (induction fs arbitrary: m)
  case Nil
  then show ?case by (simp add: kv_puts_def)
next
  case (Cons f fs)
  show ?case
    by (simp add: kv_puts_Cons Cons.IH omap_get_put map_add_def split: option.splits)
qed

lemma quote_free_simps [simp]:
  "quote_free []" "quote_free (a @ b) \<longleftrightarrow> quote_free a \<and> quote_free b"
  "quote_free (c # s) \<longleftrightarrow> \<not> quote c \<and> quote_free s"
  by (auto simp: quote_free_def)

lemma not_quote_comma [simp]: "\<not> quote (CHR '','')"
  by (simp add: quote_def)

text \<open>The names of the fields are their own trim.\<close>

lemma trim_names:
  "trim ''realm'' = ''realm''" "trim ''qop'' = ''qop''" "trim ''nonce'' = ''nonce''"
  "trim ''opaque'' = ''opaque''" "trim ''username'' = ''username''" "trim ''uri'' = ''uri''"
  "trim ''nc'' = ''nc''" "trim ''cnonce'' = ''cnonce''" "trim ''response'' = ''response''"
  by (simp_all add: trim_strip strip_space_free)

lemma md5_field: "quote_free (md5 d s)" "trim (md5 d s) = md5 d s"
proof -
  have sub: "set (md5 d s) \<subseteq> hex_lower"
    by (cases "s = []") (use md5_shape(2) in \<open>auto simp: md5_def\<close>)
  have "\<not> quote c" if "c \<in> hex_lower" for c using that by (auto simp: hex_lower_def quote_def)
  with sub show "quote_free (md5 d s)" by (auto simp: quote_free_def)
  have "CHR '' '' \<notin> hex_lower" by (simp add: hex_lower_def)
  with sub have "CHR '' '' \<notin> set (md5 d s)" by blast
  then show "trim (md5 d s) = md5 d s" by (simp add: trim_strip strip_space_free)
qed

text \<open>A header with an authentication method in front.\<close>

lemma auth_method_split:
  assumes "CHR '' '' \<notin> set meth" and "data \<noteq> []"
  shows "find0 '' '' (meth @ CHR '' '' # data) = Some (length meth)"
    and "take (length meth) (meth @ CHR '' '' # data) = meth"
    and "drop (length meth + 1) (meth @ CHR '' '' # data) = data"
    and "\<not> length (meth @ CHR '' '' # data) \<le> length meth + 1"
  using assms by (simp_all add: find0_char_append)

subsection \<open>Properties of authentication\<close>

definition www_fields :: "HnwWWWAuthenticate \<Rightarrow> kv_field list" where
  "www_fields auth =
     [Quoted ''realm'' (wa_realm auth), Quoted ''qop'' (wa_qop auth), Quoted ''nonce'' (wa_nonce auth),
      Quoted ''opaque'' (wa_opaque auth)]"

lemma get_www_Digest:
  assumes "get_head P h HTTP_WWW_AUTH [] = ''Digest '' @ data" and "data \<noteq> []"
  shows "get_www_authenticate P h =
    (let m = split_ky data (CHR '','') in
     HnwWWWAuthenticate_default\<lparr>wa_method := DigestAuth,
       wa_realm := get_value_for_map m ''realm'' [], wa_nonce := get_value_for_map m ''nonce'' [],
       wa_opaque := get_value_for_map m ''opaque'' [], wa_qop := get_value_for_map m ''qop'' []\<rparr>)"
  unfolding get_www_authenticate_def
  using auth_method_split [of "''Digest''" data] assms by (simp add: Let_def)

lemma get_www_Basic:
  assumes "get_head P h HTTP_WWW_AUTH [] = ''Basic '' @ data" and "data \<noteq> []"
  shows "get_www_authenticate P h =
    HnwWWWAuthenticate_default\<lparr>wa_method := BasicAuth,
       wa_realm := get_value_for_map (split_ky data (CHR '','')) ''realm'' []\<rparr>"
  unfolding get_www_authenticate_def
  using auth_method_split [of "''Basic''" data] assms by (simp add: Let_def)

text \<open>
  A challenge that a server writes with set_www_authenticate is what get_www_authenticate
  reads back on the client: the method, and for each field its text without the spaces at
  its ends. The fields may hold commas, equal signs and spaces, but no quotation mark.
\<close>

theorem www_authenticate_roundtrip:
  assumes "quote_free (wa_realm auth)" and "quote_free (wa_qop auth)"
    and "quote_free (wa_nonce auth)" and "quote_free (wa_opaque auth)"
  shows "get_www_authenticate P (snd (set_www_authenticate (del_head h HTTP_WWW_AUTH) auth)) =
    (case wa_method auth of
       NoneAuth \<Rightarrow> HnwWWWAuthenticate_default
     | BasicAuth \<Rightarrow> HnwWWWAuthenticate_default\<lparr>wa_method := BasicAuth, wa_realm := trim (wa_realm auth)\<rparr>
     | DigestAuth \<Rightarrow> \<lparr>wa_method = DigestAuth, wa_realm = trim (wa_realm auth),
         wa_qop = trim (wa_qop auth), wa_nonce = trim (wa_nonce auth), wa_opaque = trim (wa_opaque auth)\<rparr>)"
proof (cases "wa_method auth")
  case NoneAuth
  then show ?thesis
    by (simp add: set_www_authenticate_def get_www_authenticate_def get_head_del)
next
  case BasicAuth
  let ?d = "kv_text (Quoted ''realm'' (wa_realm auth))"
  let ?h = "snd (set_www_authenticate (del_head h HTTP_WWW_AUTH) auth)"
  have "get_head P ?h HTTP_WWW_AUTH [] = ''Basic '' @ ?d"
    by (simp add: set_www_authenticate_def BasicAuth get_head_replace kv_quoted_def)
  moreover have "?d \<noteq> []" by (simp add: kv_quoted_def)
  moreover have "split_ky ?d (CHR '','') = kv_puts [] [Quoted ''realm'' (wa_realm auth)]"
    using split_ky_open [of "[]" "Quoted ''realm'' (wa_realm auth)" "CHR '',''"] assms by simp
  ultimately show ?thesis
    using get_www_Basic [of P ?h ?d]
    by (simp add: BasicAuth get_value_for_map_def omap_get_kv_puts trim_names)
next
  case DigestAuth
  let ?fs = "www_fields auth"
  let ?d = "concat (map (\<lambda>f. kv_text f @ [CHR '','']) (butlast ?fs)) @ kv_text (last ?fs)"
  let ?h = "snd (set_www_authenticate (del_head h HTTP_WWW_AUTH) auth)"
  have "get_head P ?h HTTP_WWW_AUTH [] = ''Digest '' @ ?d"
    by (simp add: set_www_authenticate_def DigestAuth get_head_replace kv_quoted_def www_fields_def)
  moreover have "?d \<noteq> []" by (simp add: www_fields_def kv_quoted_def)
  moreover have "split_ky ?d (CHR '','') = kv_puts [] ?fs"
    using split_ky_open [of "butlast ?fs" "last ?fs" "CHR '',''"] assms by (simp add: www_fields_def)
  ultimately show ?thesis
    using get_www_Digest [of P ?h ?d]
    by (simp add: DigestAuth get_value_for_map_def omap_get_kv_puts trim_names www_fields_def
        HnwWWWAuthenticate_default_def Let_def)
qed

definition digest_fields :: "HnwAuthorization \<Rightarrow> string \<Rightarrow> kv_field list" where
  "digest_fields auth response =
     [Quoted ''username'' (au_username auth), Quoted ''realm'' (au_realm auth),
      Quoted ''nonce'' (au_nonce auth), Quoted ''uri'' (au_uri auth), Plain ''qop'' (au_qop auth),
      Plain ''nc'' (au_nc auth), Quoted ''cnonce'' (au_cnonce auth), Quoted ''response'' response,
      Quoted ''opaque'' (au_opaque auth)]"

text \<open>A value that the header carries unchanged.\<close>

definition plain_value :: "string \<Rightarrow> bool" where
  "plain_value s \<longleftrightarrow> quote_free s \<and> trim s = s"

lemma plain_value_char: "CHR '' '' \<notin> set s \<Longrightarrow> quote_free s \<Longrightarrow> plain_value s"
  by (simp add: plain_value_def trim_strip strip_space_free)

definition digest_clean :: "HnwAuthorization \<Rightarrow> bool" where
  "digest_clean auth \<longleftrightarrow>
     plain_value (au_username auth) \<and> plain_value (au_realm auth) \<and> plain_value (au_nonce auth) \<and>
     plain_value (au_uri auth) \<and> plain_value (au_qop auth) \<and> CHR '','' \<notin> set (au_qop auth) \<and>
     plain_value (au_nc auth) \<and> CHR '','' \<notin> set (au_nc auth) \<and> plain_value (au_cnonce auth) \<and>
     plain_value (au_opaque auth)"

lemma get_authorization_Digest:
  assumes "get_head P h HTTP_AUTH [] = ''Digest '' @ data" and "data \<noteq> []"
  shows "get_authorization P h =
    (let m = split_ky data (CHR '','') in
     HnwAuthorization_default\<lparr>au_method := DigestAuth,
       au_realm := get_value_for_map m ''realm'' [], au_nonce := get_value_for_map m ''nonce'' [],
       au_opaque := get_value_for_map m ''opaque'' [], au_qop := get_value_for_map m ''qop'' [],
       au_cnonce := get_value_for_map m ''cnonce'' [], au_nc := get_value_for_map m ''nc'' [],
       au_response := get_value_for_map m ''response'' [], au_uri := get_value_for_map m ''uri'' [],
       au_username := get_value_for_map m ''username'' []\<rparr>)"
  unfolding get_authorization_def
  using auth_method_split [of "''Digest''" data] assms by (simp add: Let_def)

lemma digest_read_back:
  assumes "digest_clean auth" and "au_method auth = DigestAuth"
  shows "get_authorization P (snd (set_authorization P h auth m)) =
    auth\<lparr>au_password := [], au_response := get_auth_info P auth m\<rparr>"
proof -
  let ?r = "get_auth_info P auth m"
  let ?fs = "digest_fields auth ?r"
  let ?d = "concat (map (\<lambda>f. kv_text f @ [CHR '','']) ?fs)"
  let ?h = "snd (set_authorization P h auth m)"
  have r: "?r = md5 (md5_digest P) (md5 (md5_digest P)
      (au_username auth @ '':'' @ au_realm auth @ '':'' @ au_password auth) @ '':'' @ au_nonce auth @
      '':'' @ au_nc auth @ '':'' @ au_cnonce auth @ '':'' @ au_qop auth @ '':'' @
      md5 (md5_digest P) (m @ '':'' @ au_uri auth))"
    using assms(2) by (simp add: get_auth_info_def Let_def)
  have rq: "quote_free ?r" "trim ?r = ?r" unfolding r by (rule md5_field)+
  have ok: "\<forall>f \<in> set ?fs. kv_field_ok (CHR '','') f"
    using assms(1) rq by (simp add: digest_fields_def digest_clean_def plain_value_def)
  have "get_head P ?h HTTP_AUTH [] = ''Digest '' @ ?d"
    by (simp add: set_authorization_def assms(2) get_head_replace kv_quoted_def kv_plain_def
        digest_fields_def)
  moreover have "?d \<noteq> []" by (simp add: digest_fields_def kv_quoted_def)
  moreover have "split_ky ?d (CHR '','') = kv_puts [] ?fs"
    by (rule split_ky_closed [OF ok not_quote_comma])
  ultimately have "get_authorization P ?h = \<lparr>au_method = DigestAuth,
      au_username = au_username auth, au_password = [], au_realm = au_realm auth,
      au_nonce = au_nonce auth, au_uri = au_uri auth, au_qop = au_qop auth, au_nc = au_nc auth,
      au_cnonce = au_cnonce auth, au_response = ?r, au_opaque = au_opaque auth\<rparr>"
    using get_authorization_Digest [of P ?h ?d] assms(1) rq(2)
    by (simp add: get_value_for_map_def omap_get_kv_puts trim_names digest_fields_def
        HnwAuthorization_default_def Let_def digest_clean_def plain_value_def)
  with assms(2) show ?thesis by simp
qed

text \<open>
  C24: The digest exchange. What the client writes with set_authorization is read back by the
  server, and its check with a password succeeds exactly when that password gives the client's
  response value; in particular the client's own password is accepted.
\<close>

theorem digest_auth_accepts:
  assumes "digest_clean auth" and "au_method auth = DigestAuth"
  shows "(check_auth_head P (snd (set_authorization P h auth m)) pw m \<longleftrightarrow>
      get_auth_info P (auth\<lparr>au_password := pw\<rparr>) m = get_auth_info P auth m) \<and>
    check_auth_head P (snd (set_authorization P h auth m)) (au_password auth) m"
proof -
  have c: "check_auth_head P (snd (set_authorization P h auth m)) w m \<longleftrightarrow>
      get_auth_info P (auth\<lparr>au_password := w\<rparr>) m = get_auth_info P auth m" for w
    using assms(2)
    by (simp add: check_auth_head_def digest_read_back [OF assms] check_auth_def get_auth_info_def)
  from c [of pw] c [of "au_password auth"] show ?thesis by simp
qed

lemma get_authorization_Basic:
  assumes "get_head P h HTTP_AUTH [] = ''Basic '' @ data" and "data \<noteq> []"
    and "2 \<le> length (split (decode_base64 (unb64 P) data) '':'')"
  shows "get_authorization P h = HnwAuthorization_default\<lparr>au_method := BasicAuth,
     au_username := split (decode_base64 (unb64 P) data) '':'' ! 0,
     au_password := split (decode_base64 (unb64 P) data) '':'' ! 1\<rparr>"
  unfolding get_authorization_def
  using auth_method_split [of "''Basic''" data] assms by (simp add: Let_def)

lemma takeWhile_pad: "z \<notin> set s \<Longrightarrow> takeWhile (\<lambda>c. c \<noteq> z) (s @ replicate n z) = s"
  by (subst takeWhile_append2) (auto simp: takeWhile_eq_Nil_iff)

lemma c_str_pad: "char_of (0::nat) \<notin> set s \<Longrightarrow> c_str (s @ replicate n (char_of (0::nat))) = s"
  unfolding c_str_def by (rule takeWhile_pad)

text \<open>
  C25: The Basic exchange. For any base64 codec that decodes what it encoded up to trailing
  NUL bytes, the server accepts exactly the client's password (compared as C strings).
\<close>

theorem basic_auth_accepts:
  assumes "au_method auth = BasicAuth"
    and "unb64 P (encode_base64 (b64 P) (au_username auth @ '':'' @ au_password auth)) =
      Some ((au_username auth @ '':'' @ au_password auth) @ replicate n (char_of (0::nat)))"
    and "encode_base64 (b64 P) (au_username auth @ '':'' @ au_password auth) \<noteq> []"
    and "set (au_username auth) \<inter> {CHR '':'', char_of (0::nat)} = {}"
    and "set (au_password auth) \<inter> {CHR '':'', char_of (0::nat)} = {}"
  shows "check_auth_head P (snd (set_authorization P h auth m)) pw m \<longleftrightarrow>
    c_str pw = au_password auth"
proof -
  let ?up = "au_username auth @ '':'' @ au_password auth"
  let ?h = "snd (set_authorization P h auth m)"
  have "get_head P ?h HTTP_AUTH [] = ''Basic '' @ encode_base64 (b64 P) ?up"
    by (simp add: set_authorization_def assms(1) get_head_replace get_auth_info_def)
  moreover have "char_of (0::nat) \<notin> set ?up"
    using assms(4,5) by (auto simp: char_of_def bit_0)
  from c_str_pad [OF this, of n] have d: "decode_base64 (unb64 P) (encode_base64 (b64 P) ?up) = ?up"
    unfolding decode_base64_def assms(2) by (simp only: option.case)
  moreover have s: "split ?up '':'' = [au_username auth, au_password auth]"
    using assms(4,5) by (simp add: split_char_append split_char_single)
  ultimately have "get_authorization P ?h = HnwAuthorization_default\<lparr>au_method := BasicAuth,
     au_username := au_username auth, au_password := au_password auth\<rparr>"
    using get_authorization_Basic [of P ?h "encode_base64 (b64 P) ?up"] assms(3) by simp
  moreover have "c_str (au_password auth) = au_password auth"
    using c_str_pad [of "au_password auth" 0] assms(5) by simp
  ultimately show ?thesis
    by (auto simp: check_auth_head_def check_auth_def)
qed

subsection \<open>Concrete instances\<close>

definition digest_sample :: HnwAuthorization where
  "digest_sample = \<lparr>au_method = DigestAuth, au_username = ''Mufasa'', au_password = ''pw'',
     au_realm = ''r@host'', au_nonce = ''dcd98b'', au_uri = ''/dir/index.html'', au_qop = ''auth'',
     au_nc = ''00000001'', au_cnonce = ''0a4f'', au_response = [], au_opaque = ''5ccc''\<rparr>"

lemma digest_sample_clean: "digest_clean digest_sample"
  unfolding digest_clean_def digest_sample_def
  by (simp add: plain_value_char quote_def)

theorem www_authenticate_roundtrip_witness:
  "get_www_authenticate platform0 (snd (set_www_authenticate [] \<lparr>wa_method = DigestAuth,
      wa_realm = ''a, b=c'', wa_qop = ''auth,auth-int'', wa_nonce = ''n'', wa_opaque = ''o''\<rparr>)) =
    \<lparr>wa_method = DigestAuth, wa_realm = ''a, b=c'', wa_qop = ''auth,auth-int'', wa_nonce = ''n'',
     wa_opaque = ''o''\<rparr>"
proof -
  have t: "trim ''a, b=c'' = ''a, b=c''"
    unfolding trim_strip by (rule strip_no_edge) simp
  have "trim ''auth,auth-int'' = ''auth,auth-int''" "trim ''n'' = ''n''" "trim ''o'' = ''o''"
    by (simp_all add: trim_strip strip_space_free)
  with www_authenticate_roundtrip [of "\<lparr>wa_method = DigestAuth,
      wa_realm = ''a, b=c'', wa_qop = ''auth,auth-int'', wa_nonce = ''n'', wa_opaque = ''o''\<rparr>"
      platform0 "[]"] t
  show ?thesis by (simp add: quote_def del_head_def)
qed

theorem digest_auth_accepts_witness:
  "check_auth_head platform0 (snd (set_authorization platform0 [] digest_sample ''GET''))
     ''pw'' ''GET''"
  using digest_auth_accepts [OF digest_sample_clean, of platform0 "[]" "''GET''" "''pw''"]
  by (simp add: digest_sample_def)

theorem basic_auth_accepts_witness:
  "check_auth_head platform0 (snd (set_authorization platform0 []
      (HnwAuthorization_default\<lparr>au_method := BasicAuth, au_username := ''u'', au_password := ''p''\<rparr>)
      ''GET'')) ''p'' ''GET''"
proof -
  let ?a = "HnwAuthorization_default\<lparr>au_method := BasicAuth, au_username := ''u'',
      au_password := ''p''\<rparr>"
  have "check_auth_head platform0 (snd (set_authorization platform0 [] ?a ''GET'')) ''p'' ''GET''
      \<longleftrightarrow> c_str ''p'' = au_password ?a"
    by (rule basic_auth_accepts [where n = 0])
      (simp_all add: platform0_def encode_base64_def char_of_def bit_0)
  then show ?thesis by (simp add: c_str_def char_of_def bit_0)
qed

subsection \<open>Properties of cookies\<close>

definition cookie_clean :: "HnwCookie \<Rightarrow> bool" where
  "cookie_clean c \<longleftrightarrow> set (ck_key c) \<inter> {CHR ''='', CHR '';''} = {} \<and>
     set (ck_value c) \<inter> {CHR ''='', CHR '';''} = {}"

lemma cookie_one_clean: "CHR '';'' \<notin> set s \<Longrightarrow> cookie_clean (cookie_one s)"
proof -
  assume s: "CHR '';'' \<notin> set s"
  have sub: "set x \<subseteq> set s" if "x \<in> set (split s ''='')" for x
  proof -
    have "set (join ''='' xs) \<supseteq> set x" if "x \<in> set xs" for xs
      using that by (induction "''=''" xs rule: join.induct) auto
    from this [OF that] show ?thesis by (simp add: join_split_gen)
  qed
  have piece: "CHR ''='' \<notin> set x \<and> CHR '';'' \<notin> set x" if "x \<in> set (split s ''='')" for x
    using s sub [OF that] split_char_notin [OF that] by blast
  have p0: "split s ''='' ! 0 \<in> set (split s ''='')" by (rule nth_mem) simp
  have p1: "split s ''='' ! 1 \<in> set (split s ''='')" if "2 \<le> length (split s ''='')"
    using that by (intro nth_mem) simp
  from piece [OF p0] piece [OF p1] show ?thesis
    by (simp add: cookie_one_def cookie_clean_def HnwCookie_default_def Let_def)
qed

lemma cookie_one_print:
  "cookie_clean c \<Longrightarrow> cookie_one (ck_key c @ CHR ''='' # ck_value c) = c"
  by (simp add: cookie_one_def cookie_clean_def split_char_append split_char_single
      HnwCookie_default_def)

lemma get_cookies_clean: "c \<in> set (get_cookies P h) \<Longrightarrow> cookie_clean c"
  by (auto simp: get_cookies_def cookie_from_string_def dest: split_char_notin
      intro!: cookie_one_clean)

text \<open>The trailing semicolon of the printed form reads back as one more, empty, cookie.\<close>

lemma cookie_string_roundtrip:
  "\<forall>c \<in> set cs. cookie_clean c \<Longrightarrow>
     cookie_from_string (cookie_to_string cs) [] = cs @ [HnwCookie_default]"
proof (induction cs)
  case Nil
  then show ?case
    by (simp add: cookie_from_string_def cookie_to_string_def cookie_one_def split_Nil_src
        HnwCookie_default_def)
next
  case (Cons c cs)
  then have c: "cookie_clean c" by simp
  have "split (cookie_to_string (c # cs)) '';'' =
      (ck_key c @ CHR ''='' # ck_value c) # split (cookie_to_string cs) '';''"
    using split_char_append [of "CHR '';''" "ck_key c @ CHR ''='' # ck_value c" "cookie_to_string cs"] c
    by (simp add: cookie_to_string_def cookie_clean_def)
  with Cons cookie_one_print [OF c] show ?case by (simp add: cookie_from_string_def)
qed

lemma get_cookies_replace:
  assumes "\<forall>c \<in> set cs. cookie_clean c"
  shows "\<exists>rest. get_cookies P (add_head (del_head h HTTP_COOKIE) HTTP_COOKIE (cookie_to_string cs)) =
     cs @ HnwCookie_default # rest"
proof -
  let ?h = "add_head (del_head h HTTP_COOKIE) HTTP_COOKIE (cookie_to_string cs)"
  have "umm_group P ?h HTTP_COOKIE = [(HTTP_COOKIE, cookie_to_string cs)]"
    by (simp add: umm_group_def filter_add_head filter_del_head Let_def)
  with get_heads_prefix [of P ?h HTTP_COOKIE]
  obtain r where "get_heads P ?h HTTP_COOKIE = cookie_to_string cs # r" by auto
  then show ?thesis
    using cookie_string_roundtrip [OF assms] by (simp add: get_cookies_def)
qed

text \<open>
  After set_cookie a client finds the cookie under its name, and every cookie found before
  is found unchanged; deleting a cookie makes its name unknown in the cookie field that
  del_cookie writes. The names must not be empty: see \<open>set_cookie_grows\<close>.
\<close>

theorem set_cookie_get_cookie:
  assumes "cookie_clean c" and "fst (get_cookie P h (ck_key c) out) = False"
  shows "get_cookie P (snd (set_cookie P h c)) (ck_key c) out = (True, c) \<and>
    (\<forall>name d. get_cookie P h name out = (True, d) \<longrightarrow>
       get_cookie P (snd (set_cookie P h c)) name out = (True, d))"
proof -
  have "\<forall>d \<in> set (get_cookies P h @ [c]). cookie_clean d"
    using assms(1) get_cookies_clean by auto
  from get_cookies_replace [OF this, of P h]
  obtain r where r: "get_cookies P (snd (set_cookie P h c)) =
      (get_cookies P h @ [c]) @ HnwCookie_default # r" by (auto simp: set_cookie_def Let_def)
  have n: "find (\<lambda>d. ck_key d = ck_key c) (get_cookies P h) = None"
    using assms(2) by (simp add: get_cookie_def split: option.splits)
  have app: "find f (xs @ ys) = (case find f xs of Some x \<Rightarrow> Some x | None \<Rightarrow> find f ys)"
    for f :: "HnwCookie \<Rightarrow> bool" and xs ys by (induction xs) auto
  show ?thesis using n
    by (auto simp: get_cookie_def r app split: option.splits)
qed

theorem set_cookie_get_cookie_witness:
  "get_cookie platform0 (snd (set_cookie platform0 [] \<lparr>ck_key = ''sid'', ck_value = ''1''\<rparr>))
     ''sid'' HnwCookie_default = (True, \<lparr>ck_key = ''sid'', ck_value = ''1''\<rparr>)"
proof -
  have "get_cookies platform0 [] = []"
    by (simp add: get_cookies_def get_heads_def umm_find_def umm_iter_def)
  then have "fst (get_cookie platform0 [] ''sid'' HnwCookie_default) = False"
    by (simp add: get_cookie_def)
  with set_cookie_get_cookie [of "\<lparr>ck_key = ''sid'', ck_value = ''1''\<rparr>" platform0 "[]"
      HnwCookie_default]
  show ?thesis by (simp add: cookie_clean_def)
qed

text \<open>
  Printing the cookies ends the field with a semicolon, and reading it takes the empty
  piece behind it for a cookie: with only the cookie field in the header, every set_cookie
  leaves one empty cookie more than it should.
\<close>

theorem set_cookie_grows:
  assumes "cookie_clean c" and "h = [(HTTP_COOKIE, v)]"
  shows "get_cookies P (snd (set_cookie P h c)) = get_cookies P h @ [c, HnwCookie_default]"
proof -
  let ?cs = "get_cookies P h @ [c]"
  have cl: "\<forall>d \<in> set ?cs. cookie_clean d" using assms(1) get_cookies_clean by auto
  have "snd (set_cookie P h c) = [(HTTP_COOKIE, cookie_to_string ?cs)]"
    by (simp add: set_cookie_def assms(2) del_head_def add_head_def Let_def)
  moreover have "get_heads P [(HTTP_COOKIE, w)] HTTP_COOKIE = [w]" for w
    using umm_iter_singleton_groups [of P "(HTTP_COOKIE, w)"]
    by (simp add: get_heads_def umm_find_def umm_iter_def)
  ultimately have "get_cookies P (snd (set_cookie P h c)) =
      cookie_from_string (cookie_to_string ?cs) []" by (simp add: get_cookies_def)
  also have "\<dots> = ?cs @ [HnwCookie_default]" by (rule cookie_string_roundtrip [OF cl])
  finally show ?thesis by simp
qed

theorem set_cookie_grows_witness:
  "get_cookies platform0 (snd (set_cookie platform0 [(HTTP_COOKIE, ''a=1'')]
     \<lparr>ck_key = ''b'', ck_value = ''2''\<rparr>)) =
   get_cookies platform0 [(HTTP_COOKIE, ''a=1'')] @
     [\<lparr>ck_key = ''b'', ck_value = ''2''\<rparr>, HnwCookie_default]"
  by (rule set_cookie_grows) (simp_all add: cookie_clean_def)

lemma attrs_text_ignored:
  assumes "\<forall>s \<in> set kvs. hd (split s ''='') \<notin> {''Expires'', ''Path'', ''Domain'', ''HttpOnly''}"
  shows "set_cookie_attrs kvs c = Some c"
  using assms
proof (induction kvs)
  case Nil
  then show ?case by simp
next
  case (Cons s kvs)
  have "split s ''='' ! 0 = hd (split s ''='')" by (simp add: hd_conv_nth)
  with Cons show ?case by (simp add: set_cookie_attr_def)
qed

lemma hd_split_space: "hd (split (CHR '' '' # s) ''='') = CHR '' '' # hd (split s ''='')"
  by (simp add: split_char_Cons)

definition set_cookie_attr_texts :: "HnwSetCookie \<Rightarrow> string list" where
  "set_cookie_attr_texts c =
     (if sc_domain c \<noteq> [] then ['' Domain='' @ sc_domain c] else []) @
     (if sc_path c \<noteq> [] then ['' Path='' @ sc_path c] else []) @
     (if sc_expires c \<noteq> [] then ['' Expires='' @ sc_expires c] else []) @
     (if \<not> sc_is_secure c then ['' HttpOnly''] else [])"

lemma split_semicolons:
  "CHR '';'' \<notin> set a \<Longrightarrow> \<forall>s \<in> set ss. CHR '';'' \<notin> set s \<Longrightarrow>
     split (a @ concat (map (\<lambda>s. CHR '';'' # s) ss)) '';'' = a # ss"
  by (induction ss arbitrary: a) (simp_all add: split_char_append split_char_single)

text \<open>
  What is lost between set_cookie_to_string and set_cookie_from_string: the name and the
  value come back, and no attribute does, since the writer separates with semicolon and space
  and the reader compares the name with the space still in front.
\<close>

theorem setcookie_roundtrip:
  assumes "cookie_clean (sc_value c)"
    and "CHR '';'' \<notin> set (sc_domain c @ sc_path c @ sc_expires c)"
  shows "set_cookie_from_string (set_cookie_to_string c) HnwSetCookie_default =
    Some (HnwSetCookie_default\<lparr>sc_value := sc_value c\<rparr>)"
proof -
  let ?a = "ck_key (sc_value c) @ CHR ''='' # ck_value (sc_value c)"
  have "set_cookie_to_string c = ?a @ concat (map (\<lambda>s. CHR '';'' # s) (set_cookie_attr_texts c))"
    by (simp add: set_cookie_to_string_def set_cookie_attr_texts_def Let_def)
  moreover have "\<forall>s \<in> set (set_cookie_attr_texts c). CHR '';'' \<notin> set s"
    using assms(2) by (auto simp: set_cookie_attr_texts_def)
  moreover have "CHR '';'' \<notin> set ?a" using assms(1) by (simp add: cookie_clean_def)
  ultimately have s: "split (set_cookie_to_string c) '';'' = ?a # set_cookie_attr_texts c"
    using split_semicolons by metis
  have k: "split ?a ''='' = [ck_key (sc_value c), ck_value (sc_value c)]"
    using assms(1) by (simp add: cookie_clean_def split_char_append split_char_single)
  have "\<forall>t \<in> set (set_cookie_attr_texts c). \<exists>u. t = CHR '' '' # u"
    by (auto simp: set_cookie_attr_texts_def)
  then have "\<forall>t \<in> set (set_cookie_attr_texts c).
      hd (split t ''='') \<notin> {''Expires'', ''Path'', ''Domain'', ''HttpOnly''}"
    using hd_split_space by fastforce
  from attrs_text_ignored [OF this] s k show ?thesis
    by (simp add: set_cookie_from_string_def HnwSetCookie_default_def HnwCookie_default_def Let_def)
qed

theorem setcookie_roundtrip_witness:
  "set_cookie_from_string (set_cookie_to_string \<lparr>sc_value = \<lparr>ck_key = ''sid'', ck_value = ''1''\<rparr>,
      sc_max_age = 5, sc_expires = ''x'', sc_domain = ''d'', sc_path = ''/'', sc_is_secure = True\<rparr>)
      HnwSetCookie_default =
    Some (HnwSetCookie_default\<lparr>sc_value := \<lparr>ck_key = ''sid'', ck_value = ''1''\<rparr>\<rparr>)"
  by (subst setcookie_roundtrip) (simp_all add: cookie_clean_def)

text \<open>The loop on an element that parses and names another cookie.\<close>

lemma del_setcookie_loop_stuck:
  assumes "set_cookie_from_string str HnwSetCookie_default = Some s" and "ck_key (sc_value s) \<noteq> name"
  shows "del_setcookie_loop P h name ((k, str) # rest) = None"
proof (rule ccontr)
  assume "del_setcookie_loop P h name ((k, str) # rest) \<noteq> None"
  then obtain r where "del_setcookie_loop P h name ((k, str) # rest) = Some r" by blast
  then have "(\<lambda>x r. snd x = (k, str) # rest \<and> snd (fst x) = name \<longrightarrow> False)
      (((P, h), name), (k, str) # rest) r"
  proof (rule del_setcookie_loop.raw_induct [rotated])
    fix f :: "platform \<Rightarrow> heads \<Rightarrow> string \<Rightarrow> heads \<Rightarrow> (bool \<times> heads) option" and P h n p r
    assume IH: "\<And>P h n p r. f P h n p = Some r \<Longrightarrow>
        snd (((P, h), n), p) = (k, str) # rest \<and> snd (fst (((P, h), n), p)) = name \<longrightarrow> False"
      and eq: "(case p of [] \<Rightarrow> Some (False, h)
        | (_, str) # _ \<Rightarrow>
          (case set_cookie_from_string str HnwSetCookie_default of None \<Rightarrow> None
           | Some s \<Rightarrow> if ck_key (sc_value s) = n then Some (True, umm_erase_found P h HTTP_SET_COOKIE)
                      else f P h n p)) = Some r"
    show "snd (((P, h), n), p) = (k, str) # rest \<and> snd (fst (((P, h), n), p)) = name \<longrightarrow> False"
    proof
      assume "snd (((P, h), n), p) = (k, str) # rest \<and> snd (fst (((P, h), n), p)) = name"
      then have "p = (k, str) # rest" and "n = name" by simp_all
      with eq assms have "f P h n p = Some r" by simp
      from IH [OF this] \<open>p = (k, str) # rest\<close> \<open>n = name\<close> show False by simp
    qed
  qed
  then show False by simp
qed

text \<open>
  del_setcookie on a header whose found Set-Cookie field names another cookie never
  returns; where that field names the cookie, it is removed.
\<close>

theorem del_setcookie_hangs:
  assumes "umm_find P h HTTP_SET_COOKIE = (k, str) # rest"
    and "set_cookie_from_string str HnwSetCookie_default = Some s"
  shows "del_setcookie P h name =
    (if ck_key (sc_value s) = name then Some (True, umm_erase_found P h HTTP_SET_COOKIE) else None)"
proof (cases "ck_key (sc_value s) = name")
  case True
  with assms show ?thesis by (simp add: del_setcookie_def del_setcookie_loop.simps)
next
  case False
  with assms show ?thesis
    by (simp add: del_setcookie_def del_setcookie_loop_stuck [OF assms(2)])
qed

theorem del_setcookie_hangs_witness:
  "del_setcookie platform0 [(HTTP_SET_COOKIE, ''a=1'')] ''b'' = None"
proof -
  let ?h = "[(HTTP_SET_COOKIE, ''a=1'')]"
  have f: "umm_find platform0 ?h HTTP_SET_COOKIE = (HTTP_SET_COOKIE, ''a=1'') # []"
    using umm_iter_singleton_groups [of platform0 "(HTTP_SET_COOKIE, ''a=1'')"]
    by (simp add: umm_find_def umm_iter_def)
  have "set_cookie_from_string ''a=1'' HnwSetCookie_default =
     Some (HnwSetCookie_default\<lparr>sc_value := \<lparr>ck_key = ''a'', ck_value = ''1''\<rparr>\<rparr>)"
    by (simp add: set_cookie_from_string_def split_char_Cons split_Nil_src
        HnwSetCookie_default_def HnwCookie_default_def)
  from del_setcookie_hangs [OF f this, of "''b''"] show ?thesis by simp
qed

end
