(* ===== verification/Http_Line.thy ===== *)
theory Http_Line
  imports Http_Util Std_Map
begin

section \<open>Start lines\<close>

text \<open>
  \<^verbatim>\<open>Src/http/struct/http_request_line.hpp\<close> and \<^verbatim>\<open>http_response_line.hpp\<close>: the data of a start
  line, its text, and the decomposition of a URL into path and query.
\<close>

subsection \<open>RequestLineImpl\<close>

record RequestLine =
  rl_method :: string
  rl_version :: string
  rl_path :: string
  rl_query_map :: "(string, string) omap"

definition RequestLine_default :: RequestLine where
  "RequestLine_default = \<lparr>rl_method = ''GET'', rl_version = ''HTTP/1.1'', rl_path = ''/'',
     rl_query_map = []\<rparr>"

definition get_query :: "RequestLine \<Rightarrow> string \<Rightarrow> string \<Rightarrow> string" where
  "get_query l key notfind =
     (case omap_get (rl_query_map l) key of None \<Rightarrow> notfind | Some v \<Rightarrow> v)"

definition add_query :: "RequestLine \<Rightarrow> string \<Rightarrow> string \<Rightarrow> RequestLine" where
  "add_query l key value = l\<lparr>rl_query_map := omap_put (rl_query_map l) key value\<rparr>"

definition get_url :: "RequestLine \<Rightarrow> string" where
  "get_url l =
     (let url = rl_path l @ ''?'' @
            concat (map (\<lambda>m. fst m @ ''='' @ snd m @ ''&'') (rl_query_map l))
      in take (length url - 1) url)"

definition add_query_text :: "RequestLine \<Rightarrow> string \<Rightarrow> RequestLine" where
  "add_query_text l q =
     (let k_v = split q ''=''
      in if 2 \<le> length k_v then add_query l (k_v ! 0) (k_v ! 1) else add_query l (k_v ! 0) [])"

definition set_url :: "RequestLine \<Rightarrow> string \<Rightarrow> RequestLine" where
  "set_url l m =
     (let path_q = split m ''?''; l = l\<lparr>rl_path := path_q ! 0\<rparr>
      in if 2 \<le> length path_q then foldl add_query_text l (split (path_q ! 1) ''&'') else l)"

definition path_ver :: "RequestLine \<Rightarrow> string list" where
  "path_ver l = split (rl_path l) ''/''"

definition request_line_string :: "RequestLine \<Rightarrow> string" where
  "request_line_string l = rl_method l @ '' '' @ get_url l @ '' '' @ rl_version l"

subsection \<open>ResponseLineImpl\<close>

record ResponseLine =
  sl_version :: string
  sl_status_code :: string
  sl_reason :: string

definition ResponseLine_default :: ResponseLine where
  "ResponseLine_default = \<lparr>sl_version = ''HTTP/1.1'', sl_status_code = ''200'', sl_reason = ''OK''\<rparr>"

definition status_code :: "ResponseLine \<Rightarrow> string \<Rightarrow> ResponseLine" where
  "status_code l m = l\<lparr>sl_reason := http_reasion m ''NONE'', sl_status_code := m\<rparr>"

definition reason :: "ResponseLine \<Rightarrow> string \<Rightarrow> ResponseLine" where
  "reason l m = l\<lparr>sl_reason := m\<rparr>"

definition response_line_string :: "ResponseLine \<Rightarrow> string" where
  "response_line_string l = sl_version l @ '' '' @ sl_status_code l @ '' '' @ sl_reason l"

subsection \<open>Facts about URLs of a request line\<close>

definition query_text :: "(string, string) omap \<Rightarrow> string" where
  "query_text m = concat (map (\<lambda>m. fst m @ ''='' @ snd m @ ''&'') m)"

lemma get_url_Nil: "rl_query_map l = [] \<Longrightarrow> get_url l = rl_path l"
  by (simp add: get_url_def)

lemma get_url_query:
  "rl_query_map l \<noteq> [] \<Longrightarrow> get_url l = rl_path l @ ''?'' @ butlast (query_text (rl_query_map l))"
proof -
  assume q: "rl_query_map l \<noteq> []"
  then have ne: "query_text (rl_query_map l) \<noteq> []"
    by (cases "rl_query_map l") (simp_all add: query_text_def)
  have "get_url l = butlast ((rl_path l @ ''?'') @ query_text (rl_query_map l))"
    by (simp add: get_url_def query_text_def Let_def butlast_conv_take)
  also have "\<dots> = (rl_path l @ ''?'') @ butlast (query_text (rl_query_map l))"
    using ne by (simp add: butlast_append)
  finally show ?thesis by simp
qed

definition query_part_ok :: "string \<Rightarrow> bool" where
  "query_part_ok s \<longleftrightarrow> set s \<inter> {CHR ''?'', CHR ''&'', CHR ''='', CHR '' ''} = {}"

definition request_line_ok :: "RequestLine \<Rightarrow> bool" where
  "request_line_ok l \<longleftrightarrow> omap_ok (rl_query_map l) \<and>
     set (rl_path l) \<inter> {CHR ''?'', CHR '' ''} = {} \<and>
     (\<forall>p \<in> set (rl_query_map l). query_part_ok (fst p) \<and> query_part_ok (snd p))"

lemma query_text_pieces:
  "m \<noteq> [] \<Longrightarrow> \<forall>p \<in> set m. query_part_ok (fst p) \<and> query_part_ok (snd p) \<Longrightarrow>
     split (butlast (query_text m)) ''&'' = map (\<lambda>p. fst p @ ''='' @ snd p) m"
proof (induction m)
  case Nil
  then show ?case by simp
next
  case (Cons p m)
  let ?t = "fst p @ CHR ''='' # snd p"
  have amp: "CHR ''&'' \<notin> set ?t" using Cons.prems(2) by (auto simp: query_part_ok_def)
  have qt: "query_text (p # m) = ?t @ CHR ''&'' # query_text m" by (simp add: query_text_def)
  show ?case
  proof (cases "m = []")
    case True
    then have "butlast (query_text (p # m)) = ?t" by (simp add: qt query_text_def butlast_append)
    with amp True show ?thesis by (simp add: split_char_single)
  next
    case False
    then have "query_text m \<noteq> []" by (cases m) (simp_all add: query_text_def)
    then have "butlast (query_text (p # m)) = ?t @ CHR ''&'' # butlast (query_text m)"
      unfolding qt by (simp add: butlast_append)
    with split_char_append [OF amp] Cons False show ?thesis by simp
  qed
qed

lemma query_text_free:
  "c \<noteq> CHR ''&'' \<Longrightarrow> c \<noteq> CHR ''='' \<Longrightarrow> \<forall>p \<in> set m. c \<notin> set (fst p) \<and> c \<notin> set (snd p) \<Longrightarrow>
     c \<notin> set (butlast (query_text m))"
proof -
  assume "c \<noteq> CHR ''&''" and "c \<noteq> CHR ''=''" and "\<forall>p \<in> set m. c \<notin> set (fst p) \<and> c \<notin> set (snd p)"
  then have "c \<notin> set (query_text m)" by (auto simp: query_text_def split: if_splits)
  then show ?thesis by (blast dest: in_set_butlastD)
qed

lemma add_query_texts:
  "\<forall>p \<in> set m. query_part_ok (fst p) \<and> query_part_ok (snd p) \<Longrightarrow>
     foldl add_query_text l (map (\<lambda>p. fst p @ ''='' @ snd p) m) =
       l\<lparr>rl_query_map := foldl (\<lambda>m p. omap_put m (fst p) (snd p)) (rl_query_map l) m\<rparr>"
proof (induction m arbitrary: l)
  case Nil
  then show ?case by simp
next
  case (Cons p m)
  then have "add_query_text l (fst p @ ''='' @ snd p) = add_query l (fst p) (snd p)"
    by (simp add: add_query_text_def query_part_ok_def split_char_append split_char_single)
  with Cons show ?case by (simp add: add_query_def)
qed

lemma set_url_get_url:
  assumes "request_line_ok l" and "rl_query_map l0 = []"
  shows "set_url l0 (get_url l) = l0\<lparr>rl_path := rl_path l, rl_query_map := rl_query_map l\<rparr>"
proof (cases "rl_query_map l = []")
  case True
  then show ?thesis using assms
    by (simp add: get_url_Nil set_url_def request_line_ok_def split_char_single)
next
  case False
  let ?q = "butlast (query_text (rl_query_map l))"
  have parts: "\<forall>p \<in> set (rl_query_map l). query_part_ok (fst p) \<and> query_part_ok (snd p)"
    using assms(1) by (simp add: request_line_ok_def)
  have "CHR ''?'' \<notin> set ?q"
    by (rule query_text_free) (use parts in \<open>auto simp: query_part_ok_def\<close>)
  then have "split (get_url l) ''?'' = [rl_path l, ?q]"
    using assms(1) False
    by (simp add: get_url_query request_line_ok_def split_char_append split_char_single)
  moreover have "foldl (\<lambda>m p. omap_put m (fst p) (snd p)) [] (rl_query_map l) = rl_query_map l"
    using omap_put_all [of "[]" "rl_query_map l"] assms(1) by (simp add: request_line_ok_def)
  ultimately show ?thesis
    using query_text_pieces [OF False parts] add_query_texts [OF parts] assms(2)
    by (simp add: set_url_def)
qed

lemma get_url_no_space:
  assumes "request_line_ok l"
  shows "CHR '' '' \<notin> set (get_url l)"
proof (cases "rl_query_map l = []")
  case True
  with assms show ?thesis by (simp add: get_url_Nil request_line_ok_def)
next
  case False
  have "CHR '' '' \<notin> set (butlast (query_text (rl_query_map l)))"
    by (rule query_text_free) (use assms in \<open>auto simp: request_line_ok_def query_part_ok_def\<close>)
  with False assms show ?thesis by (simp add: get_url_query request_line_ok_def)
qed

text \<open>A start line of three words is split at its two spaces.\<close>

lemma split_three_words:
  "CHR '' '' \<notin> set a \<Longrightarrow> CHR '' '' \<notin> set b \<Longrightarrow>
     split (a @ '' '' @ b @ '' '' @ c) '' '' = a # b # split c '' ''"
  by (simp add: split_char_append)

subsection \<open>Properties\<close>

text \<open>
  Reading the URL a request line prints gives its path and its query map back, as the same
  ordered map, for keys and values free of the delimiters; the query string a client built with
  add_query is found again with get_query.
\<close>

theorem url_roundtrip:
  assumes "request_line_ok l"
  shows "set_url RequestLine_default (get_url l) =
      RequestLine_default\<lparr>rl_path := rl_path l, rl_query_map := rl_query_map l\<rparr> \<and>
    get_query (set_url RequestLine_default (get_url l)) key nf = get_query l key nf"
proof -
  have "set_url RequestLine_default (get_url l) =
      RequestLine_default\<lparr>rl_path := rl_path l, rl_query_map := rl_query_map l\<rparr>"
    by (rule set_url_get_url [OF assms]) (simp add: RequestLine_default_def)
  then show ?thesis by (simp add: get_query_def)
qed

theorem url_roundtrip_witness:
  "get_query (set_url RequestLine_default (get_url (add_query (add_query
      (RequestLine_default\<lparr>rl_path := ''/a/b''\<rparr>) ''q'' ''1'') ''n'' []))) ''q'' ''?'' = ''1''"
proof -
  let ?l = "add_query (add_query (RequestLine_default\<lparr>rl_path := ''/a/b''\<rparr>) ''q'' ''1'') ''n'' []"
  have "request_line_ok ?l"
    by (simp add: request_line_ok_def query_part_ok_def add_query_def RequestLine_default_def
        omap_ok_def)
  from url_roundtrip [OF this, of "''q''" "''?''"] show ?thesis
    by (simp add: get_query_def add_query_def omap_get_put)
qed

end
