(* ===== verification/Http_Message.thy ===== *)
theory Http_Message
  imports Http_Body Http_Auth Http_Line
begin

section \<open>Requests and responses\<close>

text \<open>
  \<^verbatim>\<open>Src/http/struct/http_request_impl.hpp\<close> and \<^verbatim>\<open>http_response_impl.hpp\<close>: a message is a
  start line, a header and a body (None for a null pointer), with the creation of a body from
  the Content-Length field and the file bodies of a response.
\<close>

record HttpRequest =
  rq_line :: RequestLine
  rq_head :: heads
  rq_body :: "HttpBody option"

record HttpResponse =
  rs_line :: ResponseLine
  rs_head :: heads
  rs_body :: "HttpBody option"

definition HttpRequest_new :: HttpRequest where
  "HttpRequest_new = \<lparr>rq_line = RequestLine_default, rq_head = [],
     rq_body = Some (raw_body_of raw_generate_auto)\<rparr>"

definition HttpResponse_new :: HttpResponse where
  "HttpResponse_new = \<lparr>rs_line = ResponseLine_default, rs_head = [], rs_body = None\<rparr>"

definition request_auto_create_body :: "platform \<Rightarrow> HttpRequest \<Rightarrow> bool \<times> HttpRequest" where
  "request_auto_create_body P q =
     (let sz = get_head_int64 P (rq_head q) HTTP_LEN 0
      in if sz \<le> 1024 * 1024 * 10
         then (True, q\<lparr>rq_body := Some (raw_body_of (raw_generate (of_int sz)))\<rparr>)
         else (False, q))"

text \<open>A bigger body goes to a temporary file; the pointer is null when that cannot be made.\<close>

definition response_auto_create_body ::
  "platform \<Rightarrow> 'w host \<Rightarrow> 'w \<Rightarrow> HttpResponse \<Rightarrow> bool \<times> 'w \<times> HttpResponse" where
  "response_auto_create_body P H w s =
     (let sz = get_head_int64 P (rs_head s) HTTP_LEN 0
      in if sz \<le> 1024 * 1024 * 10
         then (True, w, s\<lparr>rs_body := Some (raw_body_of (raw_generate (of_int sz)))\<rparr>)
         else let (rnd, w) = host_rand H w;
                  (b, w) = file_generate H w (''./'' @ uuid rnd @ ''.HnwHttpTemp'')
                     (HttpRange_default\<lparr>rg_total := of_int sz\<rparr>)
                     (or HTTP_FILE_FLAG_DELETE HTTP_FILE_FLAG_CREATE)
              in (True, w, s\<lparr>rs_body := map_option file_body_of b\<rparr>))"

definition set_file_body ::
  "platform \<Rightarrow> 'w host \<Rightarrow> 'w \<Rightarrow> HttpResponse \<Rightarrow> string \<Rightarrow> HttpRange \<Rightarrow> 32 word \<Rightarrow>
     bool \<times> 'w \<times> HttpResponse" where
  "set_file_body P H w s path req_range flag =
     (case file_generate H w path req_range flag of
        (None, w) \<Rightarrow> (False, w, s)
      | (Some b, w) \<Rightarrow>
          let h = snd (set_content_range (rs_head s) (req_range\<lparr>rg_total := fb_size b\<rparr>));
              h = (if get_content_type P h = []
                   then snd (set_content_type h (get_http_mime_by_uri path OCT_MIME)) else h)
          in (True, w, s\<lparr>rs_head := h, rs_body := Some (file_body_of b)\<rparr>))"

text \<open>
  The copy loop: \<open>buff\<close> is the local array of 2048 bytes, \<open>out\<close> what was written to the
  file. The whole array is written in every round.
\<close>

definition save_buff_len :: nat where "save_buff_len = 2 * 1024"

partial_function (option) save_loop ::
  "'w host \<Rightarrow> 'w \<Rightarrow> HttpBody \<Rightarrow> string \<Rightarrow> string \<Rightarrow> (string \<times> HttpBody) option" where
  "save_loop H w b buff out =
     (case read_body H w b save_buff_len of
        (data, b) \<Rightarrow>
          if length data = 0 then Some (out, b)
          else let buff = data @ drop (length data) buff
               in save_loop H w b buff (out @ buff))"

declare save_loop.simps [code]

definition save_body_as_file ::
  "'w host \<Rightarrow> 'w \<Rightarrow> HttpResponse \<Rightarrow> string \<Rightarrow> (bool \<times> 'w \<times> HttpResponse) option" where
  "save_body_as_file H w s path =
     (case rs_body s of
        None \<Rightarrow> Some (False, w, s)
      | Some b \<Rightarrow>
          (case file_output H w path [] of
             None \<Rightarrow> Some (False, w, s)
           | Some w \<Rightarrow>
               (case save_loop H w b (replicate save_buff_len (char_of (0::nat))) [] of
                  None \<Rightarrow> None
                | Some (out, b) \<Rightarrow>
                    (case file_output H w path out of
                       None \<Rightarrow> Some (True, w, s\<lparr>rs_body := Some b\<rparr>)
                     | Some w \<Rightarrow> Some (True, w, s\<lparr>rs_body := Some b\<rparr>)))))"

subsection \<open>Facts about saving\<close>

lemma read_body_empty_iff:
  assumes "body_ok H w cont b" and "read_body H w b save_buff_len = (d, b')"
  shows "d = [] \<longleftrightarrow> body_pending cont b = []"
  using read_body_pull(1) [OF assms(1) _ assms(2)] by (simp add: save_buff_len_def)

text \<open>The loop ends, and writes a whole number of blocks.\<close>

lemma save_loop_blocks:
  "body_ok H w cont b \<Longrightarrow> length buff = save_buff_len \<Longrightarrow>
     \<exists>b' blocks. save_loop H w b buff out = Some (out @ blocks, b') \<and>
       length blocks = save_buff_len * ((length (body_pending cont b) + save_buff_len - 1) div save_buff_len) \<and>
       take (length (body_pending cont b)) blocks = body_pending cont b"
proof (induction "length (body_pending cont b)" arbitrary: b buff out rule: less_induct)
  case less
  let ?N = save_buff_len and ?p = "body_pending cont b"
  have N: "0 < ?N" and N63: "?N < 2 ^ 63" by (simp_all add: save_buff_len_def)
  obtain d b' where rd: "read_body H w b ?N = (d, b')" by (cases "read_body H w b ?N")
  note r = read_body_pull [OF less.prems(1) N63 rd]
  show ?case
  proof (cases "?p = []")
    case True
    then have "d = []" by (simp add: r(1))
    with rd True show ?thesis
      using N by (subst save_loop.simps) (simp add: div_less)
  next
    case False
    then have d: "d \<noteq> []" using N by (simp add: r(1))
    let ?buff = "d @ drop (length d) buff"
    have ld: "length d = min (length ?p) ?N" by (simp add: r(1))
    have lb: "length ?buff = ?N" using ld less.prems(2) by simp
    have lt: "length (body_pending cont b') < length ?p" using False N by (simp add: r(3))
    from less.hyps [OF lt r(2) lb, of "out @ ?buff"]
    obtain b'' blocks where bl: "save_loop H w b' ?buff (out @ ?buff) = Some ((out @ ?buff) @ blocks, b'')"
      and l: "length blocks = ?N * ((length (body_pending cont b') + ?N - 1) div ?N)"
      and t: "take (length (body_pending cont b')) blocks = body_pending cont b'" by blast
    have "save_loop H w b buff out = Some (out @ (?buff @ blocks), b'')"
      using bl d by (subst save_loop.simps) (simp add: rd Let_def)
    moreover have "length (?buff @ blocks) = ?N * ((length ?p + ?N - 1) div ?N)"
    proof (cases "length ?p \<le> ?N")
      case True
      then have "length (body_pending cont b') = 0" by (simp add: r(3))
      then have "length blocks = 0" using l N by (simp add: div_less)
      moreover have "0 < length ?p" using \<open>?p \<noteq> []\<close> by simp
      then have "?N \<le> length ?p + ?N - 1" and "length ?p + ?N - 1 < ?N + ?N"
        using True N by linarith+
      then have "(length ?p + ?N - 1) div ?N = 1" by (intro div_nat_eqI) simp_all
      ultimately show ?thesis using lb by simp
    next
      case False
      then have "length ?p + ?N - 1 = (length ?p - ?N + ?N - 1) + ?N" using N by simp
      moreover have "length (body_pending cont b') = length ?p - ?N" by (simp add: r(3))
      ultimately have "(length ?p + ?N - 1) div ?N = (length (body_pending cont b') + ?N - 1) div ?N + 1"
        using N by (simp only: div_add_self2)
      then show ?thesis using l lb by simp
    qed
    moreover have "take (length ?p) (?buff @ blocks) = ?p"
    proof (cases "length ?p \<le> ?N")
      case True
      then have "d = ?p" by (simp add: r(1))
      then show ?thesis by simp
    next
      case False
      then have "d = take ?N ?p" and "length d = ?N" by (simp_all add: r(1))
      moreover then have "?buff = d" using less.prems(2) by simp
      moreover have "take (length ?p - ?N) blocks = drop ?N ?p" using t by (simp add: r(3))
      ultimately show ?thesis using False by (simp add: min_def)
    qed
    ultimately show ?thesis by blast
  qed
qed

subsection \<open>Properties\<close>

text \<open>
  save_body_as_file ends for every body that reads from memory or from a mapped file. What
  it writes starts with the body, but is rounded up to whole blocks of 2048 bytes, since every
  round writes the full buffer and not what was read.
\<close>

theorem save_body_as_file_blocks:
  assumes "rs_body s = Some b" and "body_ok H w' cont b" and "file_output H w path [] = Some w'"
  shows "\<exists>out b' w''. save_loop H w' b (replicate save_buff_len (char_of (0::nat))) [] = Some (out, b') \<and>
    save_body_as_file H w s path = Some (True, w'', s\<lparr>rs_body := Some b'\<rparr>) \<and>
    length out = 2048 * ((length (body_pending cont b) + 2047) div 2048) \<and>
    take (length (body_pending cont b)) out = body_pending cont b"
proof -
  from save_loop_blocks [OF assms(2), of "replicate save_buff_len (char_of (0::nat))" "[]"]
  obtain out b' where "save_loop H w' b (replicate save_buff_len (char_of (0::nat))) [] = Some (out, b')"
    and "length out = save_buff_len * ((length (body_pending cont b) + save_buff_len - 1) div save_buff_len)"
    and "take (length (body_pending cont b)) out = body_pending cont b" by auto
  then show ?thesis
    using assms(1,3)
    by (cases "file_output H w' path out") (auto simp: save_body_as_file_def save_buff_len_def)
qed

theorem save_body_as_file_blocks_witness:
  "\<exists>out b'. save_loop host1 () (raw_filled 5 ''hello'') (replicate save_buff_len (char_of (0::nat))) [] =
     Some (out, b') \<and> length out = 2048"
proof -
  have "body_ok host1 () (\<lambda>_. []) (raw_filled 5 ''hello'')" by (rule raw_filled_ok) simp
  then show ?thesis
    using save_body_as_file_blocks [of "HttpResponse_new\<lparr>rs_body := Some (raw_filled 5 ''hello'')\<rparr>"
        "raw_filled 5 ''hello''" host1 "()" "\<lambda>_. []" "()" "''x''"]
    by (auto simp: host1_def raw_filled_content)
qed

text \<open>
  A response that serves a part of a file announces what it sends: when set_file_body
  succeeds, the body is a file body and the Content-Range field reads back as the range that
  body covers, with the size of the file as total.
\<close>

theorem set_file_body_content_range:
  assumes "set_file_body P H w s path rg flag = (True, w', s')"
  shows "\<exists>f. rs_body s' = Some (file_body_of f) \<and>
    get_content_range P (rs_head s') rg0 =
      (True, rg0\<lparr>use_start_endpoint := False, use_end_endpoint := False,
         rg_start := rg_start (fb_range f), rg_end := rg_end (fb_range f), rg_total := fb_size f\<rparr>)"
proof -
  obtain f where g: "file_generate H w path rg flag = (Some f, w')"
    using assms by (auto simp: set_file_body_def Let_def split: prod.splits option.splits)
  define rg' where "rg' = rg\<lparr>rg_total := fb_size f\<rparr>"
  define h where "h = snd (set_content_range (rs_head s) rg')"
  have s': "rs_body s' = Some (file_body_of f)"
    and h': "rs_head s' = (if get_content_type P h = []
      then add_head h HTTP_CT (get_http_mime_by_uri path OCT_MIME) else h)"
    using assms g by (auto simp: set_file_body_def Let_def set_content_type_def h_def rg'_def)
  have "HTTP_CONTENT_RANGE \<noteq> HTTP_CT" by (simp add: HTTP_CONTENT_RANGE_def HTTP_CT_def)
  then have "get_head P (rs_head s') HTTP_CONTENT_RANGE [] = get_head P h HTTP_CONTENT_RANGE []"
    by (simp add: h' get_head_add_other)
  then have "get_content_range P (rs_head s') rg0 = get_content_range P h rg0"
    by (simp only: get_content_range_def)
  also have "\<dots> = (True, rg0\<lparr>use_start_endpoint := False, use_end_endpoint := False,
      rg_start := section_start rg', rg_end := section_end rg', rg_total := rg_total rg'\<rparr>)"
    unfolding h_def by (rule content_range_read_back)
  finally have "get_content_range P (rs_head s') rg0 = (True, rg0\<lparr>use_start_endpoint := False,
      use_end_endpoint := False, rg_start := section_start rg', rg_end := section_end rg',
      rg_total := rg_total rg'\<rparr>)" .
  moreover have "section_start rg' = rg_start (fb_range f)" and "section_end rg' = rg_end (fb_range f)"
    using file_generate_ends [OF g] by (auto simp: rg'_def section_start_def section_end_def)
  ultimately show ?thesis using s' by (intro exI [of _ f]) (simp add: rg'_def)
qed

theorem set_file_body_content_range_witness:
  "fst (set_file_body platform0 host1 () HttpResponse_new ''a.txt'' range1 HTTP_FILE_FLAG_WRITE) \<and>
   snd (get_content_range platform0 (rs_head (snd (snd (set_file_body platform0 host1 ()
     HttpResponse_new ''a.txt'' range1 HTTP_FILE_FLAG_WRITE)))) HttpRange_default) =
   \<lparr>use_start_endpoint = False, use_end_endpoint = False, rg_start = 2, rg_end = 3, rg_total = 5\<rparr>"
proof -
  let ?r = "set_file_body platform0 host1 () HttpResponse_new ''a.txt'' range1 HTTP_FILE_FLAG_WRITE"
  have ok: "?r = (True, (), snd (snd ?r))" and b: "rs_body (snd (snd ?r)) = Some (file_body_of file1)"
    by (simp_all add: set_file_body_def file_generate_host1 Let_def)
  have "fst ?r" using arg_cong [OF ok, of fst] by simp
  with set_file_body_content_range [OF ok, of HttpRange_default] b show ?thesis
    by (auto simp: file_body_of_def base_body_def file1_def range1_def HttpRange_default_def)
qed

end
