(* ===== verification/Http_Parser.thy ===== *)
theory Http_Parser
  imports Http_Message
begin

section \<open>The parsers\<close>

text \<open>
  \<^verbatim>\<open>Src/base/define/parser.hpp\<close> (the loop over the input and the table of callbacks per
  status), \<^verbatim>\<open>Src/http/parser/http_response_parser.hpp\<close> and \<^verbatim>\<open>http_request_parser.hpp\<close>. A callback
  takes the input from \<open>start\<close> to \<open>end\<close> and yields the return code, the input left, the
  parser, the world and the events it raised, in order; None where the code dereferences a
  null pointer or reads out of range. The event callback for a complete header may change the
  message (it gets the parser's own pointer): it is the argument \<open>hcb\<close>.
\<close>

datatype PSTATUS = START_LINE | START_LINE1 | START_LINE2 | START_LINE3 | HEAD | HEAD_KEY
  | HEAD_VALUE | BODY | CHUNKED_LEN | CHUNKED_DATA | OVER | PERROR

record 'm parser =
  parser_status :: PSTATUS
  parser_cache1 :: string
  parser_tmp :: 'm

datatype 'm parser_event = RecvHead 'm | RecvMessage 'm | ParserError err_code

type_synonym ('s, 'w, 'e) parser_cb =
  "'s \<Rightarrow> 'w \<Rightarrow> string \<Rightarrow> (err_code \<times> string \<times> 's \<times> 'w \<times> 'e list) option"

definition CR :: char where "CR = CHR 0x0D"
definition LF :: char where "LF = CHR 0x0A"

subsection \<open>ParserBase\<close>

text \<open>The loop of \<open>input_data\<close>; it does not end when a callback leaves the input as it is.\<close>

partial_function (option) input_data_loop ::
  "('s, 'w, 'e) parser_cb \<Rightarrow> 's \<Rightarrow> 'w \<Rightarrow> string \<Rightarrow> 'e list \<Rightarrow> (err_code \<times> 's \<times> 'w \<times> 'e list) option"
  where
  "input_data_loop call_parser_cb st w input evs =
     (if input = [] then Some (HNW_BASE_OK, st, w, evs)
      else case call_parser_cb st w input of
             None \<Rightarrow> None
           | Some (ret, input, st, w, ev) \<Rightarrow>
               if ret \<noteq> HNW_BASE_OK then Some (ret, st, w, evs @ ev)
               else input_data_loop call_parser_cb st w input (evs @ ev))"

declare input_data_loop.simps [code]

definition input_data ::
  "('s, 'w, 'e) parser_cb \<Rightarrow> 's \<Rightarrow> 'w \<Rightarrow> string \<Rightarrow> (err_code \<times> 's \<times> 'w \<times> 'e list) option" where
  "input_data call_parser_cb st w data = input_data_loop call_parser_cb st w data []"

definition default_parser :: "('m parser, 'w, 'm parser_event) parser_cb" where
  "default_parser st w input = Some (HNW_HTTP_PARSER_CB_IS_DEFAULT, [], st, w, [])"

text \<open>The callback registered for the status, or the default one.\<close>

definition call_parser_cb ::
  "(PSTATUS \<Rightarrow> ('m parser, 'w, 'm parser_event) parser_cb option) \<Rightarrow>
     ('m parser, 'w, 'm parser_event) parser_cb" where
  "call_parser_cb parser_cb_map st w input =
     (case parser_cb_map (parser_status st) of
        Some cb \<Rightarrow> cb st w input
      | None \<Rightarrow> default_parser st w input)"

text \<open>A peer's data arrives in pieces: each is one call of \<open>input_data\<close>, up to the first error.\<close>

fun input_pieces ::
  "('s, 'w, 'e) parser_cb \<Rightarrow> 's \<Rightarrow> 'w \<Rightarrow> string list \<Rightarrow> (err_code \<times> 's \<times> 'w \<times> 'e list) option" where
  "input_pieces cb st w [] = Some (HNW_BASE_OK, st, w, [])"
| "input_pieces cb st w (x # xs) =
     (case input_data cb st w x of
        None \<Rightarrow> None
      | Some (ret, st, w, ev) \<Rightarrow>
          if ret \<noteq> HNW_BASE_OK then Some (ret, st, w, ev)
          else map_option (\<lambda>(ret, st, w, ev'). (ret, st, w, ev @ ev')) (input_pieces cb st w xs))"

subsection \<open>HttpResponseParser\<close>

type_synonym resp_parser = "HttpResponse parser"
type_synonym resp_event = "HttpResponse parser_event"

definition resp_reset :: resp_parser where
  "resp_reset = \<lparr>parser_status = START_LINE, parser_cache1 = [], parser_tmp = HttpResponse_new\<rparr>"

definition resp_push :: "resp_parser \<Rightarrow> err_code \<times> resp_parser \<times> resp_event list" where
  "resp_push st = (HNW_BASE_OK, resp_reset, [RecvMessage (parser_tmp st)])"

definition resp_on_start_line :: "(resp_parser, 'w, resp_event) parser_cb" where
  "resp_on_start_line st w input =
     (let ch = hd input; rest = tl input
      in if ch = CR then Some (HNW_BASE_OK, rest, st, w, [])
         else if ch = LF
         then let d = split (parser_cache1 st) '' ''
              in if length d < 3 then Some (HNW_HTTP_PARSER_BAD_START_LINE, rest, st, w, [])
                 else
                   let m = parser_tmp st;
                       l = (rs_line m)\<lparr>sl_version := d ! 0\<rparr>;
                       l = status_code l (d ! 1);
                       l = reason l (d ! 2)
                   in Some (HNW_BASE_OK, rest, st\<lparr>parser_tmp := m\<lparr>rs_line := l\<rparr>,
                        parser_cache1 := [], parser_status := HEAD\<rparr>, w, [])
         else Some (HNW_BASE_OK, rest, st\<lparr>parser_cache1 := parser_cache1 st @ [ch]\<rparr>, w, []))"

text \<open>The blank line after the header.\<close>

definition resp_head_end ::
  "platform \<Rightarrow> 'w host \<Rightarrow> (HttpResponse \<Rightarrow> 'w \<Rightarrow> HttpResponse \<times> 'w) \<Rightarrow> resp_parser \<Rightarrow> 'w \<Rightarrow>
     (err_code \<times> resp_parser \<times> 'w \<times> resp_event list) option" where
  "resp_head_end P H hcb st w =
     (let ev = [RecvHead (parser_tmp st)];
          (m, w) = hcb (parser_tmp st) w;
          (ok, w, m) =
            (if (case rs_body m of None \<Rightarrow> True | Some b \<Rightarrow> bd_type b = BODY_EMPTY)
             then response_auto_create_body P H w m else (True, w, m));
          st = st\<lparr>parser_tmp := m\<rparr>;
          fail = Some (HNW_HTTP_STRUCT_MESSAGE_FAIL, st, w,
                   ev @ [ParserError HNW_HTTP_STRUCT_MESSAGE_FAIL])
      in if \<not> ok then fail
         else case rs_body m of
                None \<Rightarrow> fail
              | Some b \<Rightarrow>
                  if is_complete b
                  then let (ret, st, ev') = resp_push st in Some (ret, st, w, ev @ ev')
                  else Some (HNW_BASE_OK, st\<lparr>parser_status := BODY\<rparr>, w, ev))"

definition resp_on_head ::
  "platform \<Rightarrow> 'w host \<Rightarrow> (HttpResponse \<Rightarrow> 'w \<Rightarrow> HttpResponse \<times> 'w) \<Rightarrow>
     (resp_parser, 'w, resp_event) parser_cb" where
  "resp_on_head P H hcb st w input =
     (let ch = hd input; rest = tl input
      in if ch = CR then Some (HNW_BASE_OK, rest, st, w, [])
         else if ch = LF
         then if parser_cache1 st = []
              then map_option (\<lambda>(ret, st, w, ev). (ret, rest, st, w, ev)) (resp_head_end P H hcb st w)
              else let d = split (parser_cache1 st) HEAD_SPLIT
                   in if length d < 2 then Some (HNW_HTTP_PARSER_BAD_HEAD_KEY, rest, st, w, [])
                      else
                        let m = parser_tmp st;
                            m = m\<lparr>rs_head := add_head (rs_head m) (d ! 0) (d ! 1)\<rparr>
                        in Some (HNW_BASE_OK, rest,
                             st\<lparr>parser_tmp := m, parser_cache1 := [], parser_status := HEAD\<rparr>, w, [])
         else Some (HNW_BASE_OK, rest, st\<lparr>parser_cache1 := parser_cache1 st @ [ch]\<rparr>, w, []))"

definition resp_on_body :: "'w host \<Rightarrow> (resp_parser, 'w, resp_event) parser_cb" where
  "resp_on_body H st w input =
     (let m = parser_tmp st
      in case rs_body m of
           None \<Rightarrow> None
         | Some b \<Rightarrow>
             (case write_body H w b input of
                None \<Rightarrow> None
              | Some (write_size, w, b) \<Rightarrow>
                  let st = st\<lparr>parser_tmp := m\<lparr>rs_body := Some b\<rparr>\<rparr>; rest = drop write_size input
                  in if is_complete b
                     then let (ret, st, ev) = resp_push st in Some (ret, rest, st, w, ev)
                     else Some (HNW_BASE_OK, rest, st, w, [])))"

definition resp_cb_map ::
  "platform \<Rightarrow> 'w host \<Rightarrow> (HttpResponse \<Rightarrow> 'w \<Rightarrow> HttpResponse \<times> 'w) \<Rightarrow> PSTATUS \<Rightarrow>
     (resp_parser, 'w, resp_event) parser_cb option" where
  "resp_cb_map P H hcb s =
     (if s = START_LINE then Some resp_on_start_line
      else if s = HEAD then Some (resp_on_head P H hcb)
      else if s = BODY then Some (resp_on_body H)
      else None)"

definition resp_step ::
  "platform \<Rightarrow> 'w host \<Rightarrow> (HttpResponse \<Rightarrow> 'w \<Rightarrow> HttpResponse \<times> 'w) \<Rightarrow>
     (resp_parser, 'w, resp_event) parser_cb" where
  "resp_step P H hcb = call_parser_cb (resp_cb_map P H hcb)"

subsection \<open>HttpRequestParser\<close>

type_synonym req_parser = "HttpRequest parser"
type_synonym req_event = "HttpRequest parser_event"

definition req_reset :: req_parser where
  "req_reset = \<lparr>parser_status = START_LINE, parser_cache1 = [], parser_tmp = HttpRequest_new\<rparr>"

definition req_push :: "req_parser \<Rightarrow> err_code \<times> req_parser \<times> req_event list" where
  "req_push st = (HNW_BASE_OK, req_reset, [RecvMessage (parser_tmp st)])"

definition req_on_start_line :: "(req_parser, 'w, req_event) parser_cb" where
  "req_on_start_line st w input =
     (let ch = hd input; rest = tl input
      in if ch = CR then Some (HNW_BASE_OK, rest, st, w, [])
         else if ch = LF
         then let d = split (parser_cache1 st) '' ''
              in if length d < 3 then Some (HNW_HTTP_PARSER_BAD_START_LINE, rest, st, w, [])
                 else
                   let m = parser_tmp st;
                       l = (rq_line m)\<lparr>rl_method := d ! 0\<rparr>;
                       l = set_url l (d ! 1);
                       l = l\<lparr>rl_version := d ! 2\<rparr>
                   in Some (HNW_BASE_OK, rest, st\<lparr>parser_tmp := m\<lparr>rq_line := l\<rparr>,
                        parser_cache1 := [], parser_status := HEAD\<rparr>, w, [])
         else Some (HNW_BASE_OK, rest, st\<lparr>parser_cache1 := parser_cache1 st @ [ch]\<rparr>, w, []))"

definition req_head_end ::
  "platform \<Rightarrow> (HttpRequest \<Rightarrow> 'w \<Rightarrow> HttpRequest \<times> 'w) \<Rightarrow> req_parser \<Rightarrow> 'w \<Rightarrow>
     (err_code \<times> req_parser \<times> 'w \<times> req_event list) option" where
  "req_head_end P hcb st w =
     (let ev = [RecvHead (parser_tmp st)];
          (m, w) = hcb (parser_tmp st) w;
          (ok, m) =
            (if (case rq_body m of None \<Rightarrow> True | Some b \<Rightarrow> bd_type b = BODY_EMPTY)
             then request_auto_create_body P m else (True, m));
          st = st\<lparr>parser_tmp := m\<rparr>
      in if \<not> ok
         then Some (HNW_HTTP_STRUCT_MESSAGE_FAIL, st, w,
                ev @ [ParserError HNW_HTTP_STRUCT_MESSAGE_FAIL])
         else case rq_body m of
                None \<Rightarrow> None
              | Some b \<Rightarrow>
                  if is_complete b
                  then let (ret, st, ev') = req_push st in Some (ret, st, w, ev @ ev')
                  else Some (HNW_BASE_OK, st\<lparr>parser_status := BODY\<rparr>, w, ev))"

definition req_on_head ::
  "platform \<Rightarrow> (HttpRequest \<Rightarrow> 'w \<Rightarrow> HttpRequest \<times> 'w) \<Rightarrow> (req_parser, 'w, req_event) parser_cb" where
  "req_on_head P hcb st w input =
     (let ch = hd input; rest = tl input
      in if ch = CR then Some (HNW_BASE_OK, rest, st, w, [])
         else if ch = LF
         then if parser_cache1 st = []
              then map_option (\<lambda>(ret, st, w, ev). (ret, rest, st, w, ev)) (req_head_end P hcb st w)
              else let d = split (parser_cache1 st) HEAD_SPLIT
                   in if length d < 2 then Some (HNW_HTTP_PARSER_BAD_HEAD_KEY, rest, st, w, [])
                      else
                        let m = parser_tmp st;
                            m = m\<lparr>rq_head := add_head (rq_head m) (d ! 0) (d ! 1)\<rparr>
                        in Some (HNW_BASE_OK, rest,
                             st\<lparr>parser_tmp := m, parser_cache1 := [], parser_status := HEAD\<rparr>, w, [])
         else Some (HNW_BASE_OK, rest, st\<lparr>parser_cache1 := parser_cache1 st @ [ch]\<rparr>, w, []))"

definition req_on_body :: "'w host \<Rightarrow> (req_parser, 'w, req_event) parser_cb" where
  "req_on_body H st w input =
     (let m = parser_tmp st
      in case rq_body m of
           None \<Rightarrow> None
         | Some b \<Rightarrow>
             (case write_body H w b input of
                None \<Rightarrow> None
              | Some (write_size, w, b) \<Rightarrow>
                  let st = st\<lparr>parser_tmp := m\<lparr>rq_body := Some b\<rparr>\<rparr>; rest = drop write_size input
                  in if is_complete b
                     then let (ret, st, ev) = req_push st in Some (ret, rest, st, w, ev)
                     else Some (HNW_BASE_OK, rest, st, w, [])))"

definition req_cb_map ::
  "platform \<Rightarrow> 'w host \<Rightarrow> (HttpRequest \<Rightarrow> 'w \<Rightarrow> HttpRequest \<times> 'w) \<Rightarrow> PSTATUS \<Rightarrow>
     (req_parser, 'w, req_event) parser_cb option" where
  "req_cb_map P H hcb s =
     (if s = START_LINE then Some req_on_start_line
      else if s = HEAD then Some (req_on_head P hcb)
      else if s = BODY then Some (req_on_body H)
      else None)"

definition req_step ::
  "platform \<Rightarrow> 'w host \<Rightarrow> (HttpRequest \<Rightarrow> 'w \<Rightarrow> HttpRequest \<times> 'w) \<Rightarrow>
     (req_parser, 'w, req_event) parser_cb" where
  "req_step P H hcb = call_parser_cb (req_cb_map P H hcb)"

subsection \<open>Interface: a parser fed in pieces\<close>

text \<open>
  What makes the pieces a peer's data arrives in irrelevant. \<open>ok k st\<close> is the parser's
  invariant with room for \<open>k\<close> more bytes. A callback consumes something, and more input
  behind what it was given changes nothing, or what it would do in the next call.
\<close>

locale piecewise_parser =
  fixes step :: "('s, 'w, 'e) parser_cb"
    and ok :: "nat \<Rightarrow> 's \<Rightarrow> bool"
  assumes step_some: "ok k st \<Longrightarrow> x \<noteq> [] \<Longrightarrow> length x \<le> k \<Longrightarrow>
      \<exists>ret rest st' w' ev. step st w x = Some (ret, rest, st', w', ev) \<and>
        (\<exists>used. used \<noteq> [] \<and> x = used @ rest \<and> (ret = HNW_BASE_OK \<longrightarrow> ok (k - length used) st'))"
    and step_left: "ok k st \<Longrightarrow> x \<noteq> [] \<Longrightarrow> length (x @ y) \<le> k \<Longrightarrow>
      step st w x = Some (ret, rest, st', w', ev) \<Longrightarrow> rest \<noteq> [] \<or> ret \<noteq> HNW_BASE_OK \<Longrightarrow>
      step st w (x @ y) = Some (ret, rest @ y, st', w', ev)"
    and step_all: "ok k st \<Longrightarrow> x \<noteq> [] \<Longrightarrow> y \<noteq> [] \<Longrightarrow> length (x @ y) \<le> k \<Longrightarrow>
      step st w x = Some (HNW_BASE_OK, [], st', w', ev) \<Longrightarrow>
      step st w (x @ y) = Some (HNW_BASE_OK, y, st', w', ev) \<or>
      step st w (x @ y) =
        map_option (\<lambda>(ret, rest, s, w, e). (ret, rest, s, w, ev @ e)) (step st' w' y)"
begin

lemma loop_Nil: "input_data_loop step st w [] evs = Some (HNW_BASE_OK, st, w, evs)"
  by (simp add: input_data_loop.simps)

text \<open>The loop returns, and keeps the invariant.\<close>

lemma loop_returns:
  "ok k st \<Longrightarrow> length x \<le> k \<Longrightarrow>
     \<exists>ret st' w' evs'. input_data_loop step st w x evs = Some (ret, st', w', evs') \<and>
       (ret = HNW_BASE_OK \<longrightarrow> ok (k - length x) st')"
proof (induction "length x" arbitrary: x k st w evs rule: less_induct)
  case less
  show ?case
  proof (cases "x = []")
    case True
    with less.prems show ?thesis by (simp add: loop_Nil)
  next
    case False
    from step_some [OF less.prems(1) False less.prems(2), of w]
    obtain ret rest st' w' ev used where s: "step st w x = Some (ret, rest, st', w', ev)"
      and u: "used \<noteq> []" "x = used @ rest" and ok': "ret = HNW_BASE_OK \<longrightarrow> ok (k - length used) st'"
      by blast
    show ?thesis
    proof (cases "ret = HNW_BASE_OK")
      case True
      have "length rest < length x" using u by simp
      moreover have "length rest \<le> k - length used" using u(2) less.prems(2) by simp
      ultimately obtain r st'' w'' evs'' where
        "input_data_loop step st' w' rest (evs @ ev) = Some (r, st'', w'', evs'')"
        and "r = HNW_BASE_OK \<longrightarrow> ok (k - length used - length rest) st''"
        using less.hyps [of rest "k - length used" st' w' "evs @ ev"] ok' True by blast
      moreover have "k - length used - length rest = k - length x" using u(2) by simp
      ultimately show ?thesis
        using False s True by (subst input_data_loop.simps) simp
    next
      case nok: False
      with False s show ?thesis by (subst input_data_loop.simps) simp
    qed
  qed
qed

lemma loop_append:
  "ok k st \<Longrightarrow> length (x @ y) \<le> k \<Longrightarrow>
     input_data_loop step st w (x @ y) evs =
       (case input_data_loop step st w x evs of
          None \<Rightarrow> None
        | Some (ret, st', w', evs') \<Rightarrow>
            if ret \<noteq> HNW_BASE_OK then Some (ret, st', w', evs')
            else input_data_loop step st' w' y evs')"
proof (induction "length x" arbitrary: x k st w evs rule: less_induct)
  case less
  show ?case
  proof (cases "x = [] \<or> y = []")
    case True
    then show ?thesis
    proof
      assume "x = []"
      then show ?thesis by (simp add: loop_Nil)
    next
      assume y: "y = []"
      from loop_returns [OF less.prems(1), of x w evs] less.prems(2)
      obtain ret st' w' evs' where "input_data_loop step st w x evs = Some (ret, st', w', evs')" by auto
      with y show ?thesis by (simp add: loop_Nil)
    qed
  next
    case False
    then have x: "x \<noteq> []" and y: "y \<noteq> []" by simp_all
    have lx: "length x \<le> k" using less.prems(2) by simp
    from step_some [OF less.prems(1) x lx, of w]
    obtain ret rest st' w' ev used where s: "step st w x = Some (ret, rest, st', w', ev)"
      and u: "used \<noteq> []" "x = used @ rest" and ok': "ret = HNW_BASE_OK \<longrightarrow> ok (k - length used) st'"
      by blast
    have Lx: "input_data_loop step st w x evs =
        (if ret \<noteq> HNW_BASE_OK then Some (ret, st', w', evs @ ev)
         else input_data_loop step st' w' rest (evs @ ev))"
      using x s by (subst input_data_loop.simps) simp
    show ?thesis
    proof (cases "rest \<noteq> [] \<or> ret \<noteq> HNW_BASE_OK")
      case True
      have "step st w (x @ y) = Some (ret, rest @ y, st', w', ev)"
        by (rule step_left [OF less.prems(1) x less.prems(2) s True])
      then have Lxy: "input_data_loop step st w (x @ y) evs =
        (if ret \<noteq> HNW_BASE_OK then Some (ret, st', w', evs @ ev)
         else input_data_loop step st' w' (rest @ y) (evs @ ev))"
        using x by (subst input_data_loop.simps) simp
      show ?thesis
      proof (cases "ret = HNW_BASE_OK")
        case True
        have "length rest < length x" using u by simp
        moreover have "length (rest @ y) \<le> k - length used" using u(2) less.prems(2) by simp
        ultimately show ?thesis
          using less.hyps [of rest "k - length used" st' w' "evs @ ev"] ok' True Lx Lxy by simp
      next
        case False
        with Lx Lxy show ?thesis by simp
      qed
    next
      case False
      then have r: "rest = []" "ret = HNW_BASE_OK" by simp_all
      have R: "(case input_data_loop step st w x evs of None \<Rightarrow> None
        | Some (ret, st', w', evs') \<Rightarrow> if ret \<noteq> HNW_BASE_OK then Some (ret, st', w', evs')
            else input_data_loop step st' w' y evs') = input_data_loop step st' w' y (evs @ ev)"
        using Lx r by (simp add: loop_Nil)
      from step_all [OF less.prems(1) x y less.prems(2)] s r
      consider "step st w (x @ y) = Some (HNW_BASE_OK, y, st', w', ev)"
        | "step st w (x @ y) = map_option (\<lambda>(ret, rest, s, w, e). (ret, rest, s, w, ev @ e)) (step st' w' y)"
        by blast
      then have "input_data_loop step st w (x @ y) evs = input_data_loop step st' w' y (evs @ ev)"
      proof cases
        case 1
        then show ?thesis using x by (subst input_data_loop.simps) simp
      next
        case 2
        have "input_data_loop step st' w' y (evs @ ev) =
          (case step st' w' y of None \<Rightarrow> None
           | Some (ret, input, st, w, e) \<Rightarrow>
               if ret \<noteq> HNW_BASE_OK then Some (ret, st, w, (evs @ ev) @ e)
               else input_data_loop step st w input ((evs @ ev) @ e))"
          using y by (subst input_data_loop.simps) simp
        with 2 x show ?thesis
          by (subst input_data_loop.simps) (simp split: option.splits prod.splits)
      qed
      with R show ?thesis by simp
    qed
  qed
qed

lemma loop_events:
  "ok k st \<Longrightarrow> length x \<le> k \<Longrightarrow>
     input_data_loop step st w x (e @ evs) =
       map_option (\<lambda>(ret, st, w, ev). (ret, st, w, e @ ev)) (input_data_loop step st w x evs)"
proof (induction "length x" arbitrary: x k st w evs rule: less_induct)
  case less
  show ?case
  proof (cases "x = []")
    case True
    then show ?thesis by (simp add: loop_Nil)
  next
    case False
    from step_some [OF less.prems(1) False less.prems(2), of w]
    obtain ret rest st' w' ev used where s: "step st w x = Some (ret, rest, st', w', ev)"
      and u: "used \<noteq> []" "x = used @ rest" and ok': "ret = HNW_BASE_OK \<longrightarrow> ok (k - length used) st'"
      by blast
    have L: "input_data_loop step st w x E =
        (if ret \<noteq> HNW_BASE_OK then Some (ret, st', w', E @ ev)
         else input_data_loop step st' w' rest (E @ ev))" for E
      using False s by (subst input_data_loop.simps) simp
    show ?thesis
    proof (cases "ret = HNW_BASE_OK")
      case True
      have "length rest < length x" using u by simp
      moreover have "length rest \<le> k - length used" using u(2) less.prems(2) by simp
      ultimately show ?thesis
        using less.hyps [of rest "k - length used" st' w' "evs @ ev"] ok' True L by simp
    next
      case False
      with L show ?thesis by simp
    qed
  qed
qed

text \<open>The pieces do not matter: only their concatenation.\<close>

lemma pieces_concat:
  "ok k st \<Longrightarrow> length (concat xs) \<le> k \<Longrightarrow>
     input_pieces step st w xs = input_data step st w (concat xs)"
proof (induction xs arbitrary: k st w)
  case Nil
  then show ?case by (simp add: input_data_def loop_Nil)
next
  case (Cons x xs)
  have lx: "length x \<le> k" using Cons.prems(2) by simp
  from loop_returns [OF Cons.prems(1) lx, of w "[]"]
  obtain ret st' w' ev where L: "input_data_loop step st w x [] = Some (ret, st', w', ev)"
    and ok': "ret = HNW_BASE_OK \<longrightarrow> ok (k - length x) st'" by blast
  have app: "input_data step st w (concat (x # xs)) =
      (if ret \<noteq> HNW_BASE_OK then Some (ret, st', w', ev)
       else input_data_loop step st' w' (concat xs) ev)"
    using loop_append [OF Cons.prems(1), of x "concat xs" w "[]"] Cons.prems(2) L
    by (simp add: input_data_def)
  show ?case
  proof (cases "ret = HNW_BASE_OK")
    case True
    have l: "length (concat xs) \<le> k - length x" using Cons.prems(2) by simp
    have "ok (k - length x) st'" using ok' True by simp
    from Cons.IH [OF this l, of w'] loop_events [OF this l, of w' ev "[]"] app L True
    show ?thesis by (simp add: input_data_def)
  next
    case False
    with app L show ?thesis by (simp add: input_data_def)
  qed
qed

end

subsection \<open>The two parsers are piecewise\<close>

text \<open>A callback that looks at one character only.\<close>

definition bytewise :: "('s, 'w, 'e) parser_cb \<Rightarrow> bool" where
  "bytewise f \<longleftrightarrow> (\<forall>st w c r. f st w (c # r) =
     map_option (\<lambda>(ret, _, s, w, e). (ret, r, s, w, e)) (f st w [c]))"

lemma bytewiseD:
  assumes "bytewise f" and "f st w [c] = Some (ret, u, s, w', e)"
  shows "f st w (c # r) = Some (ret, r, s, w', e)"
proof -
  from assms(1) have "f st w (c # r) = map_option (\<lambda>(ret, _, s, w, e). (ret, r, s, w, e)) (f st w [c])"
    unfolding bytewise_def by blast
  with assms(2) show ?thesis by simp
qed

lemma map_option_rest:
  "map_option (\<lambda>(ret, _, s, w, e). (ret, r, s, w, e))
     (map_option (\<lambda>(ret, s, w, e). (ret, r', s, w, e)) x) =
   map_option (\<lambda>(ret, s, w, e). (ret, r, s, w, e)) x"
  by (cases x) auto

lemma bytewise_start_line: "bytewise resp_on_start_line" "bytewise req_on_start_line"
  by (simp_all add: bytewise_def resp_on_start_line_def req_on_start_line_def Let_def)

lemma bytewise_head: "bytewise (resp_on_head P H hcb)" "bytewise (req_on_head P hcb')"
  by (simp_all add: bytewise_def resp_on_head_def req_on_head_def Let_def map_option_rest)

text \<open>
  What the header callback may do to the body for the parser to go on in memory: leave it, drop
  it, or put one of the types that \<open>auto_create_body\<close> replaces.
\<close>

definition plain_body :: "HttpBody option \<Rightarrow> bool" where
  "plain_body b \<longleftrightarrow>
     (case b of None \<Rightarrow> True | Some b \<Rightarrow> bd_type b = BODY_EMPTY \<or> b = raw_body_of raw_generate_auto)"

definition resp_plain :: "(HttpResponse \<Rightarrow> 'w \<Rightarrow> HttpResponse \<times> 'w) \<Rightarrow> bool" where
  "resp_plain hcb \<longleftrightarrow> (\<forall>m w. rs_body m = None \<longrightarrow> plain_body (rs_body (fst (hcb m w))))"

definition req_plain :: "(HttpRequest \<Rightarrow> 'w \<Rightarrow> HttpRequest \<times> 'w) \<Rightarrow> bool" where
  "req_plain hcb \<longleftrightarrow> (\<forall>m w. plain_body (rq_body m) \<longrightarrow> plain_body (rq_body (fst (hcb m w))))"

text \<open>A host where the temporary file of a big response cannot be made, as on Linux.\<close>

definition no_temp_file :: "'w host \<Rightarrow> bool" where
  "no_temp_file H \<longleftrightarrow> (\<forall>w rnd rg.
     fst (file_generate H w (''./'' @ uuid rnd @ ''.HnwHttpTemp'') rg (or HTTP_FILE_FLAG_DELETE HTTP_FILE_FLAG_CREATE)) = None)"

definition filling :: "nat \<Rightarrow> HttpBody option \<Rightarrow> bool" where
  "filling k b \<longleftrightarrow> (\<exists>cap d. b = Some (raw_filled cap d) \<and> length d < unat cap \<and>
     length d + k < 18446744073709551616)"

definition resp_ok ::
  "'w host \<Rightarrow> (HttpResponse \<Rightarrow> 'w \<Rightarrow> HttpResponse \<times> 'w) \<Rightarrow> nat \<Rightarrow> resp_parser \<Rightarrow> bool" where
  "resp_ok H hcb k st \<longleftrightarrow> resp_plain hcb \<and> no_temp_file H \<and> k < 18446744073709551616 \<and>
     (parser_status st \<in> {START_LINE, HEAD} \<and> rs_body (parser_tmp st) = None \<or>
      parser_status st = BODY \<and> filling k (rs_body (parser_tmp st)))"

definition req_ok :: "(HttpRequest \<Rightarrow> 'w \<Rightarrow> HttpRequest \<times> 'w) \<Rightarrow> nat \<Rightarrow> req_parser \<Rightarrow> bool" where
  "req_ok hcb k st \<longleftrightarrow> req_plain hcb \<and> k < 18446744073709551616 \<and>
     (parser_status st \<in> {START_LINE, HEAD} \<and> plain_body (rq_body (parser_tmp st)) \<or>
      parser_status st = BODY \<and> filling k (rq_body (parser_tmp st)))"

lemma resp_reset_ok: "resp_plain hcb \<Longrightarrow> no_temp_file H \<Longrightarrow> k < 18446744073709551616 \<Longrightarrow>
    resp_ok H hcb k resp_reset"
  by (simp add: resp_ok_def resp_reset_def HttpResponse_new_def)

lemma req_reset_ok: "req_plain hcb \<Longrightarrow> k < 18446744073709551616 \<Longrightarrow> req_ok hcb k req_reset"
  by (simp add: req_ok_def req_reset_def HttpRequest_new_def plain_body_def)

lemma plain_body_complete:
  "plain_body (Some b) \<Longrightarrow> bd_type b \<noteq> BODY_EMPTY \<Longrightarrow> is_complete b"
  by (simp add: plain_body_def is_complete_def raw_body_of_def base_body_def raw_generate_auto_def
      raw_is_complete_def)

lemma raw_new_complete: "is_complete (raw_body_of (raw_generate cap)) \<longleftrightarrow> unat cap = 0"
  using raw_filled_complete [of "[]" cap] by (auto simp: raw_filled_Nil)

lemma filling_new: "unat cap \<noteq> 0 \<Longrightarrow> k < 18446744073709551616 \<Longrightarrow>
    filling k (Some (raw_body_of (raw_generate cap)))"
  unfolding filling_def raw_filled_Nil [symmetric] by (intro exI [of _ cap] exI [of _ "[]"]) simp

lemma resp_head_end_ok:
  assumes "resp_ok H hcb k st" and "parser_status st = HEAD" and "k' \<le> k"
  shows "\<exists>ret st' w' ev. resp_head_end P H hcb st w = Some (ret, st', w', ev) \<and>
    (ret = HNW_BASE_OK \<longrightarrow> resp_ok H hcb k' st')"
proof -
  obtain m w1 where m: "hcb (parser_tmp st) w = (m, w1)" by (cases "hcb (parser_tmp st) w")
  have pl: "resp_plain hcb" and nt: "no_temp_file H" and k: "k' < 18446744073709551616"
    and st: "rs_body (parser_tmp st) = None"
    using assms by (auto simp: resp_ok_def)
  have pb: "plain_body (rs_body m)"
    using pl st m unfolding resp_plain_def by (metis fst_conv)
  note rs = resp_reset_ok [OF pl nt k]
  show ?thesis
  proof (cases "case rs_body m of None \<Rightarrow> True | Some b \<Rightarrow> bd_type b = BODY_EMPTY")
    case True
    show ?thesis
    proof (cases "get_head_int64 P (rs_head m) HTTP_LEN 0 \<le> 1024 * 1024 * 10")
      case sz: True
      let ?cap = "of_int (get_head_int64 P (rs_head m) HTTP_LEN 0) :: u64"
      have ac: "response_auto_create_body P H w1 m =
          (True, w1, m\<lparr>rs_body := Some (raw_body_of (raw_generate ?cap))\<rparr>)"
        using sz by (simp add: response_auto_create_body_def Let_def)
      show ?thesis
        using True rs filling_new [of ?cap k'] pl nt k
        by (auto simp: resp_head_end_def m ac raw_new_complete resp_push_def resp_ok_def Let_def)
    next
      case sz: False
      obtain rnd w2 where hr: "host_rand H w1 = (rnd, w2)" by (cases "host_rand H w1")
      obtain b w3 where g: "file_generate H w2 (''./'' @ uuid rnd @ ''.HnwHttpTemp'')
          (HttpRange_default\<lparr>rg_total := of_int (get_head_int64 P (rs_head m) HTTP_LEN 0)\<rparr>)
          (or HTTP_FILE_FLAG_DELETE HTTP_FILE_FLAG_CREATE) = (b, w3)" by fastforce
      from nt have "b = None" unfolding no_temp_file_def using g by (metis fst_conv)
      then have ac: "response_auto_create_body P H w1 m = (True, w3, m\<lparr>rs_body := None\<rparr>)"
        using sz g hr by (simp add: response_auto_create_body_def Let_def)
      show ?thesis using True
        by (simp add: resp_head_end_def m ac Let_def)
    qed
  next
    case False
    then obtain b where "rs_body m = Some b" and "bd_type b \<noteq> BODY_EMPTY"
      by (auto split: option.splits)
    with pb rs show ?thesis
      by (simp add: resp_head_end_def m Let_def plain_body_complete resp_push_def)
  qed
qed

lemma req_head_end_ok:
  assumes "req_ok hcb k st" and "parser_status st = HEAD" and "k' \<le> k"
  shows "\<exists>ret st' w' ev. req_head_end P hcb st w = Some (ret, st', w', ev) \<and>
    (ret = HNW_BASE_OK \<longrightarrow> req_ok hcb k' st')"
proof -
  obtain m w1 where m: "hcb (parser_tmp st) w = (m, w1)" by (cases "hcb (parser_tmp st) w")
  have pl: "req_plain hcb" and k: "k' < 18446744073709551616"
    and st: "plain_body (rq_body (parser_tmp st))"
    using assms by (auto simp: req_ok_def)
  have pb: "plain_body (rq_body m)"
    using pl st m unfolding req_plain_def by (metis fst_conv)
  note rs = req_reset_ok [OF pl k]
  show ?thesis
  proof (cases "case rq_body m of None \<Rightarrow> True | Some b \<Rightarrow> bd_type b = BODY_EMPTY")
    case True
    let ?cap = "of_int (get_head_int64 P (rq_head m) HTTP_LEN 0) :: u64"
    show ?thesis
      using True rs filling_new [of ?cap k'] pl k
      by (auto simp: req_head_end_def request_auto_create_body_def m raw_new_complete req_push_def
          req_ok_def Let_def)
  next
    case False
    then obtain b where "rq_body m = Some b" and "bd_type b \<noteq> BODY_EMPTY"
      by (auto split: option.splits)
    with pb rs show ?thesis
      by (simp add: req_head_end_def m Let_def plain_body_complete req_push_def)
  qed
qed

text \<open>One character outside the body.\<close>

lemma resp_step_byte:
  assumes "resp_ok H hcb k st" and "parser_status st \<noteq> BODY" and "0 < k"
  shows "\<exists>ret st' w' ev. (\<forall>r. resp_step P H hcb st w (c # r) = Some (ret, r, st', w', ev)) \<and>
    (ret = HNW_BASE_OK \<longrightarrow> resp_ok H hcb (k - 1) st')"
proof -
  define f where "f = (if parser_status st = START_LINE then resp_on_start_line else resp_on_head P H hcb)"
  have st: "parser_status st = START_LINE \<or> parser_status st = HEAD"
    and nb: "rs_body (parser_tmp st) = None"
    using assms(1,2) by (auto simp: resp_ok_def)
  have step: "resp_step P H hcb st w x = f st w x" for x
    using st by (auto simp: resp_step_def call_parser_cb_def resp_cb_map_def f_def)
  have bw: "bytewise f" by (simp add: f_def bytewise_start_line bytewise_head)
  have "\<exists>ret u st' w' ev. f st w [c] = Some (ret, u, st', w', ev) \<and>
    (ret = HNW_BASE_OK \<longrightarrow> resp_ok H hcb (k - 1) st')"
  proof (cases "parser_status st = START_LINE")
    case True
    with assms(1) nb show ?thesis
      by (auto simp: f_def resp_on_start_line_def Let_def resp_ok_def)
  next
    case False
    then have h: "parser_status st = HEAD" using st by simp
    with assms(1) nb resp_head_end_ok [OF assms(1) h, of "k - 1" P w] show ?thesis
      by (fastforce simp: f_def resp_on_head_def Let_def resp_ok_def)
  qed
  then show ?thesis using bytewiseD [OF bw] by (simp only: step) blast
qed

lemma req_step_byte:
  assumes "req_ok hcb k st" and "parser_status st \<noteq> BODY" and "0 < k"
  shows "\<exists>ret st' w' ev. (\<forall>r. req_step P H hcb st w (c # r) = Some (ret, r, st', w', ev)) \<and>
    (ret = HNW_BASE_OK \<longrightarrow> req_ok hcb (k - 1) st')"
proof -
  define f where "f = (if parser_status st = START_LINE then req_on_start_line else req_on_head P hcb)"
  have st: "parser_status st = START_LINE \<or> parser_status st = HEAD"
    and nb: "plain_body (rq_body (parser_tmp st))"
    using assms(1,2) by (auto simp: req_ok_def)
  have step: "req_step P H hcb st w x = f st w x" for x
    using st by (auto simp: req_step_def call_parser_cb_def req_cb_map_def f_def)
  have bw: "bytewise f" by (simp add: f_def bytewise_start_line bytewise_head)
  have "\<exists>ret u st' w' ev. f st w [c] = Some (ret, u, st', w', ev) \<and>
    (ret = HNW_BASE_OK \<longrightarrow> req_ok hcb (k - 1) st')"
  proof (cases "parser_status st = START_LINE")
    case True
    with assms(1) nb show ?thesis
      by (auto simp: f_def req_on_start_line_def Let_def req_ok_def)
  next
    case False
    then have h: "parser_status st = HEAD" using st by simp
    with assms(1) nb req_head_end_ok [OF assms(1) h, of "k - 1" P w] show ?thesis
      by (fastforce simp: f_def req_on_head_def Let_def req_ok_def)
  qed
  then show ?thesis using bytewiseD [OF bw] by (simp only: step) blast
qed

text \<open>A piece of the body.\<close>

definition resp_filled :: "HttpResponse \<Rightarrow> u64 \<Rightarrow> string \<Rightarrow> HttpResponse" where
  "resp_filled m cap d = m\<lparr>rs_body := Some (raw_filled cap d)\<rparr>"

lemma resp_on_body_write:
  assumes "rs_body (parser_tmp st) = Some (raw_filled cap d)" and "length d < unat cap"
    and "length d + length x < 18446744073709551616"
  shows "resp_on_body H st w x =
    (let n = min (length x) (unat cap - length d);
         m = resp_filled (parser_tmp st) cap (d @ take n x)
     in if unat cap - length d \<le> length x
        then Some (HNW_BASE_OK, drop n x, resp_reset, w, [RecvMessage m])
        else Some (HNW_BASE_OK, [], st\<lparr>parser_tmp := m\<rparr>, w, []))"
proof -
  let ?n = "min (length x) (unat cap - length d)"
  have "write_body H w (raw_filled cap d) x = Some (?n, w, raw_filled cap (d @ take ?n x))"
    using raw_filled_write [of d cap x H w] assms by (simp add: Let_def)
  moreover have "is_complete (raw_filled cap (d @ take ?n x)) \<longleftrightarrow> unat cap - length d \<le> length x"
    using raw_filled_complete [of "d @ take ?n x" cap] assms by auto
  ultimately show ?thesis
    using assms(1) by (simp add: resp_on_body_def resp_push_def resp_filled_def Let_def)
qed

definition req_filled :: "HttpRequest \<Rightarrow> u64 \<Rightarrow> string \<Rightarrow> HttpRequest" where
  "req_filled m cap d = m\<lparr>rq_body := Some (raw_filled cap d)\<rparr>"

lemma req_on_body_write:
  assumes "rq_body (parser_tmp st) = Some (raw_filled cap d)" and "length d < unat cap"
    and "length d + length x < 18446744073709551616"
  shows "req_on_body H st w x =
    (let n = min (length x) (unat cap - length d);
         m = req_filled (parser_tmp st) cap (d @ take n x)
     in if unat cap - length d \<le> length x
        then Some (HNW_BASE_OK, drop n x, req_reset, w, [RecvMessage m])
        else Some (HNW_BASE_OK, [], st\<lparr>parser_tmp := m\<rparr>, w, []))"
proof -
  let ?n = "min (length x) (unat cap - length d)"
  have "write_body H w (raw_filled cap d) x = Some (?n, w, raw_filled cap (d @ take ?n x))"
    using raw_filled_write [of d cap x H w] assms by (simp add: Let_def)
  moreover have "is_complete (raw_filled cap (d @ take ?n x)) \<longleftrightarrow> unat cap - length d \<le> length x"
    using raw_filled_complete [of "d @ take ?n x" cap] assms by auto
  ultimately show ?thesis
    using assms(1) by (simp add: req_on_body_def req_push_def req_filled_def Let_def)
qed

lemma resp_step_body: "parser_status st = BODY \<Longrightarrow> resp_step P H hcb st = resp_on_body H st"
  by (intro ext) (simp add: resp_step_def call_parser_cb_def resp_cb_map_def)

lemma req_step_body: "parser_status st = BODY \<Longrightarrow> req_step P H hcb st = req_on_body H st"
  by (intro ext) (simp add: req_step_def call_parser_cb_def req_cb_map_def)

interpretation resp_pieces: piecewise_parser "resp_step P H hcb" "resp_ok H hcb"
proof
  fix k :: nat and st :: resp_parser and w and x y :: string and ret rest st' w' ev
  assume ok: "resp_ok H hcb k st" and x: "x \<noteq> []"
  obtain c r where cr: "x = c # r" using x by (cases x) auto
  have lim: "k < 18446744073709551616" and pl: "resp_plain hcb" and nt: "no_temp_file H"
    using ok by (simp_all add: resp_ok_def)
  show "\<exists>ret rest st' w' ev. resp_step P H hcb st w x = Some (ret, rest, st', w', ev) \<and>
      (\<exists>used. used \<noteq> [] \<and> x = used @ rest \<and> (ret = HNW_BASE_OK \<longrightarrow> resp_ok H hcb (k - length used) st'))"
    if lx: "length x \<le> k"
  proof (cases "parser_status st = BODY")
    case False
    have "0 < k" using lx cr by simp
    from resp_step_byte [OF ok False this, of P w c]
    obtain ret st' w' ev where s: "resp_step P H hcb st w (c # r) = Some (ret, r, st', w', ev)"
      and o: "ret = HNW_BASE_OK \<longrightarrow> resp_ok H hcb (k - 1) st'" by blast
    show ?thesis
      by (intro exI conjI, unfold cr, rule s, rule not_Cons_self2 [of c "[]"]) (use o in simp_all)
  next
    case True
    then obtain cap d where b: "rs_body (parser_tmp st) = Some (raw_filled cap d)"
      and d: "length d < unat cap" "length d + k < 18446744073709551616"
      using ok by (auto simp: resp_ok_def filling_def)
    let ?n = "min (length x) (unat cap - length d)"
    have w: "length d + length x < 18446744073709551616" using d(2) lx by simp
    note s = resp_on_body_write [OF b d(1) w, of H w]
    show ?thesis
    proof (cases "unat cap - length d \<le> length x")
      case full: True
      obtain m where "resp_step P H hcb st w x =
          Some (HNW_BASE_OK, drop ?n x, resp_reset, w, [RecvMessage m])"
        using s full unfolding resp_step_body [OF True] by (simp add: Let_def)
      moreover have "take ?n x \<noteq> []" using x d(1) by simp
      moreover have "x = take ?n x @ drop ?n x" by (simp only: append_take_drop_id)
      moreover have "resp_ok H hcb (k - length (take ?n x)) resp_reset"
        by (rule resp_reset_ok [OF pl nt]) (use lim in simp)
      ultimately show ?thesis by blast
    next
      case False
      then have "filling (k - length x) (Some (raw_filled cap (d @ x)))"
        unfolding filling_def using d lx by (intro exI [of _ cap] exI [of _ "d @ x"]) simp
      then show ?thesis
        using s False x pl nt lim True unfolding resp_step_body [OF True]
        by (simp add: Let_def resp_ok_def resp_filled_def)
    qed
  qed
  show "resp_step P H hcb st w (x @ y) = Some (ret, rest @ y, st', w', ev)"
    if lxy: "length (x @ y) \<le> k" and s: "resp_step P H hcb st w x = Some (ret, rest, st', w', ev)"
      and r: "rest \<noteq> [] \<or> ret \<noteq> HNW_BASE_OK"
  proof (cases "parser_status st = BODY")
    case False
    have "0 < k" using lxy cr by simp
    from resp_step_byte [OF ok False this, of P w c] s show ?thesis unfolding cr by fastforce
  next
    case True
    then obtain cap d where b: "rs_body (parser_tmp st) = Some (raw_filled cap d)"
      and d: "length d < unat cap" "length d + k < 18446744073709551616"
      using ok by (auto simp: resp_ok_def filling_def)
    have w1: "length d + length x < 18446744073709551616"
      and w2: "length d + length (x @ y) < 18446744073709551616" using d(2) lxy by simp_all
    have full: "unat cap - length d \<le> length x" and "unat cap - length d \<noteq> length x \<or> rest = []"
      using s r unfolding resp_step_body [OF True] resp_on_body_write [OF b d(1) w1]
      by (auto simp: Let_def split: if_splits)
    then show ?thesis
      using s resp_on_body_write [OF b d(1) w2, of H w]
      unfolding resp_step_body [OF True] resp_on_body_write [OF b d(1) w1]
      by (simp add: Let_def)
  qed
  show "resp_step P H hcb st w (x @ y) = Some (HNW_BASE_OK, y, st', w', ev) \<or>
      resp_step P H hcb st w (x @ y) =
        map_option (\<lambda>(ret, rest, s, w, e). (ret, rest, s, w, ev @ e)) (resp_step P H hcb st' w' y)"
    if y: "y \<noteq> []" and lxy: "length (x @ y) \<le> k"
      and s: "resp_step P H hcb st w x = Some (HNW_BASE_OK, [], st', w', ev)"
  proof (cases "parser_status st = BODY")
    case False
    have "0 < k" using lxy cr by simp
    from resp_step_byte [OF ok False this, of P w c] s show ?thesis unfolding cr by fastforce
  next
    case True
    then obtain cap d where b: "rs_body (parser_tmp st) = Some (raw_filled cap d)"
      and d: "length d < unat cap" "length d + k < 18446744073709551616"
      using ok by (auto simp: resp_ok_def filling_def)
    have w1: "length d + length x < 18446744073709551616"
      and w2: "length d + length (x @ y) < 18446744073709551616" using d(2) lxy by simp_all
    show ?thesis
    proof (cases "unat cap - length d \<le> length x")
      case full: True
      then have "length x = unat cap - length d"
        using s unfolding resp_step_body [OF True] resp_on_body_write [OF b d(1) w1]
        by (simp add: Let_def)
      then show ?thesis
        using s full resp_on_body_write [OF b d(1) w2, of H w]
        unfolding resp_step_body [OF True] resp_on_body_write [OF b d(1) w1]
        by (simp add: Let_def)
    next
      case nf: False
      have st': "st' = st\<lparr>parser_tmp := resp_filled (parser_tmp st) cap (d @ x)\<rparr>" and ev: "ev = []"
        and w': "w' = w"
        using s nf unfolding resp_step_body [OF True] resp_on_body_write [OF b d(1) w1]
        by (simp_all add: Let_def)
      have b': "rs_body (parser_tmp st') = Some (raw_filled cap (d @ x))"
        by (simp add: st' resp_filled_def)
      have d': "length (d @ x) < unat cap" and w3: "length (d @ x) + length y < 18446744073709551616"
        using nf d(1) w2 by simp_all
      have t: "parser_status st' = BODY" using True by (simp add: st')
      have "unat cap - length d - length x = unat cap - (length d + length x)" by simp
      then show ?thesis using nf
        unfolding resp_step_body [OF True] resp_step_body [OF t] resp_on_body_write [OF b d(1) w2]
          resp_on_body_write [OF b' d' w3] ev w'
        by (auto simp: Let_def st' resp_filled_def min_def)
    qed
  qed
qed

interpretation req_pieces: piecewise_parser "req_step P (H :: 'w host) hcb" "req_ok hcb"
proof
  fix k :: nat and st :: req_parser and w :: 'w and x y :: string and ret rest st' and w' :: 'w and ev
  assume ok: "req_ok hcb k st" and x: "x \<noteq> []"
  obtain c r where cr: "x = c # r" using x by (cases x) auto
  have lim: "k < 18446744073709551616" and pl: "req_plain hcb"
    using ok by (simp_all add: req_ok_def)
  show "\<exists>ret rest st' w' ev. req_step P H hcb st w x = Some (ret, rest, st', w', ev) \<and>
      (\<exists>used. used \<noteq> [] \<and> x = used @ rest \<and> (ret = HNW_BASE_OK \<longrightarrow> req_ok hcb (k - length used) st'))"
    if lx: "length x \<le> k"
  proof (cases "parser_status st = BODY")
    case False
    have "0 < k" using lx cr by simp
    from req_step_byte [OF ok False this, of P H w c]
    obtain ret st' w' ev where s: "req_step P H hcb st w (c # r) = Some (ret, r, st', w', ev)"
      and o: "ret = HNW_BASE_OK \<longrightarrow> req_ok hcb (k - 1) st'" by blast
    show ?thesis
      by (intro exI conjI, unfold cr, rule s, rule not_Cons_self2 [of c "[]"]) (use o in simp_all)
  next
    case True
    then obtain cap d where b: "rq_body (parser_tmp st) = Some (raw_filled cap d)"
      and d: "length d < unat cap" "length d + k < 18446744073709551616"
      using ok by (auto simp: req_ok_def filling_def)
    let ?n = "min (length x) (unat cap - length d)"
    have w: "length d + length x < 18446744073709551616" using d(2) lx by simp
    note s = req_on_body_write [OF b d(1) w, of H w]
    show ?thesis
    proof (cases "unat cap - length d \<le> length x")
      case full: True
      obtain m where "req_step P H hcb st w x =
          Some (HNW_BASE_OK, drop ?n x, req_reset, w, [RecvMessage m])"
        using s full unfolding req_step_body [OF True] by (simp add: Let_def)
      moreover have "take ?n x \<noteq> []" using x d(1) by simp
      moreover have "x = take ?n x @ drop ?n x" by (simp only: append_take_drop_id)
      moreover have "req_ok hcb (k - length (take ?n x)) req_reset"
        by (rule req_reset_ok [OF pl]) (use lim in simp)
      ultimately show ?thesis by blast
    next
      case False
      then have "filling (k - length x) (Some (raw_filled cap (d @ x)))"
        unfolding filling_def using d lx by (intro exI [of _ cap] exI [of _ "d @ x"]) simp
      then show ?thesis
        using s False x pl lim True unfolding req_step_body [OF True]
        by (simp add: Let_def req_ok_def req_filled_def)
    qed
  qed
  show "req_step P H hcb st w (x @ y) = Some (ret, rest @ y, st', w', ev)"
    if lxy: "length (x @ y) \<le> k" and s: "req_step P H hcb st w x = Some (ret, rest, st', w', ev)"
      and r: "rest \<noteq> [] \<or> ret \<noteq> HNW_BASE_OK"
  proof (cases "parser_status st = BODY")
    case False
    have "0 < k" using lxy cr by simp
    from req_step_byte [OF ok False this, of P H w c] s show ?thesis unfolding cr by fastforce
  next
    case True
    then obtain cap d where b: "rq_body (parser_tmp st) = Some (raw_filled cap d)"
      and d: "length d < unat cap" "length d + k < 18446744073709551616"
      using ok by (auto simp: req_ok_def filling_def)
    have w1: "length d + length x < 18446744073709551616"
      and w2: "length d + length (x @ y) < 18446744073709551616" using d(2) lxy by simp_all
    have full: "unat cap - length d \<le> length x" and "unat cap - length d \<noteq> length x \<or> rest = []"
      using s r unfolding req_step_body [OF True] req_on_body_write [OF b d(1) w1]
      by (auto simp: Let_def split: if_splits)
    then show ?thesis
      using s req_on_body_write [OF b d(1) w2, of H w]
      unfolding req_step_body [OF True] req_on_body_write [OF b d(1) w1]
      by (simp add: Let_def)
  qed
  show "req_step P H hcb st w (x @ y) = Some (HNW_BASE_OK, y, st', w', ev) \<or>
      req_step P H hcb st w (x @ y) =
        map_option (\<lambda>(ret, rest, s, w, e). (ret, rest, s, w, ev @ e)) (req_step P H hcb st' w' y)"
    if y: "y \<noteq> []" and lxy: "length (x @ y) \<le> k"
      and s: "req_step P H hcb st w x = Some (HNW_BASE_OK, [], st', w', ev)"
  proof (cases "parser_status st = BODY")
    case False
    have "0 < k" using lxy cr by simp
    from req_step_byte [OF ok False this, of P H w c] s show ?thesis unfolding cr by fastforce
  next
    case True
    then obtain cap d where b: "rq_body (parser_tmp st) = Some (raw_filled cap d)"
      and d: "length d < unat cap" "length d + k < 18446744073709551616"
      using ok by (auto simp: req_ok_def filling_def)
    have w1: "length d + length x < 18446744073709551616"
      and w2: "length d + length (x @ y) < 18446744073709551616" using d(2) lxy by simp_all
    show ?thesis
    proof (cases "unat cap - length d \<le> length x")
      case full: True
      then have "length x = unat cap - length d"
        using s unfolding req_step_body [OF True] req_on_body_write [OF b d(1) w1]
        by (simp add: Let_def)
      then show ?thesis
        using s full req_on_body_write [OF b d(1) w2, of H w]
        unfolding req_step_body [OF True] req_on_body_write [OF b d(1) w1]
        by (simp add: Let_def)
    next
      case nf: False
      have st': "st' = st\<lparr>parser_tmp := req_filled (parser_tmp st) cap (d @ x)\<rparr>" and ev: "ev = []"
        and w': "w' = w"
        using s nf unfolding req_step_body [OF True] req_on_body_write [OF b d(1) w1]
        by (simp_all add: Let_def)
      have b': "rq_body (parser_tmp st') = Some (raw_filled cap (d @ x))"
        by (simp add: st' req_filled_def)
      have d': "length (d @ x) < unat cap" and w3: "length (d @ x) + length y < 18446744073709551616"
        using nf d(1) w2 by simp_all
      have t: "parser_status st' = BODY" using True by (simp add: st')
      have "unat cap - length d - length x = unat cap - (length d + length x)" by simp
      then show ?thesis using nf
        unfolding req_step_body [OF True] req_step_body [OF t] req_on_body_write [OF b d(1) w2]
          req_on_body_write [OF b' d' w3] ev w'
        by (auto simp: Let_def st' req_filled_def min_def)
    qed
  qed
qed

subsection \<open>Reading printed messages\<close>

definition plain_text :: "string \<Rightarrow> bool" where
  "plain_text s \<longleftrightarrow> CR \<notin> set s \<and> LF \<notin> set s"

lemma plain_text_simps [simp]:
  "plain_text []" "plain_text (a @ b) \<longleftrightarrow> plain_text a \<and> plain_text b"
  "plain_text (c # s) \<longleftrightarrow> c \<noteq> CR \<and> c \<noteq> LF \<and> plain_text s"
  by (auto simp: plain_text_def)

lemma CR_LF_distinct [simp]: "CR \<noteq> LF" "LF \<noteq> CR"
  by (simp_all add: CR_def LF_def)

lemma input_data_loop_OK:
  "step st w x = Some (HNW_BASE_OK, r, st', w', ev) \<Longrightarrow> x \<noteq> [] \<Longrightarrow>
     input_data_loop step st w x evs = input_data_loop step st' w' r (evs @ ev)"
  by (subst input_data_loop.simps) simp

lemmas resp_loop_OK = input_data_loop_OK [where step = "resp_step P H hcb" for P H hcb]
lemmas req_loop_OK = input_data_loop_OK [where step = "req_step P H hcb" for P H hcb]

definition in_lines :: "'m parser \<Rightarrow> bool" where
  "in_lines st \<longleftrightarrow> parser_status st \<in> {START_LINE, HEAD}"

lemma resp_step_char:
  "in_lines st \<Longrightarrow> plain_text [c] \<Longrightarrow>
     resp_step P H hcb st w (c # r) =
       Some (HNW_BASE_OK, r, st\<lparr>parser_cache1 := parser_cache1 st @ [c]\<rparr>, w, [])"
  by (auto simp: in_lines_def resp_step_def call_parser_cb_def resp_cb_map_def
      resp_on_start_line_def resp_on_head_def)

lemma resp_step_CR:
  "in_lines st \<Longrightarrow> resp_step P H hcb st w (CR # r) = Some (HNW_BASE_OK, r, st, w, [])"
  by (auto simp: in_lines_def resp_step_def call_parser_cb_def resp_cb_map_def
      resp_on_start_line_def resp_on_head_def)

lemma req_step_char:
  "in_lines st \<Longrightarrow> plain_text [c] \<Longrightarrow>
     req_step P H hcb st w (c # r) =
       Some (HNW_BASE_OK, r, st\<lparr>parser_cache1 := parser_cache1 st @ [c]\<rparr>, w, [])"
  by (auto simp: in_lines_def req_step_def call_parser_cb_def req_cb_map_def
      req_on_start_line_def req_on_head_def)

lemma req_step_CR:
  "in_lines st \<Longrightarrow> req_step P H hcb st w (CR # r) = Some (HNW_BASE_OK, r, st, w, [])"
  by (auto simp: in_lines_def req_step_def call_parser_cb_def req_cb_map_def
      req_on_start_line_def req_on_head_def)

text \<open>
  A step function that collects the characters of a line, as both parsers do; the text of a
  line and its CR end up in the cache, and the LF is left to the parser.
\<close>

definition collects :: "('m parser, 'w, 'e) parser_cb \<Rightarrow> bool" where
  "collects step \<longleftrightarrow> (\<forall>st w c r. in_lines st \<longrightarrow>
     (plain_text [c] \<longrightarrow> step st w (c # r) =
        Some (HNW_BASE_OK, r, st\<lparr>parser_cache1 := parser_cache1 st @ [c]\<rparr>, w, [])) \<and>
     step st w (CR # r) = Some (HNW_BASE_OK, r, st, w, []))"

lemma collects_steps: "collects (resp_step P H hcb)" "collects (req_step P H hcb')"
  by (simp_all add: collects_def resp_step_char resp_step_CR req_step_char req_step_CR
      del: plain_text_simps)

lemma loop_line:
  "collects step \<Longrightarrow> in_lines st \<Longrightarrow> plain_text t \<Longrightarrow>
     input_data_loop step st w (t @ CRLF @ r) evs =
       input_data_loop step (st\<lparr>parser_cache1 := parser_cache1 st @ t\<rparr>) w (LF # r) evs"
proof (induction t arbitrary: st)
  case Nil
  then have "step st w (CR # LF # r) = Some (HNW_BASE_OK, LF # r, st, w, [])"
    by (simp add: collects_def)
  from input_data_loop_OK [where step = step, OF this, of evs] show ?case by (simp add: CRLF_def CR_def LF_def)
next
  case (Cons c t)
  then have "step st w (c # t @ CRLF @ r) =
      Some (HNW_BASE_OK, t @ CRLF @ r, st\<lparr>parser_cache1 := parser_cache1 st @ [c]\<rparr>, w, [])"
    by (simp add: collects_def)
  from input_data_loop_OK [where step = step, OF this, of evs]
    Cons.IH [of "st\<lparr>parser_cache1 := parser_cache1 st @ [c]\<rparr>"] Cons.prems
  show ?case by (simp add: in_lines_def)
qed

text \<open>A header field that the writer and the reader agree on.\<close>

definition field_ok :: "string \<times> string \<Rightarrow> bool" where
  "field_ok p \<longleftrightarrow> plain_text (fst p) \<and> plain_text (snd p) \<and> CHR '':'' \<notin> set (fst p) \<and>
     find0 HEAD_SPLIT (snd p) = None"

lemma split_field:
  "field_ok p \<Longrightarrow> split (fst p @ HEAD_SPLIT @ snd p) HEAD_SPLIT = [fst p, snd p]"
  by (simp add: field_ok_def HEAD_SPLIT_def split_pair_append split_None)

lemma field_text_ok: "field_ok p \<Longrightarrow> plain_text (fst p @ HEAD_SPLIT @ snd p)"
  by (simp add: field_ok_def HEAD_SPLIT_def CR_def LF_def)

subsection \<open>Reading printed responses\<close>

definition resp_at_head :: "ResponseLine \<Rightarrow> heads \<Rightarrow> resp_parser" where
  "resp_at_head l h = \<lparr>parser_status = HEAD, parser_cache1 = [],
     parser_tmp = \<lparr>rs_line = l, rs_head = h, rs_body = None\<rparr>\<rparr>"

definition response_line_ok :: "ResponseLine \<Rightarrow> bool" where
  "response_line_ok l \<longleftrightarrow> plain_text (response_line_string l) \<and> CHR '' '' \<notin> set (sl_version l) \<and>
     CHR '' '' \<notin> set (sl_status_code l)"

text \<open>The reader keeps the first word of the reason.\<close>

definition read_line :: "ResponseLine \<Rightarrow> ResponseLine" where
  "read_line l = l\<lparr>sl_reason := hd (split (sl_reason l) '' '')\<rparr>"

lemma resp_loop_start_line:
  assumes "response_line_ok l"
  shows "input_data_loop (resp_step P H hcb) resp_reset w (response_line_string l @ CRLF @ r) evs =
    input_data_loop (resp_step P H hcb) (resp_at_head (read_line l) []) w r evs"
proof -
  let ?st = "resp_reset\<lparr>parser_cache1 := response_line_string l\<rparr>"
  have three: "split (response_line_string l) '' '' =
      sl_version l # sl_status_code l # split (sl_reason l) '' ''"
    unfolding response_line_string_def
    by (rule split_three_words) (use assms in \<open>simp_all add: response_line_ok_def\<close>)
  have "2 < length (split (response_line_string l) '' '')"
    unfolding three by (cases "split (sl_reason l) '' ''") simp_all
  then have "resp_step P H hcb ?st w (LF # r) =
      Some (HNW_BASE_OK, r, resp_at_head (read_line l) [], w, [])"
    by (simp add: resp_step_def call_parser_cb_def resp_cb_map_def resp_on_start_line_def
        resp_reset_def resp_at_head_def HttpResponse_new_def three hd_conv_nth [symmetric]
        status_code_def reason_def read_line_def ResponseLine_default_def Let_def)
  moreover have "plain_text (response_line_string l)" using assms by (simp add: response_line_ok_def)
  ultimately show ?thesis
    using loop_line [OF collects_steps(1), of resp_reset "response_line_string l" P H hcb w r evs]
      resp_loop_OK [of P H hcb ?st w "LF # r" r _ w "[]" evs]
    by (simp add: in_lines_def resp_reset_def)
qed

lemma resp_loop_heads:
  "\<forall>p \<in> set ps. field_ok p \<Longrightarrow>
     input_data_loop (resp_step P H hcb) (resp_at_head l h) w (concat (map head_line ps) @ r) evs =
       input_data_loop (resp_step P H hcb) (resp_at_head l (h @ ps)) w r evs"
proof (induction ps arbitrary: h)
  case Nil
  then show ?case by simp
next
  case (Cons p ps)
  let ?t = "fst p @ HEAD_SPLIT @ snd p" and ?r = "concat (map head_line ps) @ r"
  let ?st = "(resp_at_head l h)\<lparr>parser_cache1 := ?t\<rparr>"
  have p: "field_ok p" using Cons.prems by simp
  have ne: "HEAD_SPLIT \<noteq> []" by (simp add: HEAD_SPLIT_def)
  have "resp_step P H hcb ?st w (LF # ?r) =
      Some (HNW_BASE_OK, ?r, resp_at_head l (h @ [p]), w, [])"
    using split_field [OF p] ne
    by (simp add: resp_step_def call_parser_cb_def resp_cb_map_def resp_on_head_def
        resp_at_head_def add_head_def Let_def)
  from resp_loop_OK [OF this, of evs]
    loop_line [OF collects_steps(1) _ field_text_ok [OF p], of "resp_at_head l h" P H hcb w ?r evs]
  have "input_data_loop (resp_step P H hcb) (resp_at_head l h) w (?t @ CRLF @ ?r) evs =
      input_data_loop (resp_step P H hcb) (resp_at_head l (h @ [p])) w ?r evs"
    by (simp add: in_lines_def resp_at_head_def)
  moreover have "concat (map head_line (p # ps)) @ r = ?t @ CRLF @ ?r"
    by (simp add: head_line_def [of p])
  ultimately show ?case using Cons.IH [of "h @ [p]"] Cons.prems by simp
qed

text \<open>What the parser hands to its callbacks for a message it has read.\<close>

definition read_response :: "ResponseLine \<Rightarrow> heads \<Rightarrow> string \<Rightarrow> HttpResponse" where
  "read_response l h d = \<lparr>rs_line = read_line l, rs_head = h,
     rs_body = Some (raw_filled (of_nat (length d)) d)\<rparr>"

definition response_events :: "ResponseLine \<Rightarrow> heads \<Rightarrow> string \<Rightarrow> resp_event list" where
  "response_events l h d =
     [RecvHead \<lparr>rs_line = read_line l, rs_head = h, rs_body = None\<rparr>, RecvMessage (read_response l h d)]"

lemma resp_loop_body:
  assumes "get_head_int64 P h HTTP_LEN 0 = int (length d)" and "length d \<le> 1024 * 1024 * 10"
    and "length d + length r < 18446744073709551616"
  shows "input_data_loop (resp_step P H Pair) (resp_at_head (read_line l) h) w (CRLF @ d @ r) evs =
    input_data_loop (resp_step P H Pair) resp_reset w r (evs @ response_events l h d)"
proof -
  let ?st = "resp_at_head (read_line l) h" and ?cap = "of_nat (length d) :: u64"
  let ?m = "\<lparr>rs_line = read_line l, rs_head = h, rs_body = None\<rparr>"
  let ?m1 = "?m\<lparr>rs_body := Some (raw_filled ?cap [])\<rparr>"
  have cap: "unat ?cap = length d" by (rule unat_of_nat_u64) (use assms(2) in simp)
  have step_end: "resp_step P H Pair ?st w (LF # d @ r) =
      map_option (\<lambda>(ret, st, w, ev). (ret, d @ r, st, w, ev)) (resp_head_end P H Pair ?st w)"
    by (simp add: resp_step_def call_parser_cb_def resp_cb_map_def resp_on_head_def
        resp_at_head_def Let_def)
  have he: "resp_head_end P H Pair ?st w =
      (if d = [] then Some (HNW_BASE_OK, resp_reset, w, [RecvHead ?m, RecvMessage ?m1])
       else Some (HNW_BASE_OK, ?st\<lparr>parser_tmp := ?m1, parser_status := BODY\<rparr>, w, [RecvHead ?m]))"
    using assms(1,2) cap
    by (simp add: resp_head_end_def resp_at_head_def response_auto_create_body_def
        raw_new_complete raw_filled_Nil resp_push_def Let_def)
  have l0: "input_data_loop (resp_step P H Pair) ?st w (CRLF @ d @ r) evs =
      input_data_loop (resp_step P H Pair) ?st w (LF # d @ r) evs"
    using loop_line [OF collects_steps(1), of ?st "[]" P H Pair w "d @ r" evs]
    by (simp add: in_lines_def resp_at_head_def)
  show ?thesis
  proof (cases "d = []")
    case True
    with step_end he
    have "resp_step P H Pair ?st w (LF # d @ r) =
        Some (HNW_BASE_OK, r, resp_reset, w, response_events l h d)"
      by (simp add: response_events_def read_response_def)
    from resp_loop_OK [OF this, of evs] l0 show ?thesis by simp
  next
    case False
    let ?st1 = "?st\<lparr>parser_tmp := ?m1, parser_status := BODY\<rparr>"
    have "resp_step P H Pair ?st w (LF # d @ r) = Some (HNW_BASE_OK, d @ r, ?st1, w, [RecvHead ?m])"
      using False step_end he by simp
    from resp_loop_OK [OF this, of evs] l0
    have l1: "input_data_loop (resp_step P H Pair) ?st w (CRLF @ d @ r) evs =
      input_data_loop (resp_step P H Pair) ?st1 w (d @ r) (evs @ [RecvHead ?m])" by simp
    have b: "rs_body (parser_tmp ?st1) = Some (raw_filled ?cap [])"
      and t: "parser_status ?st1 = BODY" by simp_all
    have "resp_step P H Pair ?st1 w (d @ r) =
        Some (HNW_BASE_OK, r, resp_reset, w, [RecvMessage (read_response l h d)])"
      unfolding resp_step_body [OF t]
      using resp_on_body_write [OF b, of "d @ r" H w] False assms(3) cap
      by (simp add: Let_def resp_filled_def read_response_def)
    from resp_loop_OK [OF this, of "evs @ [RecvHead ?m]"] l1 False show ?thesis
      by (simp add: response_events_def)
  qed
qed

definition response_text :: "ResponseLine \<Rightarrow> heads \<Rightarrow> string \<Rightarrow> string" where
  "response_text l ps d =
     response_line_string l @ CRLF @ concat (map head_line ps) @ CRLF @ d"

text \<open>A response whose text the parser can take apart: \<open>ps\<close> are the fields as printed.\<close>

definition response_ok :: "platform \<Rightarrow> ResponseLine \<Rightarrow> heads \<Rightarrow> string \<Rightarrow> bool" where
  "response_ok P l ps d \<longleftrightarrow> response_line_ok l \<and> (\<forall>p \<in> set ps. field_ok p) \<and>
     get_head_int64 P ps HTTP_LEN 0 = int (length d) \<and> length d \<le> 1024 * 1024 * 10"

lemma resp_loop_message:
  assumes "response_ok P l ps d" and "length d + length r < 18446744073709551616"
  shows "input_data_loop (resp_step P H Pair) resp_reset w (response_text l ps d @ r) evs =
    input_data_loop (resp_step P H Pair) resp_reset w r (evs @ response_events l ps d)"
proof -
  have "input_data_loop (resp_step P H Pair) resp_reset w (response_text l ps d @ r) evs =
    input_data_loop (resp_step P H Pair) (resp_at_head (read_line l) []) w
      (concat (map head_line ps) @ CRLF @ d @ r) evs"
    using resp_loop_start_line [of l P H Pair w _ evs] assms(1)
    by (simp add: response_ok_def response_text_def)
  also have "\<dots> = input_data_loop (resp_step P H Pair) (resp_at_head (read_line l) ps) w
      (CRLF @ d @ r) evs"
    using resp_loop_heads [of ps P H Pair "read_line l" "[]" w "CRLF @ d @ r" evs] assms(1)
    by (simp add: response_ok_def)
  also have "\<dots> = input_data_loop (resp_step P H Pair) resp_reset w r (evs @ response_events l ps d)"
    by (rule resp_loop_body) (use assms in \<open>simp_all add: response_ok_def\<close>)
  finally show ?thesis .
qed

definition responses_text :: "(ResponseLine \<times> heads \<times> string) list \<Rightarrow> string" where
  "responses_text ms = concat (map (\<lambda>(l, ps, d). response_text l ps d) ms)"

definition responses_events :: "(ResponseLine \<times> heads \<times> string) list \<Rightarrow> resp_event list" where
  "responses_events ms = concat (map (\<lambda>(l, ps, d). response_events l ps d) ms)"

lemma resp_loop_messages:
  "\<forall>(l, ps, d) \<in> set ms. response_ok P l ps d \<Longrightarrow> length (responses_text ms) < 18446744073709551616 \<Longrightarrow>
     input_data_loop (resp_step P H Pair) resp_reset w (responses_text ms) evs =
       Some (HNW_BASE_OK, resp_reset, w, evs @ responses_events ms)"
proof (induction ms arbitrary: evs)
  case Nil
  then show ?case by (simp add: responses_text_def responses_events_def input_data_loop.simps)
next
  case (Cons m ms)
  obtain l ps d where m: "m = (l, ps, d)" by (cases m)
  have t: "responses_text (m # ms) = response_text l ps d @ responses_text ms"
    by (simp add: responses_text_def m)
  have "length d \<le> length (response_text l ps d)" by (simp add: response_text_def)
  then have len: "length d + length (responses_text ms) < 18446744073709551616"
    using Cons.prems(2) t by simp
  have "input_data_loop (resp_step P H Pair) resp_reset w (responses_text (m # ms)) evs =
      input_data_loop (resp_step P H Pair) resp_reset w (responses_text ms) (evs @ response_events l ps d)"
    unfolding t by (rule resp_loop_message [OF _ len]) (use Cons.prems(1) m in simp)
  then show ?case
    using Cons.IH [of "evs @ response_events l ps d"] Cons.prems len
    by (simp add: m t responses_events_def)
qed

subsection \<open>Reading printed requests\<close>

definition req_at_head :: "RequestLine \<Rightarrow> heads \<Rightarrow> req_parser" where
  "req_at_head l h = \<lparr>parser_status = HEAD, parser_cache1 = [],
     parser_tmp = \<lparr>rq_line = l, rq_head = h, rq_body = Some (raw_body_of raw_generate_auto)\<rparr>\<rparr>"

definition request_text_ok :: "RequestLine \<Rightarrow> bool" where
  "request_text_ok l \<longleftrightarrow> request_line_ok l \<and> plain_text (request_line_string l) \<and>
     CHR '' '' \<notin> set (rl_method l) \<and> CHR '' '' \<notin> set (rl_version l)"

lemma req_loop_start_line:
  assumes "request_text_ok l"
  shows "input_data_loop (req_step P H hcb) req_reset w (request_line_string l @ CRLF @ r) evs =
    input_data_loop (req_step P H hcb) (req_at_head l []) w r evs"
proof -
  let ?st = "req_reset\<lparr>parser_cache1 := request_line_string l\<rparr>"
  have ok: "request_line_ok l" and sp: "CHR '' '' \<notin> set (rl_method l)" "CHR '' '' \<notin> set (rl_version l)"
    using assms by (simp_all add: request_text_ok_def)
  have three: "split (request_line_string l) '' '' = [rl_method l, get_url l, rl_version l]"
    unfolding request_line_string_def
    using split_three_words [OF sp(1) get_url_no_space [OF ok], of "rl_version l"] sp(2)
    by (simp add: split_char_single)
  have url: "set_url (RequestLine_default\<lparr>rl_method := rl_method l\<rparr>) (get_url l) =
      (RequestLine_default\<lparr>rl_method := rl_method l\<rparr>)
        \<lparr>rl_path := rl_path l, rl_query_map := rl_query_map l\<rparr>"
    by (rule set_url_get_url [OF ok]) (simp add: RequestLine_default_def)
  have "req_step P H hcb ?st w (LF # r) = Some (HNW_BASE_OK, r, req_at_head l [], w, [])"
    using url by (simp add: req_step_def call_parser_cb_def req_cb_map_def req_on_start_line_def
        req_reset_def req_at_head_def HttpRequest_new_def three Let_def)
  moreover have "plain_text (request_line_string l)" using assms by (simp add: request_text_ok_def)
  ultimately show ?thesis
    using loop_line [OF collects_steps(2), of req_reset "request_line_string l" P H hcb w r evs]
      req_loop_OK [of P H hcb ?st w "LF # r" r _ w "[]" evs]
    by (simp add: in_lines_def req_reset_def)
qed

lemma req_loop_heads:
  "\<forall>p \<in> set ps. field_ok p \<Longrightarrow>
     input_data_loop (req_step P H hcb) (req_at_head l h) w (concat (map head_line ps) @ r) evs =
       input_data_loop (req_step P H hcb) (req_at_head l (h @ ps)) w r evs"
proof (induction ps arbitrary: h)
  case Nil
  then show ?case by simp
next
  case (Cons p ps)
  let ?t = "fst p @ HEAD_SPLIT @ snd p" and ?r = "concat (map head_line ps) @ r"
  let ?st = "(req_at_head l h)\<lparr>parser_cache1 := ?t\<rparr>"
  have p: "field_ok p" using Cons.prems by simp
  have ne: "HEAD_SPLIT \<noteq> []" by (simp add: HEAD_SPLIT_def)
  have "req_step P H hcb ?st w (LF # ?r) =
      Some (HNW_BASE_OK, ?r, req_at_head l (h @ [p]), w, [])"
    using split_field [OF p] ne
    by (simp add: req_step_def call_parser_cb_def req_cb_map_def req_on_head_def
        req_at_head_def add_head_def Let_def)
  from req_loop_OK [OF this, of evs]
    loop_line [OF collects_steps(2) _ field_text_ok [OF p], of "req_at_head l h" P H hcb w ?r evs]
  have "input_data_loop (req_step P H hcb) (req_at_head l h) w (?t @ CRLF @ ?r) evs =
      input_data_loop (req_step P H hcb) (req_at_head l (h @ [p])) w ?r evs"
    by (simp add: in_lines_def req_at_head_def)
  moreover have "concat (map head_line (p # ps)) @ r = ?t @ CRLF @ ?r"
    by (simp add: head_line_def [of p])
  ultimately show ?case using Cons.IH [of "h @ [p]"] Cons.prems by simp
qed

definition read_request :: "RequestLine \<Rightarrow> heads \<Rightarrow> HttpRequest" where
  "read_request l h = \<lparr>rq_line = l, rq_head = h, rq_body = Some (raw_body_of raw_generate_auto)\<rparr>"

definition request_events :: "RequestLine \<Rightarrow> heads \<Rightarrow> req_event list" where
  "request_events l h = [RecvHead (read_request l h), RecvMessage (read_request l h)]"

definition request_text :: "RequestLine \<Rightarrow> heads \<Rightarrow> string \<Rightarrow> string" where
  "request_text l ps d = request_line_string l @ CRLF @ concat (map head_line ps) @ CRLF @ d"

lemma req_loop_message:
  assumes "request_text_ok l" and "\<forall>p \<in> set ps. field_ok p"
  shows "input_data_loop (req_step P H Pair) req_reset w (request_text l ps d) evs =
    input_data_loop (req_step P H Pair) req_reset w d (evs @ request_events l ps)"
proof -
  let ?st = "req_at_head l ps"
  have "input_data_loop (req_step P H Pair) req_reset w (request_text l ps d) evs =
    input_data_loop (req_step P H Pair) ?st w (CRLF @ d) evs"
    unfolding request_text_def req_loop_start_line [OF assms(1)] req_loop_heads [OF assms(2)] by simp
  also have "\<dots> = input_data_loop (req_step P H Pair) ?st w (LF # d) evs"
    using loop_line [OF collects_steps(2), of ?st "[]" P H Pair w d evs]
    by (simp add: in_lines_def req_at_head_def)
  also have "\<dots> = input_data_loop (req_step P H Pair) req_reset w d (evs @ request_events l ps)"
  proof (rule req_loop_OK)
    show "req_step P H Pair ?st w (LF # d) =
        Some (HNW_BASE_OK, d, req_reset, w, request_events l ps)"
      by (simp add: req_step_def call_parser_cb_def req_cb_map_def req_on_head_def req_at_head_def
          req_head_end_def is_complete_def raw_is_complete_def raw_body_of_def base_body_def
          raw_generate_auto_def req_push_def request_events_def read_request_def Let_def)
  qed simp
  finally show ?thesis .
qed

lemma req_loop_messages:
  "\<forall>(l, ps) \<in> set ms. request_text_ok l \<and> (\<forall>p \<in> set ps. field_ok p) \<Longrightarrow>
     input_data_loop (req_step P H Pair) req_reset w
       (concat (map (\<lambda>(l, ps). request_text l ps []) ms) @ r) evs =
     input_data_loop (req_step P H Pair) req_reset w r
       (evs @ concat (map (\<lambda>(l, ps). request_events l ps) ms))"
proof (induction ms arbitrary: evs)
  case Nil
  then show ?case by simp
next
  case (Cons m ms)
  obtain l ps where m: "m = (l, ps)" by (cases m)
  let ?r = "concat (map (\<lambda>(l, ps). request_text l ps []) ms) @ r"
  have "request_text l ps [] @ ?r = request_text l ps ?r" by (simp add: request_text_def)
  then show ?case
    using req_loop_message [of l ps P H w ?r evs] Cons by (simp add: m)
qed

lemma loop_collect:
  "collects step \<Longrightarrow> in_lines st \<Longrightarrow> plain_text t \<Longrightarrow>
     input_data_loop step st w t evs =
       Some (HNW_BASE_OK, st\<lparr>parser_cache1 := parser_cache1 st @ t\<rparr>, w, evs)"
proof (induction t arbitrary: st)
  case Nil
  then show ?case by (simp add: input_data_loop.simps)
next
  case (Cons c t)
  then have "step st w (c # t) = Some (HNW_BASE_OK, t, st\<lparr>parser_cache1 := parser_cache1 st @ [c]\<rparr>, w, [])"
    by (simp add: collects_def)
  from input_data_loop_OK [where step = step, OF this, of evs]
    Cons.IH [of "st\<lparr>parser_cache1 := parser_cache1 st @ [c]\<rparr>"] Cons.prems
  show ?case by (simp add: in_lines_def)
qed

subsection \<open>A body that takes nothing\<close>

lemma loop_stuck_gen:
  assumes "input_data_loop step st w x evs = Some r" and "step st w x = Some (HNW_BASE_OK, x, st, w, [])"
    and "x \<noteq> []"
  shows False
proof -
  have "step st w x = Some (HNW_BASE_OK, x, st, w, []) \<and> x \<noteq> [] \<longrightarrow> False"
  proof (rule input_data_loop.raw_induct [where P = "\<lambda>step st w x evs r.
      step st w x = Some (HNW_BASE_OK, x, st, w, []) \<and> x \<noteq> [] \<longrightarrow> False", OF _ assms(1)])
    fix f :: "('s, 'w, 'e) parser_cb \<Rightarrow> 's \<Rightarrow> 'w \<Rightarrow> string \<Rightarrow> 'e list \<Rightarrow> (err_code \<times> 's \<times> 'w \<times> 'e list) option"
      and step :: "('s, 'w, 'e) parser_cb" and st w input evs r
    assume IH: "\<And>step st w x evs r. f step st w x evs = Some r \<Longrightarrow>
        step st w x = Some (HNW_BASE_OK, x, st, w, []) \<and> x \<noteq> [] \<longrightarrow> False"
      and eq: "(if input = [] then Some (HNW_BASE_OK, st, w, evs)
        else case step st w input of None \<Rightarrow> None
          | Some (ret, input, st, w, ev) \<Rightarrow>
              if ret \<noteq> HNW_BASE_OK then Some (ret, st, w, evs @ ev)
              else f step st w input (evs @ ev)) = Some r"
    show "step st w input = Some (HNW_BASE_OK, input, st, w, []) \<and> input \<noteq> [] \<longrightarrow> False"
    proof
      assume a: "step st w input = Some (HNW_BASE_OK, input, st, w, []) \<and> input \<noteq> []"
      with eq have "f step st w input evs = Some r" by simp
      from IH [OF this] a show False by blast
    qed
  qed
  with assms(2,3) show False by blast
qed

subsection \<open>Properties\<close>

text \<open>
  C8: Responses may arrive in any pieces. Feeding the pieces one by one gives the result, the
  parser and the events of feeding their concatenation at once, from every state the parser
  reaches, and it returns. (Header callbacks may replace the body by an empty one; the host
  cannot create temporary files, as on Linux.)
\<close>

theorem resp_parser_pieces:
  assumes "resp_ok H hcb k st" and "length (concat xs) \<le> k"
  shows "input_pieces (resp_step P H hcb) st w xs = input_data (resp_step P H hcb) st w (concat xs) \<and>
    input_data (resp_step P H hcb) st w (concat xs) \<noteq> None"
  using resp_pieces.pieces_concat [OF assms] resp_pieces.loop_returns [OF assms, of P w "[]"]
  by (auto simp: input_data_def)

text \<open>
  C9: Requests may arrive in any pieces, likewise, on every host.
\<close>

theorem req_parser_pieces:
  assumes "req_ok hcb k st" and "length (concat xs) \<le> k"
  shows "input_pieces (req_step P H hcb) st w xs = input_data (req_step P H hcb) st w (concat xs) \<and>
    input_data (req_step P H hcb) st w (concat xs) \<noteq> None"
  using req_pieces.pieces_concat [OF assms, of P H w] req_pieces.loop_returns [OF assms, of P H w "[]"]
  by (auto simp: input_data_def)

lemma host1_no_temp: "no_temp_file host1"
  by (simp add: no_temp_file_def file_generate_def file_init_def file_init_open_def host1_def
      FileBody_new_def Let_def)

theorem resp_parser_pieces_witness:
  "input_pieces (resp_step platform0 host1 Pair) resp_reset () [''HT'', ''TP''] =
     input_data (resp_step platform0 host1 Pair) resp_reset () ''HTTP''"
proof -
  have "resp_ok host1 Pair 4 resp_reset"
    by (rule resp_reset_ok) (simp_all add: resp_plain_def plain_body_def host1_no_temp)
  from resp_parser_pieces [OF this, of "[''HT'', ''TP'']" platform0 "()"] show ?thesis by simp
qed

theorem req_parser_pieces_witness:
  "input_pieces (req_step platform0 host1 Pair) req_reset () [''GE'', ''T''] =
     input_data (req_step platform0 host1 Pair) req_reset () ''GET''"
proof -
  have "req_ok Pair 3 (req_reset)"
    by (rule req_reset_ok) (simp_all add: req_plain_def)
  from req_parser_pieces [OF this, of "[''GE'', ''T'']" platform0 host1 "()"] show ?thesis by simp
qed

text \<open>
  C6: A stream of well-formed responses on one connection is read back message by message:
  for each the header event and then the message event, with the version and status code, the
  first word of the reason, the fields in the order sent, and the body byte for byte; the
  parser ends ready for the next response.
\<close>

theorem responses_read_back:
  assumes "\<forall>(l, ps, d) \<in> set ms. response_ok P l ps d" and "length (responses_text ms) < 2 ^ 64"
  shows "input_data (resp_step P H Pair) resp_reset w (responses_text ms) =
    Some (HNW_BASE_OK, resp_reset, w, responses_events ms)"
  using resp_loop_messages [OF assms(1), of H w "[]"] assms(2) by (simp add: input_data_def)

definition sample_heads :: heads where
  "sample_heads = [(HTTP_LEN, to_string 2), (HTTP_CT, ''text/html'')]"

lemma plain_to_string: "plain_text (to_string w)"
  unfolding plain_text_def CR_def LF_def by (simp add: to_string_notin)

lemma sample_length: "get_head_int64 platform0 sample_heads HTTP_LEN 0 = 2"
proof -
  have "HTTP_CT \<noteq> HTTP_LEN" by (simp add: HTTP_CT_def HTTP_LEN_def)
  then have "umm_group platform0 sample_heads HTTP_LEN = [(HTTP_LEN, to_string 2)]"
    by (simp add: umm_group_def sample_heads_def Let_def platform0_def)
  then have "get_head platform0 sample_heads HTTP_LEN [] = to_string 2" by (simp add: get_head_group)
  with stoll_to_string [of 2] show ?thesis by (simp add: get_head_int64_def)
qed

lemma sample_response_ok: "response_ok platform0 ResponseLine_default sample_heads ''hi''"
proof -
  have "find0 HEAD_SPLIT (to_string 2) = None"
  proof (rule ccontr)
    assume "find0 HEAD_SPLIT (to_string 2) \<noteq> None"
    then obtain p where "find0 HEAD_SPLIT (to_string 2) = Some p" by auto
    from find0_bound [OF this] have "2 \<le> length (to_string 2)" by (simp add: HEAD_SPLIT_def)
    then show False by (simp add: to_string_def show_nat.simps [of 2])
  qed
  moreover have "response_line_ok ResponseLine_default"
    by (simp add: response_line_ok_def response_line_string_def ResponseLine_default_def CR_def LF_def)
  ultimately show ?thesis
    using sample_length plain_to_string [of 2]
    by (simp add: response_ok_def sample_heads_def field_ok_def HTTP_LEN_def HTTP_CT_def CR_def LF_def
        HEAD_SPLIT_def)
qed

theorem responses_read_back_witness:
  "input_data (resp_step platform0 host1 Pair) resp_reset ()
     (responses_text [(ResponseLine_default, sample_heads, ''hi'')]) =
   Some (HNW_BASE_OK, resp_reset, (),
     responses_events [(ResponseLine_default, sample_heads, ''hi'')])"
proof (rule responses_read_back)
  show "length (responses_text [(ResponseLine_default, sample_heads, ''hi'')]) < 2 ^ 64"
    using to_string_length [of 2]
    by (simp add: responses_text_def response_text_def response_line_string_def
        ResponseLine_default_def sample_heads_def head_line_def HTTP_LEN_def HTTP_CT_def CRLF_def
        HEAD_SPLIT_def)
qed (simp add: sample_response_ok)

text \<open>
  C7: Requests are read back one by one, with method, URL (path and query map), version and the
  fields in the order sent, but never with a body: whatever the Content-Length field says, the
  request is handed out at the end of its header with an empty body, and the bytes of its body
  are taken for the start line of the next request.
\<close>

theorem requests_read_back:
  assumes "\<forall>(l, ps) \<in> set ms. request_text_ok l \<and> (\<forall>p \<in> set ps. field_ok p)"
    and "plain_text d"
  shows "input_data (req_step P H Pair) req_reset w
      (concat (map (\<lambda>(l, ps). request_text l ps []) ms) @ d) =
    Some (HNW_BASE_OK, req_reset\<lparr>parser_cache1 := d\<rparr>, w,
      concat (map (\<lambda>(l, ps). request_events l ps) ms))"
  using req_loop_messages [OF assms(1), of P H w d "[]"]
    loop_collect [OF collects_steps(2) _ assms(2), of req_reset]
  by (simp add: input_data_def in_lines_def req_reset_def)

theorem requests_read_back_witness:
  "input_data (req_step platform0 host1 Pair) req_reset ()
     (concat (map (\<lambda>(l, ps). request_text l ps []) [(RequestLine_default, [(HTTP_LEN, ''4'')])]) @ ''body'') =
   Some (HNW_BASE_OK, req_reset\<lparr>parser_cache1 := ''body''\<rparr>, (),
     request_events RequestLine_default [(HTTP_LEN, ''4'')])"
proof -
  have ok: "\<forall>(l, ps) \<in> set [(RequestLine_default, [(HTTP_LEN, ''4'')])].
      request_text_ok l \<and> (\<forall>p \<in> set ps. field_ok p)"
    by (simp add: request_text_ok_def request_line_ok_def request_line_string_def
        get_url_def RequestLine_default_def field_ok_def HTTP_LEN_def HEAD_SPLIT_def CR_def LF_def)
  have "plain_text ''body''" by (simp add: CR_def LF_def)
  from requests_read_back [OF ok this, of platform0 host1 "()"] show ?thesis by simp
qed

text \<open>
  A body that takes no bytes stops the parser for good: with a file body opened without the
  write flag and not complete, the loop of input_data gets its whole input back after every
  call and never returns.
\<close>

theorem resp_parser_hangs:
  assumes "parser_status st = BODY" and "rs_body (parser_tmp st) = Some (file_body_of f)"
    and "\<not> has_flag (fb_flag f) HTTP_FILE_FLAG_WRITE" and "file_body_size f \<noteq> 0" and "x \<noteq> []"
  shows "resp_step P H hcb st w x = Some (HNW_BASE_OK, x, st, w, []) \<and>
    input_data (resp_step P H hcb) st w x = None"
proof -
  have "parser_tmp st\<lparr>rs_body := Some (file_body_of f)\<rparr> = parser_tmp st"
    using assms(2) by (cases "parser_tmp st") simp
  then have s: "resp_step P H hcb st w x = Some (HNW_BASE_OK, x, st, w, [])"
    unfolding resp_step_body [OF assms(1)]
    using assms(2-4)
    by (simp add: resp_on_body_def write_body_def write_body_cb_def file_write_body_cb_def
        file_body_of_def base_body_def is_complete_def file_is_complete_def)
  with loop_stuck_gen [where step = "resp_step P H hcb", OF _ s assms(5), of "[]"] show ?thesis
    by (cases "input_data_loop (resp_step P H hcb) st w x []") (auto simp: input_data_def)
qed

theorem resp_parser_hangs_witness:
  "input_data (resp_step platform0 host1 Pair) \<lparr>parser_status = BODY, parser_cache1 = [],
     parser_tmp = HttpResponse_new\<lparr>rs_body := Some (file_body_of (file1\<lparr>fb_flag := 0\<rparr>))\<rparr>\<rparr> () ''x'' = None"
  using resp_parser_hangs [of "\<lparr>parser_status = BODY, parser_cache1 = [],
     parser_tmp = HttpResponse_new\<lparr>rs_body := Some (file_body_of (file1\<lparr>fb_flag := 0\<rparr>))\<rparr>\<rparr>"
     "file1\<lparr>fb_flag := 0\<rparr>" "''x''" platform0 host1 Pair "()"]
  by (simp add: has_flag_def file_body_size_def file1_def range1_def)

end
