(* ===== verification/Http_Session.thy ===== *)
theory Http_Session
  imports Http_Parser
begin

section \<open>Sessions\<close>

text \<open>
  \<^verbatim>\<open>Src/http/session/http_session.hpp\<close>: one connection's queue of messages to send, the state
  machine that hands their bytes to the channel through a buffer of limited size (line, header,
  body), and the parser for what comes back. \<open>HnwBase_Send_Cb\<close> and \<open>HnwHttp_Close\<close> appear as
  effects: the result of the first is an argument, and each operation says what it called.
  None is a null body dereferenced.
\<close>

definition HTML_MIME :: string where "HTML_MIME = ''text/html''"
definition ACCEPT_ALL :: string where "ACCEPT_ALL = ''*/*''"
definition HNW_HTTP_UA :: string where "HNW_HTTP_UA = ''HnwHttpClient/1.0''"

datatype EN_SEND_STATUS = EN_SEND_LINE | EN_SEND_HEAD | EN_SEND_BODY

record SendStaus =
  ss_status :: EN_SEND_STATUS
  ss_response :: "HttpResponse option"
  ss_request :: "HttpRequest option"
  ss_cache :: string

definition SendStaus_new :: SendStaus where
  "SendStaus_new = \<lparr>ss_status = EN_SEND_LINE, ss_response = None, ss_request = None, ss_cache = []\<rparr>"

datatype recv_parser = NoParser | ReqParser req_parser | RespParser resp_parser

record session =
  se_type :: PeerType
  se_handle :: int
  recv_parser :: recv_parser
  response_queue :: "HttpResponse list"
  request_queue :: "HttpRequest list"
  send_status :: SendStaus
  send_flag :: bool
  connect_flag :: bool
  session_head :: heads
  close_after_send_flag :: bool

datatype session_effect = SendCb int | HttpClose int

definition add_session_head :: "session \<Rightarrow> string \<Rightarrow> string \<Rightarrow> session" where
  "add_session_head se key value =
     se\<lparr>session_head := add_head (del_head (session_head se) key) key value\<rparr>"

definition session_generate :: "int \<Rightarrow> PeerType \<Rightarrow> session" where
  "session_generate handle type =
     (let se = \<lparr>se_type = type, se_handle = handle, recv_parser = NoParser, response_queue = [],
                request_queue = [], send_status = SendStaus_new, send_flag = False,
                connect_flag = False, session_head = [], close_after_send_flag = False\<rparr>;
          se = (if type = Client then add_session_head se HTTP_UA HNW_HTTP_UA else se);
          se = add_session_head se HTTP_ACCEPT ACCEPT_ALL;
          se = add_session_head se HTTP_CONN HTTP_CONN_CLOSE
      in if type = Server then se\<lparr>recv_parser := ReqParser req_reset\<rparr>
         else if type = Client then se\<lparr>recv_parser := RespParser resp_reset\<rparr>
         else se)"

subsection \<open>Starting to send\<close>

text \<open>\<open>ret\<close> is what \<open>HnwBase_Send_Cb\<close> returns when it is called.\<close>

definition start_send :: "err_code \<Rightarrow> session \<Rightarrow> err_code \<times> session \<times> session_effect list" where
  "start_send ret se =
     (if send_flag se then (HNW_BASE_OK, se, [])
      else if \<not> connect_flag se then (HNW_HTTP_SEND_PENDING, se, [])
      else (ret, se\<lparr>send_flag := True\<rparr>, [SendCb (se_handle se)]))"

definition send_response ::
  "err_code \<Rightarrow> session \<Rightarrow> HttpResponse option \<Rightarrow> err_code \<times> session \<times> session_effect list" where
  "send_response ret se response =
     (case response of
        None \<Rightarrow> (HNW_BASE_PARAMS_IS_INVALID, se, [])
      | Some s \<Rightarrow>
          if se_type se = Server
          then start_send ret (se\<lparr>response_queue := response_queue se @ [s]\<rparr>)
          else (HNW_BASE_NO_SUPPORT, se, []))"

definition send_request ::
  "err_code \<Rightarrow> session \<Rightarrow> HttpRequest option \<Rightarrow> err_code \<times> session \<times> session_effect list" where
  "send_request ret se request =
     (case request of
        None \<Rightarrow> (HNW_BASE_PARAMS_IS_INVALID, se, [])
      | Some q \<Rightarrow>
          if se_type se = Client
          then start_send ret (se\<lparr>request_queue := request_queue se @ [q]\<rparr>)
          else (HNW_BASE_NO_SUPPORT, se, []))"

definition on_connect_establish :: "err_code \<Rightarrow> session \<Rightarrow> session \<times> session_effect list" where
  "on_connect_establish ret se = snd (start_send ret (se\<lparr>connect_flag := True\<rparr>))"

definition on_disconnect :: "session \<Rightarrow> session" where
  "on_disconnect se = se\<lparr>connect_flag := False\<rparr>"

subsection \<open>Receiving\<close>

datatype session_event = RequestEvent req_event | ResponseEvent resp_event

definition recv_data ::
  "platform \<Rightarrow> 'w host \<Rightarrow> (HttpRequest \<Rightarrow> 'w \<Rightarrow> HttpRequest \<times> 'w) \<Rightarrow>
     (HttpResponse \<Rightarrow> 'w \<Rightarrow> HttpResponse \<times> 'w) \<Rightarrow> session \<Rightarrow> 'w \<Rightarrow> string \<Rightarrow>
     (err_code \<times> session \<times> 'w \<times> session_event list) option" where
  "recv_data P H qcb scb se w data =
     (case recv_parser se of
        NoParser \<Rightarrow> Some (HNW_BASE_NO_SUPPORT, se, w, [])
      | ReqParser p \<Rightarrow>
          map_option (\<lambda>(ret, p, w, ev). (ret, se\<lparr>recv_parser := ReqParser p\<rparr>, w, map RequestEvent ev))
            (input_data (req_step P H qcb) p w data)
      | RespParser p \<Rightarrow>
          map_option (\<lambda>(ret, p, w, ev). (ret, se\<lparr>recv_parser := RespParser p\<rparr>, w, map ResponseEvent ev))
            (input_data (resp_step P H scb) p w data))"

subsection \<open>Before a message is sent\<close>

definition pre_send_request :: "platform \<Rightarrow> session \<Rightarrow> HttpRequest \<Rightarrow> HttpRequest option" where
  "pre_send_request P se q =
     (case (if get_head_count (rq_head q) HTTP_LEN = 0
            then map_option (\<lambda>b. add_head_uint64 (rq_head q) HTTP_LEN (body_size b)) (rq_body q)
            else Some (rq_head q)) of
        None \<Rightarrow> None
      | Some h \<Rightarrow> Some (q\<lparr>rq_head := merge P h (Some (session_head se)) False\<rparr>))"

definition pre_send_response :: "platform \<Rightarrow> session \<Rightarrow> HttpResponse \<Rightarrow> (session \<times> HttpResponse) option" where
  "pre_send_response P se s =
     (case (if get_head_count (rs_head s) HTTP_LEN = 0
            then map_option (\<lambda>b. add_head_uint64 (rs_head s) HTTP_LEN (body_size b)) (rs_body s)
            else Some (rs_head s)) of
        None \<Rightarrow> None
      | Some h \<Rightarrow>
          let h = (if get_head_count h HTTP_CT = 0 then add_head h HTTP_CT HTML_MIME else h);
              h = merge P h (Some (session_head se)) False;
              se = (if get_head P h HTTP_CONN HTTP_CONN_CLOSE = HTTP_CONN_CLOSE
                    then se\<lparr>close_after_send_flag := True\<rparr> else se)
          in Some (se, s\<lparr>rs_head := h\<rparr>))"

subsection \<open>The read callbacks\<close>

definition move_cache :: "nat \<Rightarrow> string \<Rightarrow> string \<times> string" where
  "move_cache buff_size cache =
     (let copy_size = (if length cache \<le> buff_size then length cache else buff_size)
      in (take copy_size cache, drop copy_size cache))"

definition close_effect :: "session \<Rightarrow> session_effect list" where
  "close_effect se = (if close_after_send_flag se then [HttpClose (se_handle se)] else [])"

text \<open>A round of the loop either returns bytes or, when a body has ended, goes on.\<close>

datatype 's read_round = Return string 's "session_effect list" | Again 's

definition take_response :: "platform \<Rightarrow> session \<Rightarrow> HttpResponse \<Rightarrow> HttpResponse list \<Rightarrow> session option" where
  "take_response P se s rest =
     map_option (\<lambda>(se, s). se\<lparr>response_queue := rest,
         send_status := (send_status se)\<lparr>ss_status := EN_SEND_LINE, ss_response := Some s,
           ss_cache := response_line_string (rs_line s) @ CRLF\<rparr>\<rparr>)
       (pre_send_response P se s)"

definition response_round ::
  "platform \<Rightarrow> 'w host \<Rightarrow> 'w \<Rightarrow> session \<Rightarrow> HttpResponse \<Rightarrow> nat \<Rightarrow> session read_round option" where
  "response_round P H w se s buff_size =
     (let t = send_status se;
          t = (if ss_status t = EN_SEND_LINE \<and> ss_cache t = []
               then t\<lparr>ss_status := EN_SEND_HEAD, ss_cache := head_string P (rs_head s) @ CRLF\<rparr> else t)
      in if ss_status t = EN_SEND_LINE
         then let (d, c) = move_cache buff_size (ss_cache t)
              in Some (Return d (se\<lparr>send_status := t\<lparr>ss_cache := c\<rparr>\<rparr>) [])
         else
           let t = (if ss_status t = EN_SEND_HEAD \<and> ss_cache t = []
                    then t\<lparr>ss_status := EN_SEND_BODY\<rparr> else t)
           in if ss_status t = EN_SEND_HEAD
              then let (d, c) = move_cache buff_size (ss_cache t)
                   in Some (Return d (se\<lparr>send_status := t\<lparr>ss_cache := c\<rparr>\<rparr>) [])
              else case rs_body s of
                     None \<Rightarrow> None
                   | Some b \<Rightarrow>
                       let (d, b) = read_body H w b buff_size
                       in if d = []
                          then Some (Again (se\<lparr>send_status := t\<lparr>ss_response := None\<rparr>\<rparr>))
                          else Some (Return d (se\<lparr>send_status :=
                                 t\<lparr>ss_response := Some (s\<lparr>rs_body := Some b\<rparr>)\<rparr>\<rparr>) []))"

lemma take_response_queue: "take_response P se s rest = Some se' \<Longrightarrow> response_queue se' = rest"
  by (auto simp: take_response_def)

lemma response_round_again:
  "response_round P H w se s n = Some (Again se') \<Longrightarrow>
     response_queue se' = response_queue se \<and> ss_response (send_status se') = None"
  by (auto simp: response_round_def move_cache_def Let_def split: if_splits option.splits prod.splits)

function on_read_response ::
  "platform \<Rightarrow> 'w host \<Rightarrow> 'w \<Rightarrow> session \<Rightarrow> nat \<Rightarrow> (string \<times> session \<times> session_effect list) option" where
  "on_read_response P H w se buff_size =
     (case ss_response (send_status se) of
        Some s \<Rightarrow>
          (case response_round P H w se s buff_size of
             None \<Rightarrow> None
           | Some (Return d se' ef) \<Rightarrow> Some (d, se', ef)
           | Some (Again se') \<Rightarrow> on_read_response P H w se' buff_size)
      | None \<Rightarrow>
          (case response_queue se of
             [] \<Rightarrow> (let se' = se\<lparr>send_flag := False\<rparr> in Some ([], se', close_effect se'))
           | s # rest \<Rightarrow>
               (case take_response P se s rest of
                  None \<Rightarrow> None
                | Some se' \<Rightarrow> on_read_response P H w se' buff_size)))"
  by pat_completeness auto
termination
proof (relation "measure (\<lambda>(P, H, w, se, n). 2 * length (response_queue se) +
    (if ss_response (send_status se) = None then 0 else 1))", goal_cases)
  case 1
  then show ?case by simp
qed (auto dest: response_round_again take_response_queue)

declare on_read_response.simps [simp del]

definition take_request :: "platform \<Rightarrow> session \<Rightarrow> HttpRequest \<Rightarrow> HttpRequest list \<Rightarrow> session option" where
  "take_request P se q rest =
     map_option (\<lambda>q. se\<lparr>request_queue := rest,
         send_status := (send_status se)\<lparr>ss_status := EN_SEND_LINE, ss_request := Some q,
           ss_cache := request_line_string (rq_line q) @ CRLF\<rparr>\<rparr>)
       (pre_send_request P se q)"

text \<open>
  The loop of \<open>on_read_request\<close> returns in its first round: at the end of a body it returns 0
  where \<open>on_read_response\<close> goes on.
\<close>

definition request_round ::
  "platform \<Rightarrow> 'w host \<Rightarrow> 'w \<Rightarrow> session \<Rightarrow> HttpRequest \<Rightarrow> nat \<Rightarrow>
     (string \<times> session \<times> session_effect list) option" where
  "request_round P H w se q buff_size =
     (let t = send_status se;
          t = (if ss_status t = EN_SEND_LINE \<and> ss_cache t = []
               then t\<lparr>ss_status := EN_SEND_HEAD, ss_cache := head_string P (rq_head q) @ CRLF\<rparr> else t)
      in if ss_status t = EN_SEND_LINE
         then let (d, c) = move_cache buff_size (ss_cache t)
              in Some (d, se\<lparr>send_status := t\<lparr>ss_cache := c\<rparr>\<rparr>, [])
         else
           let t = (if ss_status t = EN_SEND_HEAD \<and> ss_cache t = []
                    then t\<lparr>ss_status := EN_SEND_BODY\<rparr> else t)
           in if ss_status t = EN_SEND_HEAD
              then let (d, c) = move_cache buff_size (ss_cache t)
                   in Some (d, se\<lparr>send_status := t\<lparr>ss_cache := c\<rparr>\<rparr>, [])
              else case rq_body q of
                     None \<Rightarrow> None
                   | Some b \<Rightarrow>
                       let (d, b) = read_body H w b buff_size
                       in if d = []
                          then Some ([], se\<lparr>send_status := t\<lparr>ss_request := None\<rparr>\<rparr>, [])
                          else Some (d, se\<lparr>send_status :=
                                 t\<lparr>ss_request := Some (q\<lparr>rq_body := Some b\<rparr>)\<rparr>\<rparr>, []))"

definition on_read_request ::
  "platform \<Rightarrow> 'w host \<Rightarrow> 'w \<Rightarrow> session \<Rightarrow> nat \<Rightarrow> (string \<times> session \<times> session_effect list) option" where
  "on_read_request P H w se buff_size =
     (case ss_request (send_status se) of
        Some q \<Rightarrow> request_round P H w se q buff_size
      | None \<Rightarrow>
          (case request_queue se of
             [] \<Rightarrow> (let se' = se\<lparr>send_flag := False\<rparr> in Some ([], se', close_effect se'))
           | q # rest \<Rightarrow>
               (case take_request P se q rest of
                  None \<Rightarrow> None
                | Some se' \<Rightarrow>
                    (case ss_request (send_status se') of
                       None \<Rightarrow> None
                     | Some q' \<Rightarrow> request_round P H w se' q' buff_size))))"

definition on_read ::
  "platform \<Rightarrow> 'w host \<Rightarrow> 'w \<Rightarrow> session \<Rightarrow> nat \<Rightarrow> (string \<times> session \<times> session_effect list) option" where
  "on_read P H w se buff_size =
     (if se_type se = Server then on_read_response P H w se buff_size
      else if se_type se = Client then on_read_request P H w se buff_size
      else Some ([], se, []))"

subsection \<open>A server session as a pull source\<close>

definition sent_head :: "platform \<Rightarrow> heads \<Rightarrow> HttpResponse \<Rightarrow> heads" where
  "sent_head P sh s =
     (let h = (if get_head_count (rs_head s) HTTP_LEN = 0
               then add_head_uint64 (rs_head s) HTTP_LEN
                      (case rs_body s of None \<Rightarrow> 0 | Some b \<Rightarrow> body_size b)
               else rs_head s);
          h = (if get_head_count h HTTP_CT = 0 then add_head h HTTP_CT HTML_MIME else h)
      in merge P h (Some sh) False)"

lemma pre_send_response_eq:
  assumes "rs_body s = Some b"
  shows "\<exists>se'. pre_send_response P se s =
      Some (se', s\<lparr>rs_head := sent_head P (session_head se) s\<rparr>) \<and>
    session_head se' = session_head se \<and> response_queue se' = response_queue se \<and>
    send_status se' = send_status se \<and> se_type se' = se_type se \<and> send_flag se' = send_flag se"
  using assms by (simp add: pre_send_response_def sent_head_def Let_def)

text \<open>What is on the wire for a queued response, and what is left of the one being sent.\<close>

definition response_body_bytes :: "(string \<Rightarrow> string) \<Rightarrow> HttpResponse \<Rightarrow> string" where
  "response_body_bytes cont s = (case rs_body s of None \<Rightarrow> [] | Some b \<Rightarrow> body_pending cont b)"

definition queued_text :: "platform \<Rightarrow> (string \<Rightarrow> string) \<Rightarrow> heads \<Rightarrow> HttpResponse \<Rightarrow> string" where
  "queued_text P cont sh s =
     response_text (rs_line s) (umm_iter P (sent_head P sh s)) (response_body_bytes cont s)"

definition current_text :: "platform \<Rightarrow> (string \<Rightarrow> string) \<Rightarrow> SendStaus \<Rightarrow> string" where
  "current_text P cont t =
     (case ss_response t of
        None \<Rightarrow> []
      | Some s \<Rightarrow>
          (case ss_status t of
             EN_SEND_LINE \<Rightarrow>
               ss_cache t @ head_string P (rs_head s) @ CRLF @ response_body_bytes cont s
           | EN_SEND_HEAD \<Rightarrow> ss_cache t @ response_body_bytes cont s
           | EN_SEND_BODY \<Rightarrow> response_body_bytes cont s))"

definition session_pending :: "platform \<Rightarrow> (string \<Rightarrow> string) \<Rightarrow> session \<Rightarrow> string" where
  "session_pending P cont se = current_text P cont (send_status se) @
     concat (map (queued_text P cont (session_head se)) (response_queue se))"

definition response_body_ok :: "'w host \<Rightarrow> 'w \<Rightarrow> (string \<Rightarrow> string) \<Rightarrow> HttpResponse \<Rightarrow> bool" where
  "response_body_ok H w cont s \<longleftrightarrow> (case rs_body s of None \<Rightarrow> False | Some b \<Rightarrow> body_ok H w cont b)"

definition session_ok :: "'w host \<Rightarrow> 'w \<Rightarrow> (string \<Rightarrow> string) \<Rightarrow> session \<Rightarrow> bool" where
  "session_ok H w cont se \<longleftrightarrow>
     (\<forall>s \<in> set (response_queue se). response_body_ok H w cont s) \<and>
     (case ss_response (send_status se) of None \<Rightarrow> True | Some s \<Rightarrow> response_body_ok H w cont s)"

lemma move_cache_eq: "move_cache n c = (take n c, drop n c)"
  by (simp add: move_cache_def)

lemma take_response_spec:
  assumes "session_ok H w cont se" and "ss_response (send_status se) = None"
    and "response_queue se = s # rest"
  shows "\<exists>se' s'. take_response P se s rest = Some se' \<and> session_ok H w cont se' \<and>
    ss_response (send_status se') = Some s' \<and>
    session_pending P cont se' = session_pending P cont se \<and> se_type se' = se_type se"
proof -
  have s: "response_body_ok H w cont s" using assms(1,3) by (simp add: session_ok_def)
  then obtain b where b: "rs_body s = Some b" by (auto simp: response_body_ok_def split: option.splits)
  let ?s = "s\<lparr>rs_head := sent_head P (session_head se) s\<rparr>"
  from pre_send_response_eq [OF b, of P se] obtain se1 where
    p: "pre_send_response P se s = Some (se1, ?s)" and h: "session_head se1 = session_head se"
      "response_queue se1 = response_queue se" "send_status se1 = send_status se"
      "se_type se1 = se_type se" by blast
  have "response_body_ok H w cont ?s" and "response_body_bytes cont ?s = response_body_bytes cont s"
    using s by (simp_all add: response_body_ok_def response_body_bytes_def)
  with assms h p show ?thesis
    by (simp add: take_response_def session_ok_def session_pending_def current_text_def
        queued_text_def response_text_def head_string_def)
qed

lemma response_round_spec:
  assumes ok: "session_ok H w cont se" and s: "ss_response (send_status se) = Some s"
    and n: "0 < n" "n < 2 ^ 63"
  shows "(\<exists>d se'. response_round P H w se s n = Some (Return d se' []) \<and> d \<noteq> [] \<and> length d \<le> n \<and>
      session_ok H w cont se' \<and> session_pending P cont se = d @ session_pending P cont se') \<or>
    (\<exists>se'. response_round P H w se s n = Some (Again se') \<and> session_ok H w cont se' \<and>
      session_pending P cont se' = session_pending P cont se)"
proof -
  obtain b where b: "rs_body s = Some b" and bok: "body_ok H w cont b"
    using ok s by (auto simp: session_ok_def response_body_ok_def split: option.splits)
  obtain d b' where rd: "read_body H w b n = (d, b')" by (cases "read_body H w b n")
  note r = read_body_pull [OF bok n(2) rd]
  define t where "t = (if ss_status (send_status se) = EN_SEND_LINE \<and> ss_cache (send_status se) = []
      then (send_status se)\<lparr>ss_status := EN_SEND_HEAD, ss_cache := head_string P (rs_head s) @ CRLF\<rparr>
      else send_status se)"
  have t1: "ss_response t = Some s" using s by (simp add: t_def)
  have t2: "current_text P cont t = current_text P cont (send_status se)"
    using s by (auto simp: t_def current_text_def)
  have t3: "ss_status t = EN_SEND_LINE \<Longrightarrow> ss_cache t \<noteq> []" by (auto simp: t_def split: if_splits)
  define u where "u = (if ss_status t = EN_SEND_HEAD \<and> ss_cache t = []
      then t\<lparr>ss_status := EN_SEND_BODY\<rparr> else t)"
  have u1: "ss_response u = Some s" and u2: "current_text P cont u = current_text P cont t"
    using t1 by (auto simp: u_def current_text_def)
  have round: "response_round P H w se s n =
     (if ss_status t = EN_SEND_LINE
      then Some (Return (take n (ss_cache t)) (se\<lparr>send_status := t\<lparr>ss_cache := drop n (ss_cache t)\<rparr>\<rparr>) [])
      else if ss_status u = EN_SEND_HEAD
      then Some (Return (take n (ss_cache u)) (se\<lparr>send_status := u\<lparr>ss_cache := drop n (ss_cache u)\<rparr>\<rparr>) [])
      else if d = [] then Some (Again (se\<lparr>send_status := u\<lparr>ss_response := None\<rparr>\<rparr>))
      else Some (Return d (se\<lparr>send_status := u\<lparr>ss_response := Some (s\<lparr>rs_body := Some b'\<rparr>)\<rparr>\<rparr>) []))"
    unfolding response_round_def
    by (simp only: Let_def t_def [symmetric] u_def [symmetric] move_cache_eq b rd prod.case option.case)
  let ?Q = "concat (map (queued_text P cont (session_head se)) (response_queue se))"
  have P0: "session_pending P cont se = current_text P cont u @ ?Q"
    by (simp add: session_pending_def t2 u2)
  have P1: "session_pending P cont (se\<lparr>send_status := x\<rparr>) = current_text P cont x @ ?Q" for x
    by (simp add: session_pending_def)
  have ut: "ss_status t = EN_SEND_LINE \<Longrightarrow> u = t" by (simp add: u_def)
  consider (line) "ss_status t = EN_SEND_LINE"
    | (head) "ss_status t \<noteq> EN_SEND_LINE" "ss_status u = EN_SEND_HEAD"
    | (body) "ss_status t \<noteq> EN_SEND_LINE" "ss_status u = EN_SEND_BODY"
    by (cases "ss_status u") (auto simp: u_def split: if_splits)
  then show ?thesis
  proof cases
    case line
    with t3 n(1) ok s t1 ut show ?thesis
      by (simp add: round session_ok_def P0 P1 current_text_def)
  next
    case head
    then have "ss_cache u \<noteq> []" by (auto simp: u_def split: if_splits)
    with head n(1) ok s u1 show ?thesis
      by (simp add: round session_ok_def P0 P1 current_text_def)
  next
    case body
    show ?thesis
    proof (cases "d = []")
      case True
      then have "body_pending cont b = []" using r(1) n(1) by simp
      with True body ok u1 b show ?thesis
        by (simp add: round session_ok_def P0 P1 current_text_def response_body_bytes_def)
    next
      case False
      have "body_pending cont b = d @ body_pending cont b'" by (simp add: r)
      moreover have "length d \<le> n" by (simp add: r(1))
      ultimately show ?thesis using False body ok u1 b r(2)
        by (simp add: round session_ok_def P0 P1 current_text_def response_body_bytes_def
            response_body_ok_def)
    qed
  qed
qed

lemma on_read_response_spec:
  "session_ok H w cont se \<Longrightarrow> 0 < n \<Longrightarrow> n < 2 ^ 63 \<Longrightarrow>
     \<exists>d se' ef. on_read_response P H w se n = Some (d, se', ef) \<and> length d \<le> n \<and>
       session_ok H w cont se' \<and> session_pending P cont se = d @ session_pending P cont se' \<and>
       (session_pending P cont se \<noteq> [] \<longrightarrow> d \<noteq> []) \<and>
       (d = [] \<longrightarrow> send_flag se' = False \<and> ef = close_effect se')"
proof (induction P H w se n rule: on_read_response.induct)
  case (1 P H w se n)
  show ?case
  proof (cases "ss_response (send_status se)")
    case (Some s)
    consider d se' where "response_round P H w se s n = Some (Return d se' [])" and "d \<noteq> []"
        and "length d \<le> n" and "session_ok H w cont se'"
        and "session_pending P cont se = d @ session_pending P cont se'"
      | se' where "response_round P H w se s n = Some (Again se')" and "session_ok H w cont se'"
        and "session_pending P cont se' = session_pending P cont se"
      using response_round_spec [OF 1(3) Some 1(4,5), of P] by blast
    then show ?thesis
    proof cases
      case 1
      with Some show ?thesis by (simp add: on_read_response.simps)
    next
      case 2
      with "1.IH"(2) [OF Some 2(1) refl 2(2) "1.prems"(2,3)] Some show ?thesis
        by (simp add: on_read_response.simps [of P H w se])
    qed
  next
    case None
    show ?thesis
    proof (cases "response_queue se")
      case Nil
      with None "1.prems" show ?thesis
        by (simp add: on_read_response.simps session_ok_def session_pending_def current_text_def
            close_effect_def Let_def)
    next
      case (Cons s rest)
      from take_response_spec [OF "1.prems"(1) None Cons, of P] obtain se' where
        t: "take_response P se s rest = Some se'" and "session_ok H w cont se'"
        and "session_pending P cont se' = session_pending P cont se" by blast
      with "1.IH"(1) [OF None Cons t _ "1.prems"(2,3)] None Cons show ?thesis
        by (simp add: on_read_response.simps [of P H w se])
    qed
  qed
qed

text \<open>The callback as the channel uses it, and the interface it implements.\<close>

definition session_pull :: "platform \<Rightarrow> 'w host \<Rightarrow> 'w \<Rightarrow> session \<Rightarrow> nat \<Rightarrow> string \<times> session" where
  "session_pull P H w se n =
     (case on_read_response P H w se n of None \<Rightarrow> ([], se) | Some (d, se', _) \<Rightarrow> (d, se'))"

interpretation session_src: pull_source "session_pull P H w" "session_pending P cont" "session_ok H w cont"
proof
  fix s n b s' assume ok: "session_ok H w cont s" and n: "0 < n" "n < 2 ^ 63"
    and rd: "session_pull P H w s n = (b, s')"
  from on_read_response_spec [OF ok n, of P] obtain d se' ef where
    r: "on_read_response P H w s n = Some (d, se', ef)" "length d \<le> n" "session_ok H w cont se'"
      "session_pending P cont s = d @ session_pending P cont se'"
      "session_pending P cont s \<noteq> [] \<longrightarrow> d \<noteq> []" by blast
  with rd have b: "b = d" "s' = se'" by (simp_all add: session_pull_def)
  show "session_pending P cont s = b @ session_pending P cont s'" by (simp add: b r(4) [symmetric])
  show "length b \<le> n" and "session_ok H w cont s'" by (simp_all add: b r)
  show "b \<noteq> []" if "session_pending P cont s \<noteq> []" using that r(5) by (simp add: b)
qed

subsection \<open>Properties\<close>

text \<open>
  C5: Reading a server session to its end with buffers of any sizes yields exactly the bytes of
  the response being sent and of all queued ones, each as its status line, its fields (with
  Content-Length, Content-Type and the session's own added where missing) and its body.
\<close>

theorem server_session_sends_all:
  assumes "session_ok H w cont se" and "\<forall>n \<in> set ns. 0 < n \<and> n < 2 ^ 63"
    and "length (session_pending P cont se) \<le> length ns"
  shows "fst (drain (session_pull P H w) se ns) = session_pending P cont se \<and>
    session_pending P cont (snd (drain (session_pull P H w) se ns)) = []"
  using session_src.drain_all [OF assms, of "fst (drain (session_pull P H w) se ns)"
      "snd (drain (session_pull P H w) se ns)"] by simp

definition sample_response :: HttpResponse where
  "sample_response = HttpResponse_new\<lparr>rs_body := Some (raw_filled 2 ''hi'')\<rparr>"

definition sample_session :: session where
  "sample_session = (session_generate 7 Server)\<lparr>response_queue := [sample_response]\<rparr>"

lemma sample_session_ok: "session_ok host1 () (\<lambda>_. []) sample_session"
  using raw_filled_ok [of "''hi''" host1 "()" "\<lambda>_. []" 2]
  by (simp add: session_ok_def sample_session_def sample_response_def session_generate_def
      response_body_ok_def SendStaus_new_def add_session_head_def)

theorem server_session_sends_all_witness:
  "fst (drain (session_pull platform0 host1 ()) sample_session
     (replicate (length (session_pending platform0 (\<lambda>_. []) sample_session)) 1)) =
   session_pending platform0 (\<lambda>_. []) sample_session"
  using server_session_sends_all [OF sample_session_ok, of
    "replicate (length (session_pending platform0 (\<lambda>_. []) sample_session)) 1" platform0] by simp

text \<open>
  The read callback of a server session always returns, with at most as many bytes as the
  buffer holds; it returns 0 only when nothing is left, and then the session is ready to start
  sending again and closes its handle exactly when a response asked for it.
\<close>

theorem server_read_end:
  assumes "session_ok H w cont se" and "0 < n" and "n < 2 ^ 63" and "se_type se = Server"
  shows "\<exists>d se' ef. on_read P H w se n = Some (d, se', ef) \<and> length d \<le> n \<and>
    (d = [] \<longleftrightarrow> session_pending P cont se = []) \<and>
    (d = [] \<longrightarrow> \<not> send_flag se' \<and>
       ef = (if close_after_send_flag se' then [HttpClose (se_handle se')] else []))"
proof -
  from on_read_response_spec [OF assms(1-3), of P] obtain d se' ef where
    r: "on_read_response P H w se n = Some (d, se', ef)" "length d \<le> n"
      "session_pending P cont se = d @ session_pending P cont se'"
      "session_pending P cont se \<noteq> [] \<longrightarrow> d \<noteq> []"
      "d = [] \<longrightarrow> send_flag se' = False \<and> ef = close_effect se'" by blast
  have e: "d = [] \<longleftrightarrow> session_pending P cont se = []"
  proof
    assume "d = []"
    with r(4) show "session_pending P cont se = []" by blast
  next
    assume "session_pending P cont se = []"
    then have "d @ session_pending P cont se' = []" unfolding r(3) .
    then show "d = []" by simp
  qed
  have "on_read P H w se n = Some (d, se', ef)" by (simp add: on_read_def assms(4) r(1))
  then show ?thesis using r(2,5) e unfolding close_effect_def by blast
qed

theorem server_read_end_witness:
  "\<exists>d se' ef. on_read platform0 host1 () sample_session 16 = Some (d, se', ef) \<and> length d \<le> 16"
proof -
  have "se_type sample_session = Server"
    by (simp add: sample_session_def session_generate_def add_session_head_def)
  from server_read_end [OF sample_session_ok _ _ this, of 16 platform0] show ?thesis by auto
qed

text \<open>
  Responses leave in the order in which they were passed to send: each send appends the
  bytes of its response behind all pending ones. A send on a session that is sending starts no
  second reader; on an idle connected one it starts exactly one; before the connection is
  established it reports HNW_HTTP_SEND_PENDING, and establishing the connection starts the reader.
\<close>

theorem send_response_fifo:
  assumes "send_response ret se (Some s) = (r, se', ef)" and "se_type se = Server"
  shows "session_pending P cont se' =
      session_pending P cont se @ queued_text P cont (session_head se) s \<and>
    (send_flag se \<longrightarrow> r = HNW_BASE_OK \<and> ef = [] \<and> send_flag se') \<and>
    (\<not> send_flag se \<and> connect_flag se \<longrightarrow> r = ret \<and> ef = [SendCb (se_handle se)] \<and> send_flag se') \<and>
    (\<not> send_flag se \<and> \<not> connect_flag se \<longrightarrow> r = HNW_HTTP_SEND_PENDING \<and> ef = [] \<and>
       snd (on_connect_establish ret se') = [SendCb (se_handle se)])"
  using assms
  by (auto simp: send_response_def start_send_def session_pending_def on_connect_establish_def
      split: if_splits)

theorem send_response_fifo_witness:
  "session_pending platform0 (\<lambda>_. [])
     (fst (snd (send_response HNW_BASE_OK sample_session (Some sample_response)))) =
   session_pending platform0 (\<lambda>_. []) sample_session @
     queued_text platform0 (\<lambda>_. []) (session_head sample_session) sample_response"
proof -
  obtain r se' ef where
    s: "send_response HNW_BASE_OK sample_session (Some sample_response) = (r, se', ef)"
    by (cases "send_response HNW_BASE_OK sample_session (Some sample_response)")
  have "se_type sample_session = Server"
    by (simp add: sample_session_def session_generate_def add_session_head_def)
  from send_response_fifo [OF s this, of platform0 "\<lambda>_. []"] s show ?thesis by simp
qed

text \<open>
  C40: A client session stops after its first request. At the end of that request's body the
  read callback returns 0, which ends the channel's reading, but the session still counts as
  sending: requests in the queue stay there, and every later send only queues.
\<close>

theorem client_session_stalls:
  assumes "se_type se = Client" and "send_flag se"
    and "ss_request (send_status se) = Some q" and "ss_status (send_status se) = EN_SEND_BODY"
    and "rq_body q = Some b" and "body_ok H w cont b" and "body_pending cont b = []"
    and "n < 2 ^ 63"
  shows "\<exists>se'. on_read P H w se n = Some ([], se', []) \<and> send_flag se' \<and>
    request_queue se' = request_queue se \<and>
    (\<forall>ret q'. \<exists>se''. send_request ret se' (Some q') = (HNW_BASE_OK, se'', []) \<and>
       send_flag se'' \<and> request_queue se'' = request_queue se @ [q'])"
proof -
  obtain b' where "read_body H w b n = ([], b')"
    using read_body_pull(1) [OF assms(6,8)] assms(7) by (cases "read_body H w b n") auto
  then show ?thesis
    using assms(1-5)
    by (simp add: on_read_def on_read_request_def request_round_def send_request_def start_send_def)
qed

theorem client_session_stalls_witness:
  "\<exists>se'. on_read platform0 host1 () ((session_generate 7 Client)\<lparr>send_flag := True,
      request_queue := [HttpRequest_new], send_status := \<lparr>ss_status = EN_SEND_BODY,
        ss_response = None, ss_request = Some HttpRequest_new, ss_cache = []\<rparr>\<rparr>) 10 = Some ([], se', []) \<and>
    request_queue se' = [HttpRequest_new]"
proof -
  let ?b = "raw_body_of raw_generate_auto"
  have "body_ok host1 () (\<lambda>_. []) ?b" and "body_pending (\<lambda>_. []) ?b = []"
    by (simp_all add: body_ok_def body_pending_def body_content_def raw_body_of_def base_body_def
        raw_generate_auto_def)
  with client_session_stalls [of "(session_generate 7 Client)\<lparr>send_flag := True,
      request_queue := [HttpRequest_new], send_status := \<lparr>ss_status = EN_SEND_BODY,
        ss_response = None, ss_request = Some HttpRequest_new, ss_cache = []\<rparr>\<rparr>"
      HttpRequest_new ?b host1 "()" "\<lambda>_. []" 10 platform0]
  show ?thesis
    by (simp add: session_generate_def add_session_head_def HttpRequest_new_def) blast
qed

text \<open>
  A response without a body object, as ResponseImpl creates it, cannot be sent: the read
  callback dereferences the null pointer when it reaches the response.
\<close>

theorem null_body_undefined:
  assumes "ss_response (send_status se) = None" and "response_queue se = s # rest"
    and "rs_body s = None" and "get_head_count (rs_head s) HTTP_LEN = 0" and "se_type se = Server"
  shows "on_read P H w se n = None"
  using assms
  by (simp add: on_read_def on_read_response.simps take_response_def pre_send_response_def)

theorem null_body_undefined_witness:
  "on_read platform0 host1 () ((session_generate 7 Server)\<lparr>response_queue := [HttpResponse_new]\<rparr>) 10 = None"
  by (rule null_body_undefined [where s = HttpResponse_new and rest = "[]"])
    (simp_all add: session_generate_def add_session_head_def HttpResponse_new_def SendStaus_new_def
      get_head_count_def)

end
