(* ===== verification/Hnw_Channel.thy ===== *)
theory Hnw_Channel
  imports Hnw_Codes
begin

section \<open>Channels\<close>

text \<open>
  \<^verbatim>\<open>Src/base/define/channel.hpp\<close> (the state every channel has, its configuration) and
  \<^verbatim>\<open>Src/base/asio/service/asio_client_channel.hpp\<close> (sending and receiving). The class hierarchy is
  one record with the kind in \<open>ch_type\<close>; the fields of a subclass are read for its kind only.
  What the code asks of boost.asio is a list of effects in the order of the calls, and a completion
  handler is a function of the channel as it is when the handler runs. An event callback is
  empty (None) or the function \<open>Service::set_event_cb\<close> binds around the application's own
  callback, itself possibly null.
\<close>

record 'c channel =
  ch_type :: channel_type
  ch_handle :: int
  ch_event_cb :: "'c option option"
  ch_make_shared :: bool
  ch_recv_buff_size :: u64
  ch_send_buff_size :: u64
  connect_time_out_ms :: u64
  recv_time_out_ms :: u64
  send_time_out_ms :: u64
  userdata :: int
  bconn :: bool
  sock_open :: bool
  ch_accept_num :: u64
  time_out_ms :: u64
  timer_on :: bool
  timer_call :: "'c option"

definition default_recv_buff_size :: u64 where "default_recv_buff_size = 1024 * 1024"
definition default_send_buff_size :: u64 where "default_send_buff_size = 1024 * 1024"
definition default_accept_num :: u64 where "default_accept_num = 5"

definition Channel_new :: "channel_type \<Rightarrow> int \<Rightarrow> 'c channel" where
  "Channel_new type handle =
     \<lparr>ch_type = type, ch_handle = handle, ch_event_cb = None, ch_make_shared = False,
      ch_recv_buff_size = default_recv_buff_size, ch_send_buff_size = default_send_buff_size,
      connect_time_out_ms = 0, recv_time_out_ms = 0, send_time_out_ms = 0, userdata = 0,
      bconn = False, sock_open = False, ch_accept_num = 1, time_out_ms = 0, timer_on = False, timer_call = None\<rparr>"

lemma Channel_new_simps [simp]:
  "ch_type (Channel_new t h) = t" "ch_handle (Channel_new t h) = h"
  "ch_event_cb (Channel_new t h) = None" "bconn (Channel_new t h) = False"
  "sock_open (Channel_new t h) = False" "timer_on (Channel_new t h) = False"
  by (simp_all add: Channel_new_def)

definition check_endpoint :: "NetPoint \<Rightarrow> bool" where
  "check_endpoint point \<longleftrightarrow> np_ip point \<noteq> [] \<and> 0 \<le> np_port point"

subsection \<open>Events and effects\<close>

datatype chan_event = EvError err_code | EvConnectEstablish | EvAccept int | EvRecvData string
  | EvSendComplete u64 | EvClosed

datatype 'c chan_effect =
    EventCb "'c option" int chan_event
  | EventCbAsync "'c option option" int chan_event
  | StartTimer u64
  | CancelTimer
  | AsyncConnect string "16 word"
  | AsyncAccept int
  | AsyncHandshake
  | TlsShutdown
  | AsyncWrite string
  | AsyncRead u64
  | CloseSocket
  | CallTimer "'c option"

text \<open>The macros \<open>EVENT_CB\<close> and \<open>EVENT_CB_ASYNC\<close>.\<close>

definition EVENT_CB :: "'c channel \<Rightarrow> chan_event \<Rightarrow> 'c chan_effect list" where
  "EVENT_CB ch ev = (case ch_event_cb ch of None \<Rightarrow> [] | Some cb \<Rightarrow> [EventCb cb (ch_handle ch) ev])"

definition EVENT_CB_ASYNC :: "'c channel \<Rightarrow> chan_event \<Rightarrow> 'c chan_effect list" where
  "EVENT_CB_ASYNC ch ev = [EventCbAsync (ch_event_cb ch) (ch_handle ch) ev]"

text \<open>\<open>add_timer\<close> makes no timer for 0; \<open>del_timer\<close> of a null timer does nothing.\<close>

definition chan_add_timer :: "u64 \<Rightarrow> bool \<times> 'c chan_effect list" where
  "chan_add_timer time_out = (if time_out = 0 then (False, []) else (True, [StartTimer time_out]))"

definition chan_del_timer :: "bool \<Rightarrow> 'c chan_effect list" where
  "chan_del_timer timer = (if timer then [CancelTimer] else [])"

subsection \<open>Configuration\<close>

text \<open>
  \<open>data\<close> is the \<^verbatim>\<open>size_t\<close> the pointer refers to, None for a null pointer; the last component
  is what it holds afterwards.
\<close>

definition config_set ::
  "(u64 \<Rightarrow> 'c channel \<Rightarrow> 'c channel) \<Rightarrow> u64 option \<Rightarrow> 'c channel \<Rightarrow> err_code \<times> 'c channel \<times> u64 option"
  where
  "config_set upd data ch =
     (case data of
        None \<Rightarrow> (HNW_BASE_PARAMS_IS_INVALID, ch, data)
      | Some v \<Rightarrow> (HNW_BASE_OK, upd v ch, data))"

definition config_set_nonzero ::
  "(u64 \<Rightarrow> 'c channel \<Rightarrow> 'c channel) \<Rightarrow> u64 option \<Rightarrow> 'c channel \<Rightarrow> err_code \<times> 'c channel \<times> u64 option"
  where
  "config_set_nonzero upd data ch =
     (if data = Some 0 then (HNW_BASE_PARAMS_IS_INVALID, ch, data) else config_set upd data ch)"

definition config_get :: "u64 \<Rightarrow> u64 option \<Rightarrow> 'c channel \<Rightarrow> err_code \<times> 'c channel \<times> u64 option" where
  "config_get v data ch =
     (case data of
        None \<Rightarrow> (HNW_BASE_PARAMS_IS_INVALID, ch, data)
      | Some _ \<Rightarrow> (HNW_BASE_OK, ch, Some v))"

definition channel_config ::
  "config_type \<Rightarrow> u64 option \<Rightarrow> 'c channel \<Rightarrow> err_code \<times> 'c channel \<times> u64 option" where
  "channel_config config_type data ch =
     (case config_type of
        SET_RECV_BUFF_SIZE \<Rightarrow> config_set_nonzero (\<lambda>v ch. ch\<lparr>ch_recv_buff_size := v\<rparr>) data ch
      | GET_RECV_BUFF_SIZE \<Rightarrow> config_get (ch_send_buff_size ch) data ch
      | SET_SEND_BUFF_SIZE \<Rightarrow> config_set_nonzero (\<lambda>v ch. ch\<lparr>ch_send_buff_size := v\<rparr>) data ch
      | GET_SEND_BUFF_SIZE \<Rightarrow> config_get (ch_send_buff_size ch) data ch
      | SET_CONNECT_TIME_OUT_MS \<Rightarrow> config_set (\<lambda>v ch. ch\<lparr>connect_time_out_ms := v\<rparr>) data ch
      | GET_CONNECT_TIME_OUT_MS \<Rightarrow> config_get (connect_time_out_ms ch) data ch
      | SET_RECV_TIME_OUT_MS \<Rightarrow> config_set (\<lambda>v ch. ch\<lparr>recv_time_out_ms := v\<rparr>) data ch
      | GET_RECV_TIME_OUT_MS \<Rightarrow> config_get (recv_time_out_ms ch) data ch
      | SET_SEND_TIME_OUT_MS \<Rightarrow> config_set (\<lambda>v ch. ch\<lparr>send_time_out_ms := v\<rparr>) data ch
      | GET_SEND_TIME_OUT_MS \<Rightarrow> config_get (send_time_out_ms ch) data ch
      | _ \<Rightarrow> (HNW_BASE_NO_SUPPORT, ch, data))"

text \<open>\<open>ASIOTcpServerChannel::config\<close> and \<open>ASIOTimerChannel::config\<close> handle one selector more.\<close>

definition set_accept_num :: "u64 \<Rightarrow> 'c channel \<Rightarrow> err_code \<times> 'c channel" where
  "set_accept_num num ch =
     (if num \<le> 0 then (HNW_BASE_PARAMS_IS_INVALID, ch)
      else (HNW_BASE_OK, ch\<lparr>ch_accept_num := num\<rparr>))"

definition tcp_server_config ::
  "config_type \<Rightarrow> u64 option \<Rightarrow> 'c channel \<Rightarrow> err_code \<times> 'c channel \<times> u64 option" where
  "tcp_server_config config_type data ch =
     (if config_type = SET_SERVER_ACCEPT_NUM
      then config_set_nonzero (\<lambda>v ch. snd (set_accept_num v ch)) data ch
      else channel_config config_type data ch)"

definition timer_config ::
  "config_type \<Rightarrow> u64 option \<Rightarrow> 'c channel \<Rightarrow> err_code \<times> 'c channel \<times> u64 option" where
  "timer_config config_type data ch =
     (if config_type = SET_TIMER_TIME_OUT_MS
      then config_set (\<lambda>v ch. ch\<lparr>time_out_ms := v\<rparr>) data ch
      else channel_config config_type data ch)"

text \<open>\<open>SET_TIMER_CB\<close>: the data is a function object.\<close>

definition timer_config_cb :: "'c option \<Rightarrow> 'c channel \<Rightarrow> err_code \<times> 'c channel" where
  "timer_config_cb cb ch = (HNW_BASE_OK, ch\<lparr>timer_call := cb\<rparr>)"

definition config_virtual ::
  "config_type \<Rightarrow> u64 option \<Rightarrow> 'c channel \<Rightarrow> err_code \<times> 'c channel \<times> u64 option" where
  "config_virtual config_type data ch =
     (if ch_type ch = TCP_SERVER \<or> ch_type ch = SSL_SERVER then tcp_server_config config_type data ch
      else if ch_type ch = TIMER then timer_config config_type data ch
      else channel_config config_type data ch)"

subsection \<open>Sending a buffer\<close>

text \<open>A write in flight: what its handler has captured.\<close>

record send_op =
  op_buff :: string
  op_len :: u64
  op_beg :: u64
  op_timer :: bool

text \<open>
  What is left to do after a call: nothing more (\<open>SendDone\<close> - the completion function runs, if
  there is one), nothing because of an error, or to wait for the write.
\<close>

datatype send_outcome = SendDone | SendStopped | SendPending send_op

definition async_send ::
  "'c channel \<Rightarrow> string option \<Rightarrow> u64 \<Rightarrow> u64 \<Rightarrow> err_code \<times> 'c chan_effect list \<times> send_outcome" where
  "async_send ch buff buff_len beg =
     (case buff of
        None \<Rightarrow> (HNW_BASE_OK, EVENT_CB ch (EvSendComplete buff_len), SendDone)
      | Some b \<Rightarrow>
          if buff_len = 0 then (HNW_BASE_OK, EVENT_CB ch (EvSendComplete buff_len), SendDone)
          else if \<not> bconn ch
          then (HNW_BASE_CHANNEL_NOT_CONN, EVENT_CB ch (EvError HNW_BASE_CHANNEL_NOT_CONN), SendStopped)
          else let (timer, ef) = chan_add_timer (send_time_out_ms ch)
               in (HNW_BASE_OK, ef @ [AsyncWrite (take (unat buff_len) b)],
                   SendPending \<lparr>op_buff = b, op_len = buff_len, op_beg = beg, op_timer = timer\<rparr>))"

text \<open>A completion: an error code, or the number of bytes written.\<close>

datatype completion = WriteFailed | Wrote u64

text \<open>\<open>int now_len = buff_len - s\<close>: through a 32-bit \<^verbatim>\<open>int\<close> and back to \<^verbatim>\<open>size_t\<close>.\<close>

definition rest_len :: "u64 \<Rightarrow> u64 \<Rightarrow> u64" where
  "rest_len buff_len s = scast (ucast (buff_len - s) :: 32 word)"

definition send_handler ::
  "'c channel \<Rightarrow> send_op \<Rightarrow> completion \<Rightarrow> 'c chan_effect list \<times> send_outcome" where
  "send_handler ch op r =
     (let t = chan_del_timer (op_timer op)
      in case r of
           WriteFailed \<Rightarrow> (t @ EVENT_CB ch (EvError HNW_BASE_SEND_DATA_FAIL), SendStopped)
         | Wrote s \<Rightarrow>
             if op_len op \<le> s then (t, SendDone)
             else let (_, ef, out) = async_send ch (Some (op_buff op)) (rest_len (op_len op) s) (op_beg op + s)
                  in (t @ ef, out))"

text \<open>
  What a call hands to boost.asio to be written, and the bytes a completion then reports on the
  connection: the front of what was asked for.
\<close>

definition written :: "'c chan_effect list \<Rightarrow> string" where
  "written es = concat (map (\<lambda>e. case e of AsyncWrite d \<Rightarrow> d | _ \<Rightarrow> []) es)"

definition wire_part :: "string \<Rightarrow> completion \<Rightarrow> string" where
  "wire_part d r = (case r of WriteFailed \<Rightarrow> [] | Wrote s \<Rightarrow> take (unat s) d)"

lemma written_simps [simp]:
  "written [] = []" "written (AsyncWrite d # es) = d @ written es" "written (a @ b) = written a @ written b"
  "written (EVENT_CB ch ev) = []" "written (chan_del_timer timer) = []"
  by (auto simp: written_def EVENT_CB_def chan_del_timer_def split: option.split)

lemma written_add_timer: "chan_add_timer ms = (timer, es) \<Longrightarrow> written es = []"
  by (auto simp: chan_add_timer_def written_def split: if_splits)

text \<open>
  \<open>send(message, size)\<close> to its end, for the completions the operating system reports: \<open>d\<close> is what
  the write in flight was asked to write.
\<close>

fun send_all ::
  "'c channel \<Rightarrow> string \<Rightarrow> send_outcome \<Rightarrow> completion list \<Rightarrow> string \<times> 'c chan_effect list \<times> send_outcome"
  where
  "send_all ch d (SendPending op) (r # rs) =
     (let (ef, out) = send_handler ch op r; (w, ef', out') = send_all ch (written ef) out rs
      in (wire_part d r @ w, ef @ ef', out'))"
| "send_all ch d out rs = ([], [], out)"

subsection \<open>Sending through a callback\<close>

text \<open>
  \<open>async_send(buff, buff_len, cb)\<close>: take a buffer of the configured size, let the callback fill
  it, write what it filled in, and start again when that is written. \<open>buff\<close> is the length of the
  buffer kept from the round before, \<open>alloc\<close> says whether an allocation succeeds.
\<close>

definition async_send_cb ::
  "('s \<Rightarrow> nat \<Rightarrow> string \<times> 's) option \<Rightarrow> (u64 \<Rightarrow> bool) \<Rightarrow> 'c channel \<Rightarrow> u64 option \<Rightarrow> 's \<Rightarrow>
     err_code \<times> 'c chan_effect list \<times> send_outcome \<times> u64 option \<times> 's" where
  "async_send_cb cb alloc ch buff s =
     (if \<not> bconn ch
      then (HNW_BASE_CHANNEL_NOT_CONN, EVENT_CB ch (EvError HNW_BASE_CHANNEL_NOT_CONN), SendStopped, buff, s)
      else
        let buff = (if buff \<noteq> Some (ch_send_buff_size ch)
                    then (if ch_make_shared ch \<and> alloc (ch_send_buff_size ch)
                          then Some (ch_send_buff_size ch) else None)
                    else buff)
        in case buff of
             None \<Rightarrow> (HNW_BASE_ALLOC_FAIL, EVENT_CB ch (EvError HNW_BASE_ALLOC_FAIL), SendStopped, None, s)
           | Some n \<Rightarrow>
               let (d, s) = (case cb of None \<Rightarrow> ([], s) | Some f \<Rightarrow> f s (unat n))
               in if d = [] then (HNW_BASE_OK, [], SendStopped, Some n, s)
                  else let (ret, ef, out) = async_send ch (Some d) (of_nat (length d)) 0
                       in (ret, ef, out, Some n, s))"

record 's send_state =
  st_src :: 's
  st_buff :: "u64 option"
  st_out :: send_outcome
  st_asked :: string
  st_wire :: string

definition send_start ::
  "('s \<Rightarrow> nat \<Rightarrow> string \<times> 's) \<Rightarrow> (u64 \<Rightarrow> bool) \<Rightarrow> 'c channel \<Rightarrow> 's \<Rightarrow> 's send_state" where
  "send_start cb alloc ch s =
     (let (_, ef, out, buff, s) = async_send_cb (Some cb) alloc ch None s
      in \<lparr>st_src = s, st_buff = buff, st_out = out, st_asked = written ef, st_wire = []\<rparr>)"

text \<open>One completion of the write in flight; a finished buffer starts the next round.\<close>

definition send_written ::
  "('s \<Rightarrow> nat \<Rightarrow> string \<times> 's) \<Rightarrow> (u64 \<Rightarrow> bool) \<Rightarrow> 'c channel \<Rightarrow> 's send_state \<Rightarrow> send_op \<Rightarrow>
     completion \<Rightarrow> 's send_state" where
  "send_written cb alloc ch st op r =
     (let st = st\<lparr>st_wire := st_wire st @ wire_part (st_asked st) r\<rparr>; (ef, out) = send_handler ch op r
      in case out of
           SendDone \<Rightarrow>
             (let (_, ef, out, buff, s) = async_send_cb (Some cb) alloc ch (st_buff st) (st_src st)
              in st\<lparr>st_src := s, st_buff := buff, st_out := out, st_asked := written ef\<rparr>)
         | out \<Rightarrow> st\<lparr>st_out := out, st_asked := written ef\<rparr>)"

text \<open>
  The runs of the sending loop: each step is a completion the socket may report for the write in
  flight. With \<open>whole\<close> every write takes all it was given.
\<close>

inductive send_run ::
  "bool \<Rightarrow> ('s \<Rightarrow> nat \<Rightarrow> string \<times> 's) \<Rightarrow> (u64 \<Rightarrow> bool) \<Rightarrow> 'c channel \<Rightarrow> 's send_state \<Rightarrow>
     's send_state \<Rightarrow> bool" for whole cb alloc ch where
  run_start: "send_run whole cb alloc ch st st"
| run_step: "send_run whole cb alloc ch st st' \<Longrightarrow> st_out st' = SendPending op \<Longrightarrow>
     (case r of WriteFailed \<Rightarrow> \<not> whole
      | Wrote s \<Rightarrow> 0 < s \<and> s \<le> op_len op \<and> (whole \<longrightarrow> s = op_len op)) \<Longrightarrow>
     send_run whole cb alloc ch st (send_written cb alloc ch st' op r)"

inductive_cases send_runE: "send_run whole cb alloc ch st st'"

subsection \<open>What reaches the connection\<close>

text \<open>A write in flight that was given the whole of its buffer.\<close>

definition whole_op :: "send_op \<Rightarrow> bool" where
  "whole_op op \<longleftrightarrow> op_buff op \<noteq> [] \<and> unat (op_len op) = length (op_buff op)"

lemma rest_len_small:
  assumes "s \<le> n" and "unat n < 2 ^ 31"
  shows "rest_len n s = n - s"
proof -
  let ?d = "n - s"
  have "unat ?d < 2 ^ 31" unfolding unat_sub [OF assms(1)] using assms(2) by linarith
  then have d: "uint ?d < 2 ^ 31" unfolding uint_nat by (simp only: of_nat_less_numeral_power_cancel_iff)
  have u: "uint (ucast ?d :: 32 word) = uint ?d"
    unfolding unsigned_ucast_eq by (rule take_bit_int_eq_self) (use d in simp_all)
  have "sint (ucast ?d :: 32 word) = uint ?d"
    unfolding sint_uint u
    by (rule signed_take_bit_int_eq_self, rule order_trans [OF _ uint_ge_0]) (use d in simp_all)
  then have "scast (ucast ?d :: 32 word) = (word_of_int (uint ?d) :: u64)"
    unfolding scast_eq by (rule arg_cong)
  then show ?thesis by (simp only: rest_len_def word_of_int_uint)
qed

text \<open>A further write is asked to write the front of the buffer again, as long as what is left.\<close>

lemma send_handler_rest:
  assumes "bconn ch" and "r \<le> op_len op" and "r \<noteq> op_len op" and "unat (op_len op) < 2 ^ 31"
  shows "\<exists>t1 t2 timer. send_handler ch op (Wrote r) =
      (t1 @ t2 @ [AsyncWrite (take (unat (op_len op - r)) (op_buff op))],
       SendPending \<lparr>op_buff = op_buff op, op_len = op_len op - r, op_beg = op_beg op + r, op_timer = timer\<rparr>) \<and>
    written t1 = [] \<and> written t2 = [] \<and> (\<forall>d. AsyncWrite d \<notin> set (t1 @ t2))"
proof -
  obtain timer t2 where t: "(chan_add_timer (send_time_out_ms ch) :: bool \<times> 'a chan_effect list) = (timer, t2)"
    by (cases "chan_add_timer (send_time_out_ms ch) :: bool \<times> 'a chan_effect list")
  have w: "\<forall>d. AsyncWrite d \<notin> set (chan_del_timer (op_timer op) @ t2)"
    using t by (auto simp: chan_add_timer_def chan_del_timer_def split: if_splits)
  have ne: "op_len op - r \<noteq> 0" "\<not> op_len op \<le> r" using assms(2,3) by auto
  have h: "send_handler ch op (Wrote r) =
      (chan_del_timer (op_timer op) @ t2 @ [AsyncWrite (take (unat (op_len op - r)) (op_buff op))],
       SendPending \<lparr>op_buff = op_buff op, op_len = op_len op - r, op_beg = op_beg op + r, op_timer = timer\<rparr>)"
    using assms(1) t ne rest_len_small [OF assms(2,4)] by (simp add: send_handler_def async_send_def Let_def)
  show ?thesis
    by (rule exI [where x = "chan_del_timer (op_timer op)"], rule exI [where x = t2], rule exI [where x = timer])
      (use h w written_add_timer [OF t] in simp)
qed

text \<open>What a write that is only partly done leaves: the front of the buffer is asked for again.\<close>

lemma send_written_part:
  assumes "bconn ch" and "whole_op op" and "st_asked st = op_buff op" and "s < op_len op"
    and "unat (op_len op) < 2 ^ 31"
  shows "st_wire (send_written cb alloc ch st op (Wrote s)) = st_wire st @ take (unat s) (op_buff op) \<and>
    st_asked (send_written cb alloc ch st op (Wrote s)) = take (length (op_buff op) - unat s) (op_buff op)"
proof -
  have le: "s \<le> op_len op" and ne: "s \<noteq> op_len op" using assms(4) by auto
  have u: "unat (op_len op - s) = length (op_buff op) - unat s"
    using unat_sub [OF le] assms(2) by (simp add: whole_op_def)
  from send_handler_rest [OF assms(1) le ne assms(5)] assms(3) u show ?thesis
    by (auto simp: send_written_def wire_part_def)
qed

text \<open>Completions of sizes that add up to the buffer: each writes from the start of the buffer.\<close>

lemma send_all_sizes:
  assumes "bconn ch" and "\<forall>s \<in> set ss. 0 < s" and "ss \<noteq> []"
    and "sum_list ss = unat (op_len op)" and "sum_list ss \<le> length (op_buff op)"
    and "length (op_buff op) < 2 ^ 31"
  shows "\<exists>ef. send_all ch (take (unat (op_len op)) (op_buff op)) (SendPending op) (map (\<lambda>s. Wrote (of_nat s)) ss) =
      (concat (map (\<lambda>s. take s (op_buff op)) ss), ef, SendDone) \<and>
    (\<forall>d. AsyncWrite d \<in> set ef \<longrightarrow> d = take (length d) (op_buff op))"
  using assms
proof (induction ss arbitrary: op)
  case Nil
  then show ?case by simp
next
  case (Cons s ss)
  let ?s = "of_nat s :: u64"
  have len: "unat (op_len op) = s + sum_list ss" using Cons.prems(4) by simp
  have small: "unat (op_len op) < 2 ^ 31" using Cons.prems(4,5,6) by linarith
  have us: "unat ?s = s" by (rule unat_of_nat_u64) (use small len in simp)
  have le: "?s \<le> op_len op" by (simp add: word_le_nat_alt us len)
  have sent: "wire_part (take (unat (op_len op)) (op_buff op)) (Wrote ?s) = take s (op_buff op)"
    by (simp add: wire_part_def us len)
  show ?case
  proof (cases "ss = []")
    case True
    then have "op_len op \<le> ?s" by (simp add: word_le_nat_alt us len)
    with True sent show ?thesis by (simp add: send_handler_def chan_del_timer_def)
  next
    case False
    then obtain x xs where ss: "ss = x # xs" by (cases ss) auto
    have "0 < sum_list ss" using Cons.prems(2) ss by simp
    then have ne: "?s \<noteq> op_len op" using us len by (metis less_add_same_cancel1 less_irrefl)
    have rest: "unat (op_len op - ?s) = sum_list ss" using unat_sub [OF le] us len by simp
    from send_handler_rest [OF Cons.prems(1) le ne small] obtain t1 t2 timer where
      h: "send_handler ch op (Wrote ?s) = (t1 @ t2 @ [AsyncWrite (take (unat (op_len op - ?s)) (op_buff op))],
        SendPending \<lparr>op_buff = op_buff op, op_len = op_len op - ?s, op_beg = op_beg op + ?s, op_timer = timer\<rparr>)"
      and t: "written t1 = []" "written t2 = []" "\<forall>d. AsyncWrite d \<notin> set (t1 @ t2)" by blast
    let ?op = "\<lparr>op_buff = op_buff op, op_len = op_len op - ?s, op_beg = op_beg op + ?s, op_timer = timer\<rparr>"
    from Cons.IH [of ?op] Cons.prems False rest obtain ef where
      e: "send_all ch (take (unat (op_len op - ?s)) (op_buff op)) (SendPending ?op) (map (\<lambda>s. Wrote (of_nat s)) ss) =
        (concat (map (\<lambda>s. take s (op_buff op)) ss), ef, SendDone)"
      "\<forall>d. AsyncWrite d \<in> set ef \<longrightarrow> d = take (length d) (op_buff op)" by auto
    have "length (take (unat (op_len op - ?s)) (op_buff op)) = unat (op_len op - ?s)" using Cons.prems(5) rest by simp
    with h t e sent show ?thesis by auto
  qed
qed

text \<open>
  C36: \<open>send(message, size)\<close> first asks for the whole message to be written, and writes as many bytes as it
  has, but every further write after a partial one is asked to start at the beginning of the buffer
  again: what reaches the connection is the concatenation of prefixes of the message, one per
  completion, as long as the message in all. One write that takes it whole is the message.
\<close>

theorem send_restarts_at_front:
  assumes "bconn ch" and "\<forall>s \<in> set ss. 0 < s" and "sum_list ss = length buff" and "buff \<noteq> []"
    and "length buff < 2 ^ 31" and "async_send ch (Some buff) (of_nat (length buff)) 0 = (ret, ef, out)"
  shows "ret = HNW_BASE_OK \<and> written ef = buff \<and>
    (\<exists>ef'. send_all ch (written ef) out (map (\<lambda>s. Wrote (of_nat s)) ss) =
       (concat (map (\<lambda>s. take s buff) ss), ef', SendDone) \<and>
       (\<forall>d. AsyncWrite d \<in> set ef' \<longrightarrow> d = take (length d) buff)) \<and>
    length (concat (map (\<lambda>s. take s buff) ss)) = length buff \<and>
    (length ss = 1 \<longrightarrow> concat (map (\<lambda>s. take s buff) ss) = buff)"
proof -
  have u: "unat (of_nat (length buff) :: u64) = length buff"
    by (rule unat_of_nat_u64) (use assms(5) in simp)
  have nz: "(of_nat (length buff) :: u64) \<noteq> 0" using u assms(4) by (metis length_0_conv unat_0)
  have ss: "ss \<noteq> []" using assms(3,4) by auto
  have le: "s \<in> set ss \<Longrightarrow> s \<le> length buff" for s using member_le_sum_list [of s ss] assms(3) by simp
  from assms(1,6) nz u obtain timer where
    o: "ret = HNW_BASE_OK" "written ef = buff"
      "out = SendPending \<lparr>op_buff = buff, op_len = of_nat (length buff), op_beg = 0, op_timer = timer\<rparr>"
    by (auto simp: async_send_def Let_def written_add_timer split: prod.splits)
  have "length (concat (map (\<lambda>s. take s buff) ss)) = sum_list (map (length \<circ> (\<lambda>s. take s buff)) ss)"
    by (simp add: length_concat)
  also have "map (length \<circ> (\<lambda>s. take s buff)) ss = ss" using le by (auto intro: map_idI)
  finally have "length (concat (map (\<lambda>s. take s buff) ss)) = length buff" using assms(3) by simp
  moreover have "length ss = 1 \<longrightarrow> concat (map (\<lambda>s. take s buff) ss) = buff"
    using assms(3) by (auto simp: length_Suc_conv)
  ultimately show ?thesis
    using send_all_sizes [OF assms(1,2) ss, of "\<lparr>op_buff = buff, op_len = of_nat (length buff), op_beg = 0, op_timer = timer\<rparr>"]
      assms(3,5) u o by auto
qed

definition sample_channel :: "int channel" where
  "sample_channel = (Channel_new TCP_CLIENT 3)\<lparr>bconn := True, ch_make_shared := True\<rparr>"

theorem send_restarts_at_front_witness:
  "\<exists>ret ef out ef'. async_send sample_channel (Some ''hello'') (of_nat (length ''hello'')) 0 = (ret, ef, out) \<and>
     send_all sample_channel (written ef) out (map (\<lambda>s. Wrote (of_nat s)) [2, 3]) = (''hehel'', ef', SendDone)"
proof -
  obtain ret ef out where a: "async_send sample_channel (Some ''hello'') (of_nat (length ''hello'')) 0 = (ret, ef, out)"
    by (cases "async_send sample_channel (Some ''hello'') (of_nat (length ''hello'')) 0")
  have c: "concat (map (\<lambda>s. take s ''hello'') [2, 3]) = ''hehel''" by (simp add: numeral_eq_Suc)
  have "\<exists>ef'. send_all sample_channel (written ef) out (map (\<lambda>s. Wrote (of_nat s)) [2, 3]) =
      (concat (map (\<lambda>s. take s ''hello'') [2, 3]), ef', SendDone) \<and>
      (\<forall>d. AsyncWrite d \<in> set ef' \<longrightarrow> d = take (length d) ''hello'')"
    by (rule send_restarts_at_front [THEN conjunct2, THEN conjunct2, THEN conjunct1, OF _ _ _ _ _ a])
      (simp_all add: sample_channel_def)
  with a c show ?thesis by metis
qed

subsection \<open>The callback loop drains its source\<close>

text \<open>A channel that can send: connected, with an allocator that works.\<close>

definition can_send :: "(u64 \<Rightarrow> bool) \<Rightarrow> 'c channel \<Rightarrow> bool" where
  "can_send alloc ch \<longleftrightarrow> bconn ch \<and> ch_make_shared ch \<and> alloc (ch_send_buff_size ch) \<and>
     0 < unat (ch_send_buff_size ch) \<and> unat (ch_send_buff_size ch) < 2 ^ 63"

definition out_text :: "send_outcome \<Rightarrow> string" where
  "out_text out = (case out of SendPending op \<Rightarrow> op_buff op | _ \<Rightarrow> [])"

context pull_source
begin

definition send_inv :: "'c channel \<Rightarrow> 's \<Rightarrow> 's send_state \<Rightarrow> bool" where
  "send_inv ch s0 st \<longleftrightarrow> ok (st_src st) \<and>
     pending s0 = st_wire st @ out_text (st_out st) @ pending (st_src st) \<and>
     (case st_out st of
        SendPending op \<Rightarrow> whole_op op \<and> st_asked st = op_buff op \<and>
          length (op_buff op) \<le> unat (ch_send_buff_size ch)
      | SendStopped \<Rightarrow> pending (st_src st) = []
      | SendDone \<Rightarrow> False)"

lemma async_send_cb_round:
  assumes "can_send alloc ch" and "ok s"
    and "async_send_cb (Some pull) alloc ch buff s = (ret, ef, out, buff', s')"
  shows "ret = HNW_BASE_OK \<and> ok s' \<and> written ef = out_text out \<and> pending s = out_text out @ pending s' \<and>
    length (out_text out) \<le> unat (ch_send_buff_size ch) \<and>
    (case out of SendPending op \<Rightarrow> whole_op op | SendStopped \<Rightarrow> pending s' = [] | SendDone \<Rightarrow> False)"
proof -
  let ?n = "unat (ch_send_buff_size ch)"
  have n: "0 < ?n" "?n < 2 ^ 63" using assms(1) by (simp_all add: can_send_def)
  obtain d t where p: "pull s ?n = (d, t)" by (cases "pull s ?n")
  note q = pull_content [OF assms(2) n p] pull_bound [OF assms(2) n p] pull_ok [OF assms(2) n p]
  show ?thesis
  proof (cases "d = []")
    case True
    then have "pending s = []" using pull_progress [OF assms(2) n _ p] by blast
    with q True p assms show ?thesis
      by (auto simp: async_send_cb_def can_send_def out_text_def split: if_splits)
  next
    case False
    have u: "unat (of_nat (length d) :: u64) = length d"
      by (rule unat_of_nat_u64) (use q(2) n(2) in simp)
    then have "(of_nat (length d) :: u64) \<noteq> 0" using False by (metis length_0_conv unat_0)
    with q u False p assms show ?thesis
      by (auto simp: async_send_cb_def async_send_def can_send_def out_text_def whole_op_def written_add_timer
          split: if_splits prod.splits)
  qed
qed

lemma send_start_inv:
  assumes "can_send alloc ch" and "ok s"
  shows "send_inv ch s (send_start pull alloc ch s)"
proof -
  obtain ret ef out buff' s' where a: "async_send_cb (Some pull) alloc ch None s = (ret, ef, out, buff', s')"
    by (cases "async_send_cb (Some pull) alloc ch None s")
  from async_send_cb_round [OF assms a] show ?thesis
    by (simp add: send_start_def a send_inv_def out_text_def split: send_outcome.splits)
qed

lemma send_run_inv:
  "send_run True pull alloc ch st st' \<Longrightarrow> can_send alloc ch \<Longrightarrow> send_inv ch s0 st \<Longrightarrow> send_inv ch s0 st'"
proof (induction rule: send_run.induct)
  case (run_start st)
  then show ?case by simp
next
  case (run_step st st' op r)
  then have I: "send_inv ch s0 st'" by simp
  from run_step obtain s where r: "r = Wrote s" "s = op_len op" by (cases r) auto
  from I run_step have w: "whole_op op" "st_asked st' = op_buff op" and o: "ok (st_src st')"
    and p: "pending s0 = st_wire st' @ op_buff op @ pending (st_src st')"
    by (simp_all add: send_inv_def out_text_def)
  have sent: "wire_part (st_asked st') r = op_buff op" using w r by (simp add: wire_part_def whole_op_def)
  have h: "send_handler ch op r = (chan_del_timer (op_timer op), SendDone)" using r by (simp add: send_handler_def)
  obtain ret ef out buff' s' where
    a: "async_send_cb (Some pull) alloc ch (st_buff st') (st_src st') = (ret, ef, out, buff', s')"
    by (cases "async_send_cb (Some pull) alloc ch (st_buff st') (st_src st')")
  from async_send_cb_round [OF run_step.prems(1) o a] show ?case
    using p by (simp add: send_written_def h sent a send_inv_def out_text_def split: send_outcome.splits)
qed

text \<open>What has been written, what is in flight and what the source holds are the source's content.\<close>

lemma send_run_content:
  assumes "can_send alloc ch" and "ok s" and "send_run True pull alloc ch (send_start pull alloc ch s) st"
  shows "pending s = st_wire st @ out_text (st_out st) @ pending (st_src st) \<and>
    (st_out st = SendStopped \<longrightarrow> st_wire st = pending s)"
  using send_run_inv [OF assms(3,1) send_start_inv [OF assms(1,2)]]
  by (auto simp: send_inv_def out_text_def split: send_outcome.splits)

end

subsection \<open>Receiving\<close>

record recv_op =
  ro_len :: u64
  ro_timer :: bool

definition async_recv ::
  "(u64 \<Rightarrow> bool) \<Rightarrow> 'c channel \<Rightarrow> u64 option \<Rightarrow> err_code \<times> 'c chan_effect list \<times> recv_op option" where
  "async_recv alloc ch buff =
     (if \<not> bconn ch
      then (HNW_BASE_CHANNEL_NOT_CONN, EVENT_CB ch (EvError HNW_BASE_CHANNEL_NOT_CONN), None)
      else
        let buff = (if buff \<noteq> Some (ch_recv_buff_size ch)
                    then (if ch_make_shared ch \<and> alloc (ch_recv_buff_size ch)
                          then Some (ch_recv_buff_size ch) else None)
                    else buff)
        in case buff of
             None \<Rightarrow> (HNW_BASE_ALLOC_FAIL, EVENT_CB ch (EvError HNW_BASE_ALLOC_FAIL), None)
           | Some n \<Rightarrow>
               let (timer, ef) = chan_add_timer (recv_time_out_ms ch)
               in (HNW_BASE_OK, ef @ [AsyncRead n], Some \<lparr>ro_len = n, ro_timer = timer\<rparr>))"

text \<open>
  The handler: \<open>r\<close> is None for an error code. The application's callback runs before the next
  read is started and may close the channel or change its sizes: \<open>ch'\<close> is the channel it leaves.
\<close>

definition recv_handler ::
  "(u64 \<Rightarrow> bool) \<Rightarrow> 'c channel \<Rightarrow> 'c channel \<Rightarrow> recv_op \<Rightarrow> string option \<Rightarrow>
     'c chan_effect list \<times> recv_op option" where
  "recv_handler alloc ch ch' op r =
     (let t = chan_del_timer (ro_timer op)
      in case r of
           None \<Rightarrow> (t @ EVENT_CB ch (EvError HNW_BASE_RECV_DATA_FAIL), None)
         | Some data \<Rightarrow>
             let (_, ef, next) = async_recv alloc ch' (Some (ro_len op))
             in (t @ EVENT_CB ch (EvRecvData data) @ ef, next))"

text \<open>The data of a connection, in the order of the completed reads, up to the first error.\<close>

fun recv_all ::
  "(u64 \<Rightarrow> bool) \<Rightarrow> 'c channel \<Rightarrow> recv_op option \<Rightarrow> string option list \<Rightarrow>
     'c chan_effect list \<times> recv_op option" where
  "recv_all alloc ch (Some op) (r # rs) =
     (let (ef, next) = recv_handler alloc ch ch op r; (ef', out) = recv_all alloc ch next rs
      in (ef @ ef', out))"
| "recv_all alloc ch next rs = ([], next)"

subsection \<open>Accepting: \<open>init_accept\<close>, \<open>before_accept\<close>, \<open>after_accept\<close>\<close>

text \<open>
  \<open>server\<close> is None for a null pointer. The sizes are written through the pointers that are
  passed to \<open>config\<close> of the server.
\<close>

definition init_accept :: "'c channel option \<Rightarrow> 'c channel \<Rightarrow> bool \<times> 'c channel" where
  "init_accept server ch =
     (case server of
        None \<Rightarrow> (False, ch)
      | Some sv \<Rightarrow>
          let ch = ch\<lparr>ch_make_shared := ch_make_shared sv, ch_event_cb := ch_event_cb sv\<rparr>;
              (_, _, r) = config_virtual GET_RECV_BUFF_SIZE (Some (ch_recv_buff_size ch)) sv;
              (_, _, n) = config_virtual GET_SEND_BUFF_SIZE (Some (ch_send_buff_size ch)) sv
          in (True, ch\<lparr>ch_recv_buff_size := (case r of None \<Rightarrow> ch_recv_buff_size ch | Some v \<Rightarrow> v),
                ch_send_buff_size := (case n of None \<Rightarrow> ch_send_buff_size ch | Some v \<Rightarrow> v)\<rparr>))"

definition before_accept :: "'c channel \<Rightarrow> 'c channel" where
  "before_accept ch = ch\<lparr>bconn := True\<rparr>"

definition after_accept :: "(u64 \<Rightarrow> bool) \<Rightarrow> 'c channel \<Rightarrow> 'c chan_effect list \<times> recv_op option" where
  "after_accept alloc ch = snd (async_recv alloc ch None)"

subsection \<open>Properties of configuration and receiving\<close>

lemma config_virtual_get [simp]:
  "config_virtual GET_RECV_BUFF_SIZE (Some v) ch = (HNW_BASE_OK, ch, Some (ch_send_buff_size ch))"
  "config_virtual GET_SEND_BUFF_SIZE (Some v) ch = (HNW_BASE_OK, ch, Some (ch_send_buff_size ch))"
  by (simp_all add: config_virtual_def tcp_server_config_def timer_config_def channel_config_def
      config_get_def)

text \<open>
  The buffer sizes of a channel are never 0, whatever is configured: a size of 0 and a null
  pointer are refused and change nothing, and every selector the channel does not know is
  answered with HNW_BASE_NO_SUPPORT. The read size is not what GET_RECV_BUFF_SIZE reports:
  it yields the send buffer's size.
\<close>

theorem channel_config_sizes:
  assumes "channel_config t data ch = (ret, ch', out)"
    and "ch_recv_buff_size ch \<noteq> 0" and "ch_send_buff_size ch \<noteq> 0"
  shows "ch_recv_buff_size ch' \<noteq> 0 \<and> ch_send_buff_size ch' \<noteq> 0 \<and>
    (ret \<noteq> HNW_BASE_OK \<longrightarrow> ch' = ch \<and> out = data) \<and> (data = None \<longrightarrow> ret \<noteq> HNW_BASE_OK) \<and>
    (t = SET_RECV_BUFF_SIZE \<and> ret = HNW_BASE_OK \<longrightarrow>
       data = Some (ch_recv_buff_size ch') \<and> ch_send_buff_size ch' = ch_send_buff_size ch) \<and>
    (t = GET_RECV_BUFF_SIZE \<and> ret = HNW_BASE_OK \<longrightarrow> out = Some (ch_send_buff_size ch) \<and> ch' = ch)"
  using assms
  by (cases t; cases data)
    (auto simp: channel_config_def config_set_nonzero_def config_set_def config_get_def split: if_splits)


theorem channel_config_sizes_witness:
  "\<exists>ch'. channel_config SET_RECV_BUFF_SIZE (Some 4096) sample_channel = (HNW_BASE_OK, ch', Some 4096) \<and>
     ch_recv_buff_size ch' = 4096"
proof -
  obtain ret ch' out where c: "channel_config SET_RECV_BUFF_SIZE (Some 4096) sample_channel = (ret, ch', out)"
    by (cases "channel_config SET_RECV_BUFF_SIZE (Some 4096) sample_channel")
  have "ret = HNW_BASE_OK \<and> out = Some 4096"
    using c by (simp add: channel_config_def config_set_nonzero_def config_set_def)
  with c channel_config_sizes [OF c] show ?thesis
    by (simp add: sample_channel_def Channel_new_def default_recv_buff_size_def
        default_send_buff_size_def)
qed

text \<open>
  A connection an acceptor takes over reads with the acceptor's send buffer size, not with
  its receive buffer size: GET_RECV_BUFF_SIZE, through which \<open>init_accept\<close> asks for it,
  reports the wrong field. Everything else is inherited as it should be.
\<close>

theorem accepted_channel_sizes:
  "init_accept (Some sv) ch = (True, ch\<lparr>ch_make_shared := ch_make_shared sv,
     ch_event_cb := ch_event_cb sv, ch_recv_buff_size := ch_send_buff_size sv,
     ch_send_buff_size := ch_send_buff_size sv\<rparr>)"
  by (simp add: init_accept_def Let_def)

text \<open>Received data is handed on read by read.\<close>

lemma recv_all_data:
  assumes "bconn ch" and "ch_event_cb ch = Some cb" and "recv_time_out_ms ch = 0"
    and "ro_len op = ch_recv_buff_size ch" and "\<not> ro_timer op"
  shows "recv_all alloc ch (Some op) (map Some ds) =
    (concat (map (\<lambda>d. [EventCb cb (ch_handle ch) (EvRecvData d), AsyncRead (ch_recv_buff_size ch)]) ds),
     Some op)"
proof (induction ds)
  case Nil
  then show ?case by simp
next
  case (Cons d ds)
  have "op = \<lparr>ro_len = ch_recv_buff_size ch, ro_timer = False\<rparr>" using assms(4,5) by simp
  then have "recv_handler alloc ch ch op (Some d) =
      ([EventCb cb (ch_handle ch) (EvRecvData d), AsyncRead (ch_recv_buff_size ch)], Some op)"
    using assms by (simp add: recv_handler_def async_recv_def chan_add_timer_def chan_del_timer_def EVENT_CB_def)
  with Cons.IH show ?case by simp
qed

end
