(* ===== verification/Hnw_Asio.thy ===== *)
theory Hnw_Asio
  imports Hnw_Channel
begin

section \<open>The channels of Boost.Asio\<close>

text \<open>
  \<^verbatim>\<open>Src/base/asio/channel/\<close>: the TCP client, TCP server, UDP and timer channels, as functions of
  the channel record. What the operating system answers - whether an address parses, a name
  resolves, a socket opens - is the argument \<open>N\<close>, one function per call. It also says whether the
  library was built with OpenSSL, which TLS handshakes and shutdowns succeed, and which certificate and
  key files OpenSSL reads.
\<close>

record net =
  net_address :: "string \<Rightarrow> bool"
  net_resolve :: "NetPoint \<Rightarrow> bool"
  net_open :: "NetPoint \<Rightarrow> bool"
  net_bind :: "NetPoint \<Rightarrow> bool"
  net_listen :: "NetPoint \<Rightarrow> bool"
  net_shutdown :: "int \<Rightarrow> bool"
  net_alloc :: "u64 \<Rightarrow> bool"
  net_openssl :: bool
  net_handshake :: "int \<Rightarrow> bool"
  net_tls_shutdown :: "int \<Rightarrow> bool"
  net_tls_file :: "config_type \<Rightarrow> string \<Rightarrow> bool"

subsection \<open>The TCP client\<close>

definition tcp_client_init :: "'c channel \<Rightarrow> NetPoint \<Rightarrow> err_code" where
  "tcp_client_init ch local =
     (if ch_handle ch = HNW_INVALID_HANDLE then HNW_BASE_INVAILD_HANDLE else HNW_BASE_OK)"

text \<open>
  \<open>connect\<close>: the port is converted to 16 bits by the end point's constructor. The last
  component is the timer of the connection attempt, None when none is made.
\<close>

definition tcp_client_connect ::
  "net \<Rightarrow> 'c channel \<Rightarrow> NetPoint \<Rightarrow> err_code \<times> 'c chan_effect list \<times> bool option" where
  "tcp_client_connect N ch remote =
     (if \<not> check_endpoint remote then (HNW_BASE_ADDRESS_ENDPOINT_ERROR, [], None)
      else if \<not> net_address N (np_ip remote) then (HNW_BASE_BIND_ADDRESS_FAIL, [], None)
      else let (timer, ef) = chan_add_timer (connect_time_out_ms ch)
           in (HNW_BASE_OK, ef @ [AsyncConnect (np_ip remote) (word_of_int (np_port remote))], Some timer))"

text \<open>
  The handler of the connection attempt; \<open>react\<close> is what the application's callback does to the
  channel before the first read is started.
\<close>

definition tcp_client_con_handle ::
  "net \<Rightarrow> ('c channel \<Rightarrow> 'c channel) \<Rightarrow> 'c channel \<Rightarrow> bool \<Rightarrow> bool \<Rightarrow>
     'c channel \<times> 'c chan_effect list \<times> recv_op option" where
  "tcp_client_con_handle N react ch timer ok =
     (let t = chan_del_timer timer
      in if \<not> ok then (ch, t @ EVENT_CB ch (EvError HNW_BASE_CONNECT_FAIL), None)
         else let ch = ch\<lparr>bconn := True\<rparr>; ev = EVENT_CB ch EvConnectEstablish; ch = react ch;
                  (_, ef, next) = async_recv (net_alloc N) ch None
              in (ch, t @ ev @ ef, next))"

definition tcp_client_close :: "net \<Rightarrow> 'c channel \<Rightarrow> err_code \<times> 'c channel \<times> 'c chan_effect list" where
  "tcp_client_close N ch =
     (if bconn ch
      then let ch = ch\<lparr>bconn := False\<rparr>; ev = EVENT_CB_ASYNC ch EvClosed
           in if \<not> net_shutdown N (ch_handle ch)
              then (HNW_BASE_NUKNOW_ERROR, ch, ev @ EVENT_CB ch (EvError HNW_BASE_NUKNOW_ERROR))
              else (HNW_BASE_OK, ch, ev @ [CloseSocket])
      else (HNW_BASE_EMPTY_SOCKET, ch, []))"

subsection \<open>UDP\<close>

definition udp_init :: "net \<Rightarrow> 'c channel \<Rightarrow> NetPoint \<Rightarrow> err_code \<times> 'c channel" where
  "udp_init N ch local =
     (if \<not> check_endpoint local then (HNW_BASE_ADDRESS_ENDPOINT_ERROR, ch)
      else if \<not> net_resolve N local then (HNW_BASE_ADDRESS_ENDPOINT_ERROR, ch)
      else if \<not> net_open N local then (HNW_BASE_SOCKET_OPEN_FAIL, ch)
      else let ch = ch\<lparr>sock_open := True\<rparr>
           in if \<not> net_bind N local then (HNW_BASE_BIND_ADDRESS_FAIL, ch) else (HNW_BASE_OK, ch))"

definition udp_connect ::
  "net \<Rightarrow> ('c channel \<Rightarrow> 'c channel) \<Rightarrow> 'c channel \<Rightarrow> NetPoint \<Rightarrow>
     err_code \<times> 'c channel \<times> 'c chan_effect list \<times> recv_op option" where
  "udp_connect N react ch remote =
     (if \<not> check_endpoint remote then (HNW_BASE_ADDRESS_ENDPOINT_ERROR, ch, [], None)
      else if \<not> net_resolve N remote then (HNW_BASE_ADDRESS_ENDPOINT_ERROR, ch, [], None)
      else let ev = EVENT_CB ch EvConnectEstablish; ch = react ch;
               (ret, ef, next) = async_recv (net_alloc N) ch None
           in (ret, ch, ev @ ef, next))"

definition udp_close :: "net \<Rightarrow> 'c channel \<Rightarrow> err_code \<times> 'c channel \<times> 'c chan_effect list" where
  "udp_close N ch =
     (if sock_open ch
      then if \<not> net_shutdown N (ch_handle ch)
           then (HNW_BASE_NUKNOW_ERROR, ch, EVENT_CB ch (EvError HNW_BASE_NUKNOW_ERROR))
           else (HNW_BASE_OK, ch\<lparr>sock_open := False\<rparr>, CloseSocket # EVENT_CB_ASYNC ch EvClosed)
      else (HNW_BASE_EMPTY_SOCKET, ch, []))"

subsection \<open>Timers\<close>

definition timer_connect :: "'c channel \<Rightarrow> err_code \<times> 'c channel \<times> 'c chan_effect list" where
  "timer_connect ch =
     (let d = chan_del_timer (timer_on ch); (timer, ef) = chan_add_timer (time_out_ms ch)
      in (HNW_BASE_OK, ch\<lparr>timer_on := timer\<rparr>, d @ ef))"

definition timer_fire :: "'c channel \<Rightarrow> 'c chan_effect list" where
  "timer_fire ch = EVENT_CB ch (EvError HNW_BASE_TIMER_TRIGGER) @
     (case timer_call ch of None \<Rightarrow> [] | Some cb \<Rightarrow> [CallTimer (Some cb)])"

definition timer_close :: "'c channel \<Rightarrow> err_code \<times> 'c channel \<times> 'c chan_effect list" where
  "timer_close ch = (HNW_BASE_OK, ch, chan_del_timer (timer_on ch))"

subsection \<open>The TCP server\<close>

text \<open>The handle counter: \<open>generate_handle\<close> of \<^verbatim>\<open>define.hpp\<close>, before the \<^verbatim>\<open>int64\<close> overflows.\<close>

definition generate_handle :: "int \<Rightarrow> int" where
  "generate_handle g = (let g = g + 1 in if g < 0 then 0 else g)"

definition tcp_server_init :: "net \<Rightarrow> bool \<Rightarrow> 'c channel \<Rightarrow> NetPoint \<Rightarrow> err_code \<times> 'c channel" where
  "tcp_server_init N accept_cb ch local =
     (if \<not> accept_cb then (HNW_BASE_EMPYTY_ACCEPT_CB, ch)
      else if \<not> check_endpoint local then (HNW_BASE_ADDRESS_ENDPOINT_ERROR, ch)
      else if \<not> net_resolve N local then (HNW_BASE_ADDRESS_ENDPOINT_ERROR, ch)
      else if \<not> net_open N local then (HNW_BASE_SOCKET_OPEN_FAIL, ch)
      else let ch = ch\<lparr>sock_open := True\<rparr>
           in if \<not> net_bind N local then (HNW_BASE_BIND_ADDRESS_FAIL, ch)
              else if \<not> net_listen N local then (HNW_BASE_LISTEN_FAIL, ch)
              else (HNW_BASE_OK, ch))"

text \<open>A client waits in every accept that is under way: \<open>async_one_accept\<close> creates it.\<close>

definition new_client :: "int \<Rightarrow> 'c channel \<Rightarrow> int \<times> 'c channel" where
  "new_client g sv =
     (let g = generate_handle g in (g, snd (init_accept (Some sv) (Channel_new TCP_CLIENT g))))"

definition new_ssl_client :: "int \<Rightarrow> 'c channel \<Rightarrow> int \<times> 'c channel" where
  "new_ssl_client g sv =
     (let g = generate_handle g in (g, snd (init_accept (Some sv) (Channel_new SSL_CLIENT g))))"

definition async_one_accept :: "int \<Rightarrow> 'c channel \<Rightarrow> int \<times> 'c channel \<times> 'c chan_effect list" where
  "async_one_accept g sv =
     (let (g, cli) = new_client g sv in (g, cli, [AsyncAccept (ch_handle cli)]))"

text \<open>\<open>ASIOSSLServerChannel\<close> overrides it, and inherits \<open>accept\<close>, which calls it.\<close>

definition ssl_async_one_accept :: "int \<Rightarrow> 'c channel \<Rightarrow> int \<times> 'c channel \<times> 'c chan_effect list" where
  "ssl_async_one_accept g sv =
     (let (g, cli) = new_ssl_client g sv in (g, cli, [AsyncAccept (ch_handle cli)]))"

definition one_accept :: "int \<Rightarrow> 'c channel \<Rightarrow> int \<times> 'c channel \<times> 'c chan_effect list" where
  "one_accept g sv = (if ch_type sv = SSL_SERVER then ssl_async_one_accept g sv else async_one_accept g sv)"

lemma one_accept_eq:
  "one_accept g sv = (let g = generate_handle g;
       cli = snd (init_accept (Some sv) (Channel_new (if ch_type sv = SSL_SERVER then SSL_CLIENT else TCP_CLIENT) g))
     in (g, cli, [AsyncAccept (ch_handle cli)]))"
  by (simp add: one_accept_def ssl_async_one_accept_def async_one_accept_def new_ssl_client_def new_client_def Let_def)

fun accept_loop :: "nat \<Rightarrow> int \<Rightarrow> 'c channel \<Rightarrow> int \<times> 'c channel list \<times> 'c chan_effect list" where
  "accept_loop 0 g sv = (g, [], [])"
| "accept_loop (Suc n) g sv =
     (let (g, cli, ef) = one_accept g sv; (g, clis, ef') = accept_loop n g sv
      in (g, cli # clis, ef @ ef'))"

definition tcp_server_accept :: "int \<Rightarrow> 'c channel \<Rightarrow> int \<times> 'c channel list \<times> 'c chan_effect list" where
  "tcp_server_accept g sv = accept_loop (unat (ch_accept_num sv)) g sv"

definition tcp_server_close :: "'c channel \<Rightarrow> err_code \<times> 'c channel \<times> 'c chan_effect list" where
  "tcp_server_close ch =
     (if sock_open ch
      then (HNW_BASE_OK, ch\<lparr>sock_open := False\<rparr>, CloseSocket # EVENT_CB_ASYNC ch EvClosed)
      else (HNW_BASE_EMPTY_SOCKET, ch, []))"

subsection \<open>Properties\<close>

lemma accept_loop_handles:
  "0 \<le> g + 1 \<Longrightarrow> accept_loop n g sv = (g', clis, ef) \<Longrightarrow>
     g' = g + int n \<and> map ch_handle clis = map (\<lambda>i. g + 1 + int i) [0..<n] \<and>
     ef = map (\<lambda>c. AsyncAccept (ch_handle c)) clis"
proof (induction n arbitrary: g g' clis ef)
  case 0
  then show ?case by simp
next
  case (Suc n)
  let ?c = "snd (init_accept (Some sv) (Channel_new (if ch_type sv = SSL_SERVER then SSL_CLIENT else TCP_CLIENT) (g + 1)))"
  have one: "one_accept g sv = (g + 1, ?c, [AsyncAccept (ch_handle ?c)])"
    using Suc.prems(1) by (simp add: one_accept_eq generate_handle_def Let_def)
  have h: "ch_handle ?c = g + 1" by (simp add: init_accept_def Channel_new_def Let_def split: prod.splits)
  obtain g1 cs e where r: "accept_loop n (g + 1) sv = (g1, cs, e)" by (cases "accept_loop n (g + 1) sv")
  have "0 \<le> g + 1 + 1" using Suc.prems(1) by simp
  from Suc.IH [OF this r] Suc.prems(2) one r h show ?case
    by (auto simp: map_upt_Suc algebra_simps simp del: upt_Suc)
qed

lemma accept_loop_sizes:
  "accept_loop n g sv = (g', clis, ef) \<Longrightarrow> c \<in> set clis \<Longrightarrow> ch_send_buff_size c = ch_send_buff_size sv"
proof (induction n arbitrary: g g' clis ef)
  case 0
  then show ?case by simp
next
  case (Suc n)
  have s: "ch_send_buff_size (snd (init_accept (Some sv) ch)) = ch_send_buff_size sv" for ch
    by (simp add: init_accept_def Let_def)
  show ?case
    using Suc.prems Suc.IH
    by (auto simp: one_accept_eq Let_def s split: prod.splits)
qed

text \<open>
  A UDP channel neither sends nor receives. Nothing sets its connected flag, so \<open>connect\<close>
  announces the connection, then reports HNW_BASE_CHANNEL_NOT_CONN as an error event and as its
  result, and every send of data through the channel fails the same way.
\<close>

theorem udp_never_connected:
  assumes "udp_init N (Channel_new UDP h) local = (HNW_BASE_OK, ch)"
    and "check_endpoint remote" and "net_resolve N remote"
  shows "udp_connect N (\<lambda>ch. ch) (ch\<lparr>ch_event_cb := Some cb\<rparr>) remote =
      (HNW_BASE_CHANNEL_NOT_CONN, ch\<lparr>ch_event_cb := Some cb\<rparr>,
       [EventCb cb h EvConnectEstablish, EventCb cb h (EvError HNW_BASE_CHANNEL_NOT_CONN)], None) \<and>
    (\<forall>b n. n \<noteq> 0 \<longrightarrow> fst (async_send ch (Some b) n 0) = HNW_BASE_CHANNEL_NOT_CONN) \<and>
    (\<forall>f buff s. fst (async_send_cb (Some f) alloc ch buff s) = HNW_BASE_CHANNEL_NOT_CONN)"
  using assms
  by (auto simp: udp_init_def udp_connect_def async_recv_def async_send_def async_send_cb_def
      EVENT_CB_def Channel_new_def Let_def split: if_splits)

definition net1 :: net where
  "net1 = \<lparr>net_address = \<lambda>_. True, net_resolve = \<lambda>_. True, net_open = \<lambda>_. True, net_bind = \<lambda>_. True,
     net_listen = \<lambda>_. True, net_shutdown = \<lambda>_. True, net_alloc = \<lambda>_. True, net_openssl = True,
     net_handshake = \<lambda>_. True, net_tls_shutdown = \<lambda>_. True, net_tls_file = \<lambda>_ _. True\<rparr>"

theorem udp_never_connected_witness:
  "\<exists>ch. udp_init net1 (Channel_new UDP 0 :: int channel) \<lparr>np_ip = ''127.0.0.1'', np_port = 9\<rparr> =
      (HNW_BASE_OK, ch) \<and>
     fst (udp_connect net1 (\<lambda>ch. ch) (ch\<lparr>ch_event_cb := Some None\<rparr>)
       \<lparr>np_ip = ''127.0.0.1'', np_port = 10\<rparr>) = HNW_BASE_CHANNEL_NOT_CONN"
proof -
  let ?l = "\<lparr>np_ip = ''127.0.0.1'', np_port = 9\<rparr>"
  let ?r = "\<lparr>np_ip = ''127.0.0.1'', np_port = 10\<rparr>"
  let ?ch = "(Channel_new UDP 0 :: int channel)\<lparr>sock_open := True\<rparr>"
  have i: "udp_init net1 (Channel_new UDP 0 :: int channel) ?l = (HNW_BASE_OK, ?ch)"
    by (simp add: udp_init_def net1_def check_endpoint_def)
  have "check_endpoint ?r" and "net_resolve net1 ?r" by (simp_all add: check_endpoint_def net1_def)
  from udp_never_connected [OF i this, of None "\<lambda>_. True", THEN conjunct1] i
  show ?thesis by simp
qed

text \<open>
  Closing a TCP client while its connection is being established does not stop it: \<open>close\<close>
  reports HNW_BASE_EMPTY_SOCKET and asks nothing of the socket, and when the attempt succeeds the
  channel counts as connected, announces the connection and reads. Closing it when it is
  connected announces the end once and closes the socket; a second close does nothing.
\<close>

theorem tcp_close_while_connecting:
  assumes "\<not> bconn ch" and "ch_event_cb ch = Some cb" and "ch_make_shared ch"
    and "net_alloc N (ch_recv_buff_size ch)"
  shows "tcp_client_close N ch = (HNW_BASE_EMPTY_SOCKET, ch, []) \<and>
    (\<exists>ef next. tcp_client_con_handle N (\<lambda>ch. ch) ch timer True = (ch\<lparr>bconn := True\<rparr>, ef, Some next) \<and>
       EventCb cb (ch_handle ch) EvConnectEstablish \<in> set ef \<and> AsyncRead (ch_recv_buff_size ch) \<in> set ef) \<and>
    (net_shutdown N (ch_handle ch) \<longrightarrow>
       tcp_client_close N (ch\<lparr>bconn := True\<rparr>) =
         (HNW_BASE_OK, ch, [EventCbAsync (Some cb) (ch_handle ch) EvClosed, CloseSocket]))"
  using assms
  by (cases ch) (auto simp: tcp_client_close_def tcp_client_con_handle_def async_recv_def EVENT_CB_def
      EVENT_CB_ASYNC_def chan_add_timer_def chan_del_timer_def Let_def)

theorem tcp_close_while_connecting_witness:
  "\<exists>ef next. tcp_client_con_handle net1 (\<lambda>ch. ch)
     ((Channel_new TCP_CLIENT 4 :: int channel)\<lparr>ch_event_cb := Some None, ch_make_shared := True\<rparr>) False True =
     ((Channel_new TCP_CLIENT 4)\<lparr>ch_event_cb := Some None, ch_make_shared := True, bconn := True\<rparr>, ef, Some next) \<and>
     EventCb None 4 EvConnectEstablish \<in> set ef"
  using tcp_close_while_connecting
    [of "(Channel_new TCP_CLIENT 4 :: int channel)\<lparr>ch_event_cb := Some None, ch_make_shared := True\<rparr>"
      None net1 False]
  by (simp add: Channel_new_def net1_def) blast

text \<open>
  A server starts as many accepts as it is configured for, each with a client channel of its
  own whose handle was never given out before.
\<close>

theorem accepts_are_fresh:
  assumes "-1 \<le> g" and "tcp_server_accept g sv = (g', clis, ef)"
  shows "length clis = unat (ch_accept_num sv) \<and> distinct (map ch_handle clis) \<and>
    (\<forall>c \<in> set clis. g < ch_handle c \<and> ch_handle c \<le> g' \<and> ch_send_buff_size c = ch_send_buff_size sv) \<and>
    ef = map (\<lambda>c. AsyncAccept (ch_handle c)) clis"
proof -
  have "0 \<le> g + 1" using assms(1) by simp
  note r = accept_loop_handles [OF this assms(2) [unfolded tcp_server_accept_def]]
  then have m: "map ch_handle clis = map (\<lambda>i. g + 1 + int i) [0..<unat (ch_accept_num sv)]" by simp
  have len: "length clis = unat (ch_accept_num sv)" using m by (metis diff_zero length_map length_upt)
  moreover have "distinct (map ch_handle clis)" unfolding m by (simp add: distinct_map inj_on_def)
  moreover have "g < ch_handle c \<and> ch_handle c \<le> g'" if "c \<in> set clis" for c
  proof -
    have "ch_handle c \<in> set (map ch_handle clis)" using that by simp
    then obtain i where i: "i < unat (ch_accept_num sv)" and h: "ch_handle c = g + 1 + int i"
      unfolding m by auto
    have "g' = g + int (unat (ch_accept_num sv))" using r by blast
    with i h show ?thesis by linarith
  qed
  moreover have "c \<in> set clis \<Longrightarrow> ch_send_buff_size c = ch_send_buff_size sv" for c
    using accept_loop_sizes [OF assms(2) [unfolded tcp_server_accept_def]] by blast
  ultimately show ?thesis using r by blast
qed

theorem accepts_are_fresh_witness:
  "\<exists>g' clis ef. tcp_server_accept 7 (Channel_new TCP_SERVER 0 :: int channel) = (g', clis, ef) \<and> length clis = 1"
proof -
  obtain g' clis ef where t: "tcp_server_accept 7 (Channel_new TCP_SERVER 0 :: int channel) = (g', clis, ef)"
    by (cases "tcp_server_accept 7 (Channel_new TCP_SERVER 0 :: int channel)")
  with accepts_are_fresh [OF _ t] show ?thesis by (simp add: Channel_new_def)
qed

end
