(* ===== verification/Hnw_Ssl.thy ===== *)
theory Hnw_Ssl
  imports Hnw_Asio
begin

section \<open>The TLS channels\<close>

text \<open>
  \<^verbatim>\<open>Src/base/asio/channel/ssl_client_channel.hpp\<close> and \<^verbatim>\<open>ssl_server_channel.hpp\<close>, built when CMake
  finds OpenSSL. The client sends, receives and times out as \<open>ASIOClientChannel\<close> does; the server
  inherits all but the accept and the configuration from the TCP server. What OpenSSL answers
  is in the record \<open>net\<close>.
\<close>

subsection \<open>The client\<close>

definition ssl_client_init :: "'c channel \<Rightarrow> NetPoint \<Rightarrow> err_code" where
  "ssl_client_init ch local =
     (if ch_handle ch = HNW_INVALID_HANDLE then HNW_BASE_INVAILD_HANDLE else HNW_BASE_OK)"

definition ssl_client_connect ::
  "net \<Rightarrow> 'c channel \<Rightarrow> NetPoint \<Rightarrow> err_code \<times> 'c chan_effect list \<times> bool option" where
  "ssl_client_connect N ch remote =
     (if \<not> check_endpoint remote then (HNW_BASE_ADDRESS_ENDPOINT_ERROR, [], None)
      else if \<not> net_address N (np_ip remote) then (HNW_BASE_BIND_ADDRESS_FAIL, [], None)
      else let (timer, ef) = chan_add_timer (connect_time_out_ms ch)
           in (HNW_BASE_OK, ef @ [AsyncConnect (np_ip remote) (word_of_int (np_port remote))], Some timer))"

text \<open>
  The TCP connection is made: the handshake starts, with the timer of the attempt still running. A
  failed connection does not cancel that timer.
\<close>

definition ssl_client_con_handle :: "'c channel \<Rightarrow> bool \<Rightarrow> 'c chan_effect list" where
  "ssl_client_con_handle ch ok =
     (if \<not> ok then EVENT_CB ch (EvError HNW_BASE_CONNECT_FAIL) else [AsyncHandshake])"

definition ssl_client_handshake_handle ::
  "net \<Rightarrow> ('c channel \<Rightarrow> 'c channel) \<Rightarrow> 'c channel \<Rightarrow> bool \<Rightarrow> bool \<Rightarrow>
     'c channel \<times> 'c chan_effect list \<times> recv_op option" where
  "ssl_client_handshake_handle N react ch timer ok =
     (let t = chan_del_timer timer
      in if \<not> ok then (ch, t @ EVENT_CB ch (EvError HNW_BASE_SSL_CLIENT_HANDSHAKE_FAIL), None)
         else let ch = ch\<lparr>bconn := True\<rparr>; ev = EVENT_CB ch EvConnectEstablish; ch = react ch;
                  (_, ef, next) = async_recv (net_alloc N) ch None
              in (ch, t @ ev @ ef, next))"

text \<open>Unlike the TCP client it announces nothing, and the socket is left to the destructor.\<close>

definition ssl_client_close :: "net \<Rightarrow> 'c channel \<Rightarrow> err_code \<times> 'c channel \<times> 'c chan_effect list" where
  "ssl_client_close N ch =
     (if bconn ch
      then if \<not> net_tls_shutdown N (ch_handle ch)
           then (HNW_BASE_NUKNOW_ERROR, ch, TlsShutdown # EVENT_CB ch (EvError HNW_BASE_NUKNOW_ERROR))
           else (HNW_BASE_OK, ch\<lparr>bconn := False\<rparr>, [TlsShutdown])
      else (HNW_BASE_EMPTY_SOCKET, ch, []))"

text \<open>The server's side of the handshake, which waits for the peer.\<close>

definition ssl_before_accept :: "net \<Rightarrow> 'c channel \<Rightarrow> bool \<times> 'c channel \<times> 'c chan_effect list" where
  "ssl_before_accept N ch =
     (if \<not> net_handshake N (ch_handle ch)
      then (False, ch, EVENT_CB ch (EvError HNW_BASE_SSL_SERVER_HANDSHAKE_FAIL))
      else (True, before_accept ch, []))"

subsection \<open>The server's files\<close>

text \<open>
  \<open>ASIOSSLServerChannel::config\<close> for the selectors whose data is a path; the others go to the TCP
  server's \<open>config\<close>. None: OpenSSL does not read the file, and the exception leaves the call.
\<close>

definition ssl_server_config_path :: "net \<Rightarrow> config_type \<Rightarrow> string \<Rightarrow> err_code option" where
  "ssl_server_config_path N config_type path =
     (if config_type = SET_SSL_SERVER_CERT_FILE_PATH \<or> config_type = SET_SSL_SERVER_PRI_KEY_FILE_PATH \<or>
         config_type = SET_SSL_SERVER_TEMP_DH_FILE_PATH
      then if net_tls_file N config_type path then Some HNW_BASE_OK else None
      else Some HNW_BASE_NO_SUPPORT)"

end
