(* ===== verification/Hnw_Service.thy ===== *)
theory Hnw_Service
  imports Hnw_Ssl Std_Map
begin

section \<open>The base service\<close>

text \<open>
  \<^verbatim>\<open>Src/base/define/service.hpp\<close> and \<^verbatim>\<open>Src/base/asio/service/asio_service.hpp\<close>: the table of
  channels behind the handles, and the operations of \<^verbatim>\<open>hnw_base.h\<close>.
  \<open>channel_map_\<close> is ordered here; only \<open>clear_and_close_channels\<close> visits it as a whole. The
  handle counter, a global of \<^verbatim>\<open>define.hpp\<close>, is part of the state. Calls of application callbacks
  are effects (\<open>EventCb\<close>); what such a callback does to the service is a later operation.
\<close>

record 'c service =
  sv_make_shared :: bool
  sv_recv_buff_size :: u64
  sv_send_buff_size :: u64
  sv_accept_num :: u64
  channel_map :: "(int, 'c channel) omap"
  g_handle :: int

definition Service_new :: "'c service" where
  "Service_new = \<lparr>sv_make_shared = True, sv_recv_buff_size = default_recv_buff_size,
     sv_send_buff_size = default_send_buff_size, sv_accept_num = default_accept_num,
     channel_map = [], g_handle = HNW_INVALID_HANDLE\<rparr>"

subsection \<open>The channel table\<close>

definition get_channel :: "'c service \<Rightarrow> int \<Rightarrow> 'c channel option" where
  "get_channel sv handle = omap_get (channel_map sv) handle"

definition del_channel :: "'c service \<Rightarrow> int \<Rightarrow> 'c service" where
  "del_channel sv handle = sv\<lparr>channel_map := omap_del (channel_map sv) handle\<rparr>"

definition add_channel_to_map :: "'c service \<Rightarrow> 'c channel \<Rightarrow> err_code \<times> 'c service" where
  "add_channel_to_map sv ch =
     (HNW_BASE_OK, sv\<lparr>channel_map := omap_put (channel_map sv) (ch_handle ch) ch\<rparr>)"

text \<open>A method of a channel in the table has changed the channel.\<close>

definition store_channel :: "'c service \<Rightarrow> int \<Rightarrow> 'c channel \<Rightarrow> 'c service" where
  "store_channel sv handle ch =
     (case get_channel sv handle of
        None \<Rightarrow> sv
      | Some _ \<Rightarrow> sv\<lparr>channel_map := omap_put (channel_map sv) handle ch\<rparr>)"

definition get_cache :: "net \<Rightarrow> 'c service \<Rightarrow> u64 \<Rightarrow> bool" where
  "get_cache N sv n = (sv_make_shared sv \<and> net_alloc N n)"

subsection \<open>The virtual methods of a channel\<close>

definition channel_close :: "net \<Rightarrow> 'c channel \<Rightarrow> err_code \<times> 'c channel \<times> 'c chan_effect list" where
  "channel_close N ch =
     (case ch_type ch of
        TCP_CLIENT \<Rightarrow> tcp_client_close N ch
      | SSL_CLIENT \<Rightarrow> ssl_client_close N ch
      | SSL_SERVER \<Rightarrow> tcp_server_close ch
      | TCP_SERVER \<Rightarrow> tcp_server_close ch
      | UDP \<Rightarrow> udp_close N ch
      | TIMER \<Rightarrow> timer_close ch
      | _ \<Rightarrow> (HNW_BASE_NO_SUPPORT, ch, []))"

definition channel_connect ::
  "net \<Rightarrow> 'c channel \<Rightarrow> NetPoint \<Rightarrow> err_code \<times> 'c channel \<times> 'c chan_effect list" where
  "channel_connect N ch remote =
     (case ch_type ch of
        TCP_CLIENT \<Rightarrow> (let (ret, ef, _) = tcp_client_connect N ch remote in (ret, ch, ef))
      | SSL_CLIENT \<Rightarrow> (let (ret, ef, _) = ssl_client_connect N ch remote in (ret, ch, ef))
      | UDP \<Rightarrow> (let (ret, ch, ef, _) = udp_connect N (\<lambda>ch. ch) ch remote in (ret, ch, ef))
      | TIMER \<Rightarrow> timer_connect ch
      | _ \<Rightarrow> (HNW_BASE_NO_SUPPORT, ch, []))"

definition channel_init :: "net \<Rightarrow> 'c channel \<Rightarrow> NetPoint \<Rightarrow> err_code \<times> 'c channel" where
  "channel_init N ch local =
     (case ch_type ch of
        TCP_CLIENT \<Rightarrow> (tcp_client_init ch local, ch)
      | SSL_CLIENT \<Rightarrow> (ssl_client_init ch local, ch)
      | SSL_SERVER \<Rightarrow> tcp_server_init N True ch local
      | TCP_SERVER \<Rightarrow> tcp_server_init N True ch local
      | UDP \<Rightarrow> udp_init N ch local
      | TIMER \<Rightarrow> (HNW_BASE_OK, ch)
      | _ \<Rightarrow> (HNW_BASE_NO_SUPPORT, ch))"

text \<open>
  The destructor calls \<open>close\<close>. The macro \<open>EVENT_CB_ASYNC\<close>, which \<open>close\<close> uses to announce the end
  later, takes a pointer to the channel with \<open>shared_from_this\<close>. When the destructor runs no owner
  is left: it throws \<open>bad_weak_ptr\<close>, and an exception that leaves a destructor ends the
  process. False: the close that the destructor runs comes to such an announcement.
\<close>

definition channel_destroy :: "net \<Rightarrow> 'c channel \<Rightarrow> bool" where
  "channel_destroy N ch =
     (let (_, _, ef) = channel_close N ch
      in list_all (\<lambda>e. case e of EventCbAsync _ _ _ \<Rightarrow> False | _ \<Rightarrow> True) ef)"

subsection \<open>The operations\<close>

definition service_connect ::
  "net \<Rightarrow> 'c service \<Rightarrow> int \<Rightarrow> NetPoint \<Rightarrow> err_code \<times> 'c service \<times> 'c chan_effect list" where
  "service_connect N sv handle remote =
     (case get_channel sv handle of
        Some ch \<Rightarrow> (let (ret, ch, ef) = channel_connect N ch remote in (ret, store_channel sv handle ch, ef))
      | None \<Rightarrow> (HNW_BASE_INVAILD_HANDLE, sv, []))"

text \<open>The clients that wait in the accepts under way are the third component.\<close>

definition service_accept ::
  "'c service \<Rightarrow> int \<Rightarrow> err_code \<times> 'c service \<times> 'c channel list \<times> 'c chan_effect list" where
  "service_accept sv handle =
     (case get_channel sv handle of
        Some ch \<Rightarrow>
          if ch_type ch = TCP_SERVER \<or> ch_type ch = SSL_SERVER
          then let (g, clis, ef) = tcp_server_accept (g_handle sv) ch
               in (HNW_BASE_OK, sv\<lparr>g_handle := g\<rparr>, clis, ef)
          else (HNW_BASE_NO_SUPPORT, sv, [], [])
      | None \<Rightarrow> (HNW_BASE_INVAILD_HANDLE, sv, [], []))"

definition service_close :: "net \<Rightarrow> 'c service \<Rightarrow> int \<Rightarrow> err_code \<times> 'c service \<times> 'c chan_effect list" where
  "service_close N sv handle =
     (case get_channel sv handle of
        None \<Rightarrow> (HNW_BASE_INVAILD_HANDLE, sv, [])
      | Some ch \<Rightarrow>
          let sv = del_channel sv handle; (ret, _, ef) = channel_close N ch in (ret, sv, ef))"

definition service_config_global ::
  "'c service \<Rightarrow> config_type \<Rightarrow> u64 option \<Rightarrow> err_code \<times> 'c service" where
  "service_config_global sv config_type data =
     (let set = (\<lambda>upd. case data of
                     None \<Rightarrow> (HNW_BASE_PARAMS_IS_INVALID, sv)
                   | Some v \<Rightarrow> if v = 0 then (HNW_BASE_PARAMS_IS_INVALID, sv) else (HNW_BASE_OK, upd v))
      in case config_type of
           SET_RECV_BUFF_SIZE \<Rightarrow> set (\<lambda>v. sv\<lparr>sv_recv_buff_size := v\<rparr>)
         | SET_SEND_BUFF_SIZE \<Rightarrow> set (\<lambda>v. sv\<lparr>sv_send_buff_size := v\<rparr>)
         | SET_SERVER_ACCEPT_NUM \<Rightarrow> set (\<lambda>v. sv\<lparr>sv_accept_num := v\<rparr>)
         | _ \<Rightarrow> (HNW_BASE_NO_SUPPORT, sv))"

definition service_config ::
  "'c service \<Rightarrow> int \<Rightarrow> config_type \<Rightarrow> u64 option \<Rightarrow> err_code \<times> 'c service \<times> u64 option" where
  "service_config sv handle config_type data =
     (if handle = HNW_INVALID_HANDLE
      then let (ret, sv) = service_config_global sv config_type data in (ret, sv, data)
      else case get_channel sv handle of
             None \<Rightarrow> (HNW_BASE_INVAILD_HANDLE, sv, data)
           | Some ch \<Rightarrow>
               let (ret, ch, data) = config_virtual config_type data ch
               in (ret, store_channel sv handle ch, data))"

definition service_send ::
  "'c service \<Rightarrow> int \<Rightarrow> string option \<Rightarrow> u64 \<Rightarrow> err_code \<times> 'c chan_effect list \<times> send_outcome" where
  "service_send sv handle message message_size =
     (case get_channel sv handle of
        None \<Rightarrow> (HNW_BASE_INVAILD_HANDLE, [], SendStopped)
      | Some ch \<Rightarrow>
          if ch_type ch \<in> {TCP_CLIENT, SSL_CLIENT, UDP} then async_send ch message message_size 0
          else (HNW_BASE_NO_SUPPORT, [], SendStopped))"

text \<open>The selectors whose data is a path; only a TLS server knows them.\<close>

definition service_config_path :: "net \<Rightarrow> 'c service \<Rightarrow> int \<Rightarrow> config_type \<Rightarrow> string \<Rightarrow> err_code option" where
  "service_config_path N sv handle config_type path =
     (if handle = HNW_INVALID_HANDLE then Some HNW_BASE_NO_SUPPORT
      else case get_channel sv handle of
             None \<Rightarrow> Some HNW_BASE_INVAILD_HANDLE
           | Some ch \<Rightarrow>
               if ch_type ch = SSL_SERVER then ssl_server_config_path N config_type path
               else Some HNW_BASE_NO_SUPPORT)"

definition send_string ::
  "net \<Rightarrow> 'c service \<Rightarrow> int \<Rightarrow> string \<Rightarrow> err_code \<times> 'c chan_effect list \<times> send_outcome" where
  "send_string N sv handle message =
     (if message = [] then (HNW_BASE_OK, [], SendStopped)
      else let message_size = of_nat (length message)
           in if \<not> get_cache N sv message_size then (HNW_BASE_ALLOC_FAIL, [], SendStopped)
              else service_send sv handle (Some message) message_size)"

definition service_send_cb ::
  "net \<Rightarrow> 'c service \<Rightarrow> int \<Rightarrow> ('s \<Rightarrow> nat \<Rightarrow> string \<times> 's) option \<Rightarrow> 's \<Rightarrow>
     err_code \<times> 'c chan_effect list \<times> send_outcome \<times> 's" where
  "service_send_cb N sv handle cb s =
     (case get_channel sv handle of
        None \<Rightarrow> (HNW_BASE_INVAILD_HANDLE, [], SendStopped, s)
      | Some ch \<Rightarrow>
          (case cb of
             None \<Rightarrow> (HNW_BASE_OK, [], SendStopped, s)
           | Some f \<Rightarrow>
               if ch_type ch \<in> {TCP_CLIENT, SSL_CLIENT, UDP}
               then let (ret, ef, out, _, s) = async_send_cb (Some f) (get_cache N sv) ch None s
                    in (ret, ef, out, s)
               else (HNW_BASE_NO_SUPPORT, [], SendStopped, s)))"

definition service_set_event_cb :: "'c service \<Rightarrow> int \<Rightarrow> 'c option \<Rightarrow> err_code \<times> 'c service" where
  "service_set_event_cb sv handle cb =
     (case get_channel sv handle of
        None \<Rightarrow> (HNW_BASE_INVAILD_HANDLE, sv)
      | Some ch \<Rightarrow> (HNW_BASE_OK, store_channel sv handle (ch\<lparr>ch_event_cb := Some cb\<rparr>)))"

definition set_make_shared_cb :: "'c service \<Rightarrow> bool \<Rightarrow> err_code \<times> 'c service" where
  "set_make_shared_cb sv cb =
     (if cb then (HNW_BASE_OK, sv\<lparr>sv_make_shared := True\<rparr>) else (HNW_BASE_EMPYTY_MAKE_SHARED_CB, sv))"

definition get_userdata :: "'c service \<Rightarrow> int \<Rightarrow> int" where
  "get_userdata sv handle = (case get_channel sv handle of None \<Rightarrow> 0 | Some ch \<Rightarrow> userdata ch)"

definition set_userdata :: "'c service \<Rightarrow> int \<Rightarrow> int \<Rightarrow> err_code \<times> 'c service" where
  "set_userdata sv handle p =
     (case get_channel sv handle of
        None \<Rightarrow> (HNW_BASE_INVAILD_HANDLE, sv)
      | Some ch \<Rightarrow> (HNW_BASE_OK, store_channel sv handle (ch\<lparr>userdata := p\<rparr>)))"

text \<open>
  \<open>AsioService::add_channel\<close>. None: the process ends, in the destructor of a channel whose
  initialisation has failed. The last component is the handle, if it was assigned.
\<close>

definition supported_type :: "net \<Rightarrow> channel_type \<Rightarrow> bool" where
  "supported_type N type \<longleftrightarrow> type = TCP_CLIENT \<or> type = TCP_SERVER \<or> type = UDP \<or>
     net_openssl N \<and> (type = SSL_CLIENT \<or> type = SSL_SERVER) \<or> type = TIMER"

definition channel_setup :: "'c service \<Rightarrow> 'c channel \<Rightarrow> 'c channel" where
  "channel_setup sv ch =
     (let ch = ch\<lparr>ch_make_shared := True\<rparr>;
          (_, ch, _) = config_virtual SET_RECV_BUFF_SIZE (Some (sv_recv_buff_size sv)) ch;
          (_, ch, _) = config_virtual SET_SEND_BUFF_SIZE (Some (sv_send_buff_size sv)) ch;
          (_, ch, _) = config_virtual SET_SERVER_ACCEPT_NUM (Some (sv_accept_num sv)) ch
      in ch)"

definition add_channel ::
  "net \<Rightarrow> 'c service \<Rightarrow> channel_type \<Rightarrow> NetPoint \<Rightarrow> (err_code \<times> 'c service \<times> int option) option" where
  "add_channel N sv type local =
     (if \<not> supported_type N type then Some (HNW_BASE_NO_SUPPORT, sv, None)
      else
        let g = generate_handle (g_handle sv); sv = sv\<lparr>g_handle := g\<rparr>;
            ch = channel_setup sv (Channel_new type g);
            (err, ch) = channel_init N ch local
        in if err \<noteq> HNW_BASE_OK
           then (if channel_destroy N ch then Some (err, sv, None) else None)
           else let (ret, sv) = add_channel_to_map sv ch in Some (ret, sv, Some (ch_handle ch)))"

definition add_timer ::
  "net \<Rightarrow> 'c service \<Rightarrow> u64 \<Rightarrow> 'c option \<Rightarrow>
     (err_code \<times> 'c service \<times> int option \<times> 'c chan_effect list) option" where
  "add_timer N sv time_out call =
     (case add_channel N sv TIMER NET_INVALID_POINT of
        None \<Rightarrow> None
      | Some (ret, sv, handle) \<Rightarrow>
          (case handle of
             None \<Rightarrow> Some (ret, sv, handle, [])
           | Some h \<Rightarrow>
               if ret \<noteq> HNW_BASE_OK then Some (ret, sv, handle, [])
               else
                 let (_, sv, _) = service_config sv h SET_TIMER_TIME_OUT_MS (Some time_out);
                     sv = (case get_channel sv h of
                             None \<Rightarrow> sv
                           | Some ch \<Rightarrow> store_channel sv h (snd (timer_config_cb call ch)));
                     (ret, sv, ef) = service_connect N sv h NET_INVALID_POINT
                 in Some (ret, sv, handle, ef)))"

subsection \<open>Events\<close>

definition is_error :: "chan_event \<Rightarrow> bool" where
  "is_error ev \<longleftrightarrow> (case ev of EvError _ \<Rightarrow> True | _ \<Rightarrow> False)"

text \<open>\<open>Service::event_cb\<close> behind the application's own callback.\<close>

definition service_event_cb ::
  "net \<Rightarrow> 'c service \<Rightarrow> int \<Rightarrow> chan_event \<Rightarrow> 'c service \<times> 'c chan_effect list" where
  "service_event_cb N sv handle ev =
     (if is_error ev
      then let (_, sv) = service_set_event_cb sv handle None; (_, sv, ef) = service_close N sv handle
           in (sv, ef)
      else (sv, []))"

text \<open>
  The events an operation raised, in order, with those raised by the closing of channels. The
  trace keeps the calls of the application and what was asked of boost.asio.
\<close>

definition handles :: "'c service \<Rightarrow> int set" where
  "handles sv = fst ` set (channel_map sv)"

lemma get_channel_handles: "get_channel sv h \<noteq> None \<longleftrightarrow> h \<in> handles sv"
  by (simp add: get_channel_def omap_get_def handles_def map_of_eq_None_iff)

lemma get_channel_store:
  "get_channel (store_channel sv h ch) h' =
     (if h' = h \<and> get_channel sv h \<noteq> None then Some ch else get_channel sv h')"
  by (auto simp: get_channel_def store_channel_def omap_get_put split: option.splits)

lemma get_channel_del:
  "get_channel (del_channel sv h) h' = (if h' = h then None else get_channel sv h')"
  by (simp add: get_channel_def del_channel_def omap_get_del)

lemma handles_store [simp]: "handles (store_channel sv h ch) = handles sv"
  by (auto simp: get_channel_store get_channel_handles [symmetric] split: if_splits)

lemma handles_del [simp]: "handles (del_channel sv h) = handles sv - {h}"
  by (auto simp: get_channel_del get_channel_handles [symmetric] split: if_splits)

lemma handles_set_event_cb [simp]: "handles (snd (service_set_event_cb sv h cb)) = handles sv"
  by (simp add: service_set_event_cb_def split: option.split)

lemma handles_close: "service_close N sv h = (ret, sv', ef) \<Longrightarrow> handles sv' = handles sv - {h}"
  by (auto simp: service_close_def Let_def get_channel_handles [symmetric] split: option.splits prod.splits)

lemma service_event_cb_cases:
  assumes "service_event_cb N sv h ev = (sv', ef)"
  shows "(if is_error ev then handles sv' = handles sv - {h} else sv' = sv) \<and>
    (\<not> is_error ev \<or> h \<notin> handles sv \<longrightarrow> ef = [])"
proof (cases "is_error ev")
  case True
  obtain r sv1 where s: "service_set_event_cb sv h None = (r, sv1)" by (cases "service_set_event_cb sv h None")
  obtain r2 sv2 ef2 where c: "service_close N sv1 h = (r2, sv2, ef2)" by (cases "service_close N sv1 h")
  have h1: "handles sv1 = handles sv" using handles_set_event_cb [of sv h None] s by simp
  have e: "sv' = sv2" "ef = ef2" using assms True s c by (simp_all add: service_event_cb_def)
  have "h \<notin> handles sv \<Longrightarrow> ef2 = []"
    using c h1 get_channel_handles [of sv1 h] by (auto simp: service_close_def split: option.splits)
  with True e handles_close [OF c] h1 show ?thesis by simp
next
  case False
  with assms show ?thesis by (simp add: service_event_cb_def)
qed

lemma finite_handles [simp]: "finite (handles sv)"
  by (simp add: handles_def)

lemma service_event_cb_measure:
  assumes "service_event_cb N sv h ev = (sv', ef)"
  shows "card (handles sv') < card (handles sv) \<or> handles sv' = handles sv \<and> ef = []"
proof (cases "is_error ev \<and> h \<in> handles sv")
  case True
  with service_event_cb_cases [OF assms] have "handles sv' = handles sv - {h}" by simp
  then have "card (handles sv') < card (handles sv)"
    using True card_Diff1_less [OF finite_handles] by metis
  then show ?thesis by blast
next
  case False
  with service_event_cb_cases [OF assms] show ?thesis by (auto split: if_splits)
qed

function run_events ::
  "net \<Rightarrow> 'c service \<Rightarrow> 'c chan_effect list \<Rightarrow> 'c service \<times> 'c chan_effect list" where
  "run_events N sv es =
     (case es of
        [] \<Rightarrow> (sv, [])
      | e # es \<Rightarrow>
          (case e of
             EventCb cb h ev \<Rightarrow>
               (case service_event_cb N sv h ev of
                  (sv', ef) \<Rightarrow>
                    (case run_events N sv' (ef @ es) of
                       (sv'', out) \<Rightarrow> (sv'', (if cb = None then [] else [e]) @ out)))
           | _ \<Rightarrow> (case run_events N sv es of (sv'', out) \<Rightarrow> (sv'', e # out))))"
  by pat_completeness auto
termination
proof (relation "measures [\<lambda>(N, sv, es). card (handles sv), \<lambda>(N, sv, es). length es]", goal_cases)
  case 1
  then show ?case by simp
next
  case (2 N sv es e es' cb h ev sv' ef)
  then have "service_event_cb N sv h ev = (sv', ef)" by simp
  from service_event_cb_measure [OF this] 2 show ?case by auto
qed simp_all

declare run_events.simps [simp del]

lemma run_events_Nil [simp]: "run_events N sv [] = (sv, [])"
  by (simp add: run_events.simps)

lemma run_events_EventCb:
  "service_event_cb N sv h ev = (sv', ef) \<Longrightarrow>
     fst (run_events N sv (EventCb cb h ev # es)) = fst (run_events N sv' (ef @ es)) \<and>
     snd (run_events N sv (EventCb cb h ev # es)) =
       (if cb = None then [] else [EventCb cb h ev]) @ snd (run_events N sv' (ef @ es))"
  by (simp add: run_events.simps [of N sv "EventCb cb h ev # es"] split: prod.splits)

lemma run_events_other:
  "\<nexists>cb h ev. e = EventCb cb h ev \<Longrightarrow>
     fst (run_events N sv (e # es)) = fst (run_events N sv es) \<and>
     snd (run_events N sv (e # es)) = e # snd (run_events N sv es)"
  by (cases e) (simp_all add: run_events.simps [of N sv "x # es" for x] split: prod.splits)

subsection \<open>Accepting a connection and shutting down\<close>

text \<open>
  The completion of an accept: \<open>error\<close> and \<open>is_open\<close> are what boost.asio reports. After an error
  the accept is not started again.
\<close>

definition accept_handler ::
  "net \<Rightarrow> 'c service \<Rightarrow> 'c channel \<Rightarrow> 'c channel \<Rightarrow> bool \<Rightarrow> bool \<Rightarrow>
     'c service \<times> 'c chan_effect list \<times> 'c channel option" where
  "accept_handler N sv server cli error is_open =
     (if error then (sv, EVENT_CB server (EvError HNW_BASE_ACCEPT_FAIL), None)
      else
        let (sv, ef) =
              (if is_open
               then let cli = before_accept cli; (_, sv) = add_channel_to_map sv cli
                    in (sv, EVENT_CB server (EvAccept (ch_handle cli)) @
                          fst (after_accept (get_cache N sv) cli))
               else (sv, EVENT_CB server (EvError HNW_BASE_ACCEPT_CLI_IS_NOT_OPEN)));
            (g, next, ef') = async_one_accept (g_handle sv) server
        in (sv\<lparr>g_handle := g\<rparr>, ef @ ef', Some next))"

text \<open>
  The TLS server: the handshake runs before the channel is in the table, so its error event finds no
  handle there; what it returns is not looked at. The second component is what was raised and
  handled by then.
\<close>

definition ssl_accept_handler ::
  "net \<Rightarrow> 'c service \<Rightarrow> 'c channel \<Rightarrow> 'c channel \<Rightarrow> bool \<Rightarrow> bool \<Rightarrow>
     'c service \<times> 'c chan_effect list \<times> 'c chan_effect list \<times> 'c channel option" where
  "ssl_accept_handler N sv server cli error is_open =
     (if error then (sv, [], EVENT_CB server (EvError HNW_BASE_ACCEPT_FAIL), None)
      else
        let (sv, done_ef, ef) =
              (if is_open
               then let (_, cli, e) = ssl_before_accept N cli; (sv, done_ef) = run_events N sv e;
                        (_, sv) = add_channel_to_map sv cli
                    in (sv, done_ef, EVENT_CB server (EvAccept (ch_handle cli)) @
                          fst (after_accept (get_cache N sv) cli))
               else (sv, [], EVENT_CB server (EvError HNW_BASE_ACCEPT_CLI_IS_NOT_OPEN)));
            (g, next, ef') = ssl_async_one_accept (g_handle sv) server
        in (sv\<lparr>g_handle := g\<rparr>, done_ef, ef @ ef', Some next))"

fun close_channels :: "net \<Rightarrow> (int \<times> 'c channel) list \<Rightarrow> 'c chan_effect list" where
  "close_channels N [] = []"
| "close_channels N ((h, ch) # m) = snd (snd (channel_close N ch)) @ close_channels N m"

definition clear_and_close_channels :: "net \<Rightarrow> 'c service \<Rightarrow> 'c service \<times> 'c chan_effect list" where
  "clear_and_close_channels N sv = (sv\<lparr>channel_map := []\<rparr>, close_channels N (channel_map sv))"

subsection \<open>The steps of the service and their invariant\<close>

text \<open>
  The calls an application makes and the completions of connects, TLS handshakes and accepts. The
  completions of reads, writes and timers change no channel: they raise events, each of which is a
  \<open>step_event\<close>. What an application does inside a callback is a step of its own.
\<close>

inductive service_step :: "net \<Rightarrow> 'c service \<Rightarrow> 'c service \<Rightarrow> bool" for N where
  step_add: "add_channel N sv type local = Some (ret, sv', h) \<Longrightarrow> service_step N sv sv'"
| step_timer: "add_timer N sv ms call = Some (ret, sv', h, ef) \<Longrightarrow> service_step N sv sv'"
| step_connect: "service_connect N sv h remote = (ret, sv', ef) \<Longrightarrow>
     service_step N sv (fst (run_events N sv' ef))"
| step_connected: "get_channel sv h = Some ch \<Longrightarrow> ch_type ch = TCP_CLIENT \<Longrightarrow>
     tcp_client_con_handle N (\<lambda>ch. ch) ch timer ok = (ch', ef, next) \<Longrightarrow>
     service_step N sv (fst (run_events N (store_channel sv h ch') ef))"
| step_ssl_connected: "get_channel sv h = Some ch \<Longrightarrow> ch_type ch = SSL_CLIENT \<Longrightarrow>
     service_step N sv (fst (run_events N sv (ssl_client_con_handle ch ok)))"
| step_handshake: "get_channel sv h = Some ch \<Longrightarrow> ch_type ch = SSL_CLIENT \<Longrightarrow>
     ssl_client_handshake_handle N (\<lambda>ch. ch) ch timer ok = (ch', ef, next) \<Longrightarrow>
     service_step N sv (fst (run_events N (store_channel sv h ch') ef))"
| step_accept: "service_accept sv h = (ret, sv', clis, ef) \<Longrightarrow> service_step N sv sv'"
| step_accepted: "accept_handler N sv server (snd (new_client g server')) error is_open = (sv', ef, next) \<Longrightarrow>
     -1 \<le> g \<Longrightarrow> generate_handle g \<le> g_handle sv \<Longrightarrow> ch_send_buff_size server' \<noteq> 0 \<Longrightarrow>
     service_step N sv (fst (run_events N sv' ef))"
| step_ssl_accepted: "ssl_accept_handler N sv server (snd (new_ssl_client g server')) error is_open =
       (sv', done_ef, ef, next) \<Longrightarrow>
     -1 \<le> g \<Longrightarrow> generate_handle g \<le> g_handle sv \<Longrightarrow> ch_send_buff_size server' \<noteq> 0 \<Longrightarrow>
     service_step N sv (fst (run_events N sv' ef))"
| step_close: "service_close N sv h = (ret, sv', ef) \<Longrightarrow> service_step N sv (fst (run_events N sv' ef))"
| step_config: "service_config sv h t data = (ret, sv', out) \<Longrightarrow> service_step N sv sv'"
| step_set_event_cb: "service_set_event_cb sv h cb = (ret, sv') \<Longrightarrow> service_step N sv sv'"
| step_set_userdata: "set_userdata sv h p = (ret, sv') \<Longrightarrow> service_step N sv sv'"
| step_make_shared: "set_make_shared_cb sv cb = (ret, sv') \<Longrightarrow> service_step N sv sv'"
| step_event: "service_step N sv (fst (run_events N sv [EventCb cb h ev]))"
| step_clear: "clear_and_close_channels N sv = (sv', ef) \<Longrightarrow> service_step N sv sv'"

definition chan_ok :: "int \<Rightarrow> 'c channel \<Rightarrow> bool" where
  "chan_ok h ch \<longleftrightarrow> ch_handle ch = h \<and> ch_recv_buff_size ch \<noteq> 0 \<and> ch_send_buff_size ch \<noteq> 0 \<and>
     ch_type ch \<noteq> HNW_INVAILD"

definition service_ok :: "'c service \<Rightarrow> bool" where
  "service_ok sv \<longleftrightarrow> omap_ok (channel_map sv) \<and> -1 \<le> g_handle sv \<and>
     sv_recv_buff_size sv \<noteq> 0 \<and> sv_send_buff_size sv \<noteq> 0 \<and> sv_accept_num sv \<noteq> 0 \<and>
     (\<forall>h ch. get_channel sv h = Some ch \<longrightarrow> chan_ok h ch \<and> 0 \<le> h \<and> h \<le> g_handle sv)"

lemma service_okD:
  "service_ok sv \<Longrightarrow> get_channel sv h = Some ch \<Longrightarrow> chan_ok h ch \<and> 0 \<le> h \<and> h \<le> g_handle sv"
  by (simp add: service_ok_def)

text \<open>The methods of a channel keep what the table relies on.\<close>

lemma config_virtual_ok:
  "chan_ok h ch \<Longrightarrow> config_virtual t data ch = (ret, ch', out) \<Longrightarrow> chan_ok h ch'"
  by (cases t; cases data)
    (auto simp: chan_ok_def config_virtual_def tcp_server_config_def timer_config_def channel_config_def
      config_set_nonzero_def config_set_def config_get_def set_accept_num_def split: if_splits)

lemma channel_connect_ok:
  "chan_ok h ch \<Longrightarrow> channel_connect N ch remote = (ret, ch', ef) \<Longrightarrow> chan_ok h ch'"
  by (cases "ch_type ch")
    (auto simp: chan_ok_def channel_connect_def udp_connect_def timer_connect_def supported_type_def Let_def
      split: if_splits prod.splits)

lemma channel_init_ok: "chan_ok h ch \<Longrightarrow> channel_init N ch local = (ret, ch') \<Longrightarrow> chan_ok h ch'"
  by (cases "ch_type ch")
    (auto simp: chan_ok_def channel_init_def udp_init_def tcp_server_init_def supported_type_def Let_def
      split: if_splits)

lemma config_virtual_set:
  "v \<noteq> 0 \<Longrightarrow> config_virtual SET_RECV_BUFF_SIZE (Some v) ch = (HNW_BASE_OK, ch\<lparr>ch_recv_buff_size := v\<rparr>, Some v)"
  "v \<noteq> 0 \<Longrightarrow> config_virtual SET_SEND_BUFF_SIZE (Some v) ch = (HNW_BASE_OK, ch\<lparr>ch_send_buff_size := v\<rparr>, Some v)"
  "v \<noteq> 0 \<Longrightarrow> config_virtual SET_SERVER_ACCEPT_NUM (Some v) ch =
     (if ch_type ch = TCP_SERVER \<or> ch_type ch = SSL_SERVER then (HNW_BASE_OK, ch\<lparr>ch_accept_num := v\<rparr>, Some v)
      else (HNW_BASE_NO_SUPPORT, ch, Some v))"
  by (simp_all add: config_virtual_def tcp_server_config_def timer_config_def channel_config_def
      config_set_nonzero_def config_set_def set_accept_num_def)

lemma channel_setup_eq:
  assumes "sv_recv_buff_size sv \<noteq> 0" and "sv_send_buff_size sv \<noteq> 0" and "sv_accept_num sv \<noteq> 0"
  shows "channel_setup sv ch = ch\<lparr>ch_make_shared := True, ch_recv_buff_size := sv_recv_buff_size sv,
    ch_send_buff_size := sv_send_buff_size sv,
    ch_accept_num := (if ch_type ch = TCP_SERVER \<or> ch_type ch = SSL_SERVER then sv_accept_num sv else ch_accept_num ch)\<rparr>"
  using assms by (simp add: channel_setup_def config_virtual_set Let_def)

lemma store_channel_ok:
  assumes "service_ok sv" and "chan_ok h ch"
  shows "service_ok (store_channel sv h ch)"
proof (cases "get_channel sv h")
  case None
  with assms show ?thesis by (simp add: store_channel_def)
next
  case (Some ch0)
  have "store_channel sv h ch = sv\<lparr>channel_map := omap_put (channel_map sv) h ch\<rparr>"
    by (simp add: store_channel_def Some)
  moreover from service_okD [OF assms(1) Some] have "0 \<le> h \<and> h \<le> g_handle sv" by simp
  ultimately show ?thesis
    using assms by (auto simp: service_ok_def get_channel_def omap_put_ok omap_get_put split: if_splits)
qed

lemma del_channel_ok: "service_ok sv \<Longrightarrow> service_ok (del_channel sv h)"
  by (auto simp: service_ok_def get_channel_def del_channel_def omap_del_ok omap_get_del split: if_splits)

lemma set_event_cb_ok:
  assumes "service_ok sv" and "service_set_event_cb sv h cb = (ret, sv')"
  shows "service_ok sv'"
proof (cases "get_channel sv h")
  case None
  with assms show ?thesis by (simp add: service_set_event_cb_def)
next
  case (Some ch)
  have "chan_ok h (ch\<lparr>ch_event_cb := Some cb\<rparr>)"
    using service_okD [OF assms(1) Some] by (simp add: chan_ok_def)
  from store_channel_ok [OF assms(1) this] show ?thesis
    using assms(2) Some by (simp add: service_set_event_cb_def)
qed

lemma close_ok: "service_ok sv \<Longrightarrow> service_close N sv h = (ret, sv', ef) \<Longrightarrow> service_ok sv'"
  by (auto simp: service_close_def del_channel_ok Let_def split: option.splits prod.splits)

lemma event_cb_ok:
  assumes "service_ok sv" and "service_event_cb N sv h ev = (sv', ef)"
  shows "service_ok sv'"
  using assms set_event_cb_ok close_ok
  by (fastforce simp: service_event_cb_def split: if_splits prod.splits)

text \<open>What the handling of one event keeps, the handling of all of them keeps.\<close>

lemma run_events_keep:
  assumes keep: "\<And>N sv h ev sv' ef. P sv \<Longrightarrow> service_event_cb N sv h ev = (sv', ef) \<Longrightarrow> P sv'"
  shows "P sv \<Longrightarrow> P (fst (run_events N sv es))"
proof (induction N sv es rule: run_events.induct)
  case (1 N sv es)
  show ?case
  proof (cases es)
    case Nil
    with 1 show ?thesis by (simp add: run_events.simps)
  next
    case (Cons e es')
    show ?thesis
    proof (cases "\<exists>cb h ev. e = EventCb cb h ev")
      case True
      then obtain cb h ev where e: "e = EventCb cb h ev" by blast
      obtain sv' ef where s: "service_event_cb N sv h ev = (sv', ef)" by (cases "service_event_cb N sv h ev")
      have "P (fst (run_events N sv' (ef @ es')))"
        by (rule "1.IH"(1) [OF Cons e s [symmetric] keep [OF "1.prems" s]])
      with Cons e run_events_EventCb [OF s] show ?thesis by simp
    next
      case False
      moreover have "P (fst (run_events N sv es'))"
        using False "1.IH" "1.prems" Cons by (cases e) simp_all
      ultimately show ?thesis using Cons run_events_other [OF False] by simp
    qed
  qed
qed

lemma run_events_ok: "service_ok sv \<Longrightarrow> service_ok (fst (run_events N sv es))"
  by (rule run_events_keep [where P = service_ok]) (blast intro: event_cb_ok)+

lemma g_handle_event_cb: "service_event_cb N sv h ev = (sv', ef) \<Longrightarrow> g_handle sv' = g_handle sv"
  by (auto simp: service_event_cb_def service_set_event_cb_def service_close_def store_channel_def
      del_channel_def Let_def split: if_splits option.splits prod.splits)

lemma g_handle_run_events: "g_handle (fst (run_events N sv es)) = g_handle sv"
  by (rule run_events_keep [where P = "\<lambda>s. g_handle s = g_handle sv"]) (simp_all add: g_handle_event_cb)

lemma connect_ok: "service_ok sv \<Longrightarrow> service_connect N sv h remote = (ret, sv', ef) \<Longrightarrow> service_ok sv'"
  using service_okD channel_connect_ok store_channel_ok
  by (fastforce simp: service_connect_def split: option.splits prod.splits)

lemma config_ok:
  assumes "service_ok sv" and "service_config sv h t data = (ret, sv', out)"
  shows "service_ok sv'"
proof (cases "h = HNW_INVALID_HANDLE")
  case True
  with assms show ?thesis
    by (cases t; cases data)
      (auto simp: service_config_def service_config_global_def service_ok_def get_channel_def Let_def
        split: if_splits)
next
  case False
  with assms service_okD config_virtual_ok store_channel_ok show ?thesis
    by (fastforce simp: service_config_def split: option.splits prod.splits)
qed

text \<open>A new channel takes a handle that is not in the table.\<close>

lemma add_channel_spec:
  assumes "service_ok sv" and "add_channel N sv type local = Some (ret, sv', ho)"
  shows "service_ok sv' \<and>
    (ho = None \<longrightarrow> (\<forall>h. get_channel sv' h = get_channel sv h)) \<and>
    (\<forall>h. ho = Some h \<longrightarrow> ret = HNW_BASE_OK \<and> h = g_handle sv + 1 \<and> get_channel sv h = None \<and>
       (\<exists>ch. get_channel sv' h = Some ch \<and> ch_type ch = type \<and> ch_event_cb ch = None \<and> bconn ch = False \<and>
          timer_on ch = False \<and> ch_recv_buff_size ch = sv_recv_buff_size sv \<and>
          ch_send_buff_size ch = sv_send_buff_size sv) \<and>
       (\<forall>h'. h' \<noteq> h \<longrightarrow> get_channel sv' h' = get_channel sv h'))"
proof (cases "supported_type N type")
  case False
  with assms show ?thesis by (auto simp: add_channel_def)
next
  case True
  let ?g = "g_handle sv + 1"
  let ?sv = "sv\<lparr>g_handle := ?g\<rparr>"
  have g: "generate_handle (g_handle sv) = ?g" using assms(1) by (simp add: generate_handle_def service_ok_def)
  have nz: "sv_recv_buff_size ?sv \<noteq> 0" "sv_send_buff_size ?sv \<noteq> 0" "sv_accept_num ?sv \<noteq> 0"
    using assms(1) by (simp_all add: service_ok_def)
  let ?c = "channel_setup ?sv (Channel_new type ?g :: 'a channel)"
  note c = channel_setup_eq [OF nz, of "Channel_new type ?g :: 'a channel"]
  have cok: "chan_ok ?g ?c" using nz True unfolding c by (auto simp: chan_ok_def supported_type_def)
  obtain err ch where i: "channel_init N ?c local = (err, ch)" by (cases "channel_init N ?c local")
  have chok: "chan_ok ?g ch" by (rule channel_init_ok [OF cok i])
  have f: "ch_type ch = type \<and> ch_event_cb ch = None \<and> bconn ch = False \<and> timer_on ch = False \<and>
      ch_recv_buff_size ch = sv_recv_buff_size sv \<and> ch_send_buff_size ch = sv_send_buff_size sv"
    using i True unfolding c by (auto simp: channel_init_def udp_init_def tcp_server_init_def
        supported_type_def Let_def split: if_splits)
  have none: "get_channel sv ?g = None"
    using service_okD [OF assms(1), of ?g] by (cases "get_channel sv ?g") auto
  have ok': "service_ok ?sv" using assms(1) by (force simp: service_ok_def get_channel_def)
  have a: "add_channel N sv type local =
      (if err \<noteq> HNW_BASE_OK then (if channel_destroy N ch then Some (err, ?sv, None) else None)
       else Some (HNW_BASE_OK, ?sv\<lparr>channel_map := omap_put (channel_map sv) ?g ch\<rparr>, Some ?g))"
    using True i chok by (simp add: add_channel_def g Let_def add_channel_to_map_def chan_ok_def)
  have ok2: "service_ok (?sv\<lparr>channel_map := omap_put (channel_map sv) ?g ch\<rparr>)"
    using ok' chok assms(1)
    by (auto simp: service_ok_def get_channel_def omap_put_ok omap_get_put split: if_splits)
  show ?thesis
    using assms(2) ok' ok2 f none unfolding a
    by (auto simp: get_channel_def omap_get_put split: if_splits)
qed

lemma add_timer_spec:
  assumes "service_ok sv" and "add_timer N sv ms call = Some (ret, sv', ho, ef)"
  shows "service_ok sv' \<and> (\<forall>h. ho = Some h \<longrightarrow> ret = HNW_BASE_OK \<and> get_channel sv h = None \<and>
    (\<exists>ch. get_channel sv' h = Some ch \<and> ch_event_cb ch = None \<and> timer_call ch = call \<and>
       ch_handle ch = h \<and> timer_on ch = (ms \<noteq> 0)) \<and>
    ef = (if ms = 0 then [] else [StartTimer ms]))"
proof -
  obtain r sv1 h1 where a: "add_channel N sv TIMER NET_INVALID_POINT = Some (r, sv1, h1)"
    using assms(2) by (cases "add_channel N sv TIMER NET_INVALID_POINT") (auto simp: add_timer_def)
  note A = add_channel_spec [OF assms(1) a]
  show ?thesis
  proof (cases h1)
    case None
    with assms(2) a A show ?thesis by (simp add: add_timer_def)
  next
    case (Some h)
    then obtain ch where ch: "get_channel sv1 h = Some ch" "ch_type ch = TIMER" "ch_event_cb ch = None"
      "timer_on ch = False" and r: "r = HNW_BASE_OK" and none: "get_channel sv h = None"
      and ok1: "service_ok sv1" using A by auto
    have cok: "chan_ok h ch" and h0: "0 \<le> h" using service_okD [OF ok1 ch(1)] by simp_all
    let ?c1 = "ch\<lparr>time_out_ms := ms\<rparr>"
    let ?c2 = "?c1\<lparr>timer_call := call\<rparr>"
    let ?c3 = "?c2\<lparr>timer_on := (ms \<noteq> 0)\<rparr>"
    have ne: "h \<noteq> HNW_INVALID_HANDLE" using h0 by (simp add: HNW_INVALID_HANDLE_def)
    have s1: "service_config sv1 h SET_TIMER_TIME_OUT_MS (Some ms) =
        (HNW_BASE_OK, store_channel sv1 h ?c1, Some ms)"
      using ne ch(1,2) by (simp add: service_config_def config_virtual_def timer_config_def config_set_def)
    let ?sv2 = "store_channel sv1 h ?c1"
    let ?sv3 = "store_channel ?sv2 h ?c2"
    have g2: "get_channel ?sv2 h = Some ?c1" and g3: "get_channel ?sv3 h = Some ?c2"
      using ch(1) by (simp_all add: get_channel_store)
    have s3: "service_connect N ?sv3 h NET_INVALID_POINT =
        (HNW_BASE_OK, store_channel ?sv3 h ?c3, if ms = 0 then [] else [StartTimer ms])"
      using g3 ch(2,4) by (simp add: service_connect_def channel_connect_def timer_connect_def
          chan_del_timer_def chan_add_timer_def)
    have t: "add_timer N sv ms call =
        Some (HNW_BASE_OK, store_channel ?sv3 h ?c3, Some h, if ms = 0 then [] else [StartTimer ms])"
      using a Some r s1 g2 s3 by (simp add: add_timer_def timer_config_cb_def)
    have "service_ok (store_channel ?sv3 h ?c3)"
      using cok by (intro store_channel_ok ok1) (simp_all add: chan_ok_def)
    moreover have "get_channel (store_channel ?sv3 h ?c3) h = Some ?c3"
      using g3 by (simp add: get_channel_store)
    ultimately show ?thesis using assms(2) t none ch(3) cok by (auto simp: chan_ok_def)
  qed
qed

lemma store_ok_same:
  "service_ok sv \<Longrightarrow> get_channel sv h = Some ch \<Longrightarrow> chan_ok h ch' \<Longrightarrow> service_ok (store_channel sv h ch')"
  by (rule store_channel_ok)

lemma accept_ok:
  assumes "service_ok sv" and "service_accept sv h = (ret, sv', clis, ef)"
  shows "service_ok sv'"
proof -
  have mono: "-1 \<le> g_handle sv \<Longrightarrow> g_handle sv \<le> g \<Longrightarrow> service_ok (sv\<lparr>g_handle := g\<rparr>)" for g
    using assms(1) by (force simp: service_ok_def get_channel_def)
  have g0: "-1 \<le> g_handle sv" using assms(1) by (simp add: service_ok_def)
  have grow: "tcp_server_accept (g_handle sv) ch = (g, cs, e) \<Longrightarrow> g_handle sv \<le> g"
    for ch :: "'a channel" and g cs e
    using accept_loop_handles [of "g_handle sv" "unat (ch_accept_num ch)" ch g cs e] g0
    by (simp add: tcp_server_accept_def)
  from assms show ?thesis
    by (auto simp: service_accept_def split: option.splits if_splits prod.splits
        intro: mono [OF g0] grow)
qed

text \<open>An accepted client goes into the table under the handle it was created with.\<close>

lemma accepted_client_ok:
  assumes "service_ok sv" and "-1 \<le> g" and "generate_handle g \<le> g_handle sv"
    and "ch_send_buff_size server' \<noteq> 0" and "c \<in> {snd (new_client g server'), snd (new_ssl_client g server')}"
    and "cli \<in> {c, before_accept c}"
  shows "service_ok (snd (add_channel_to_map sv cli))"
proof -
  have cli: "ch_handle cli = g + 1 \<and> chan_ok (g + 1) cli"
    using assms(2,4-6) by (auto simp: before_accept_def new_client_def new_ssl_client_def generate_handle_def
        init_accept_def chan_ok_def Let_def)
  have "g + 1 \<le> g_handle sv" using assms(2,3) by (simp add: generate_handle_def Let_def)
  with assms(1,2) cli show ?thesis
    by (auto simp: add_channel_to_map_def service_ok_def get_channel_def omap_put_ok omap_get_put split: if_splits)
qed

lemma next_handle_ok: "service_ok s \<Longrightarrow> service_ok (s\<lparr>g_handle := generate_handle (g_handle s)\<rparr>)"
  by (force simp: service_ok_def get_channel_def generate_handle_def Let_def)

lemma accept_handler_ok:
  assumes "service_ok sv" and "-1 \<le> g" and "generate_handle g \<le> g_handle sv"
    and "ch_send_buff_size server' \<noteq> 0"
    and "accept_handler N sv server (snd (new_client g server')) error is_open = (sv', ef, next)"
  shows "service_ok sv'"
proof -
  let ?m = "snd (add_channel_to_map sv (before_accept (snd (new_client g server'))))"
  have m: "service_ok ?m" by (rule accepted_client_ok [OF assms(1-4)]) auto
  have one: "fst (async_one_accept k server) = generate_handle k" for k
    by (simp add: async_one_accept_def new_client_def Let_def)
  have "sv' = sv \<or> sv' = ?m\<lparr>g_handle := generate_handle (g_handle ?m)\<rparr> \<or>
      sv' = sv\<lparr>g_handle := generate_handle (g_handle sv)\<rparr>"
    using assms(5) by (auto simp: accept_handler_def one [symmetric] Let_def split: if_splits prod.splits)
  with assms(1) next_handle_ok [OF assms(1)] next_handle_ok [OF m] show ?thesis by auto
qed

text \<open>The event of a failed handshake finds no channel: the table does not change.\<close>

lemma run_events_absent:
  assumes "get_channel sv h = None"
  shows "run_events N sv [EventCb cb h ev] = (sv, if cb = None then [] else [EventCb cb h ev])"
proof -
  have "service_event_cb N sv h ev = (sv, [])"
    using assms by (simp add: service_event_cb_def service_set_event_cb_def service_close_def)
  from run_events_EventCb [OF this, of cb "[]"] show ?thesis by (simp add: prod_eq_iff)
qed

lemma ssl_accept_handler_ok:
  assumes "service_ok sv" and "-1 \<le> g" and "generate_handle g \<le> g_handle sv"
    and "ch_send_buff_size server' \<noteq> 0"
    and "ssl_accept_handler N sv server (snd (new_ssl_client g server')) error is_open = (sv', done_ef, ef, next)"
  shows "service_ok sv'"
proof -
  let ?c = "snd (new_ssl_client g server')"
  obtain b cli e where t: "ssl_before_accept N ?c = (b, cli, e)" by (cases "ssl_before_accept N ?c")
  have cli: "cli \<in> {?c, before_accept ?c}" using t by (auto simp: ssl_before_accept_def split: if_splits)
  let ?s = "fst (run_events N sv e)" and ?m = "snd (add_channel_to_map (fst (run_events N sv e)) cli)"
  have m: "service_ok ?m"
    by (rule accepted_client_ok [where c = ?c and g = g and server' = server'])
      (use assms cli in \<open>simp_all add: run_events_ok g_handle_run_events\<close>)
  have one: "fst (ssl_async_one_accept k server) = generate_handle k" for k
    by (simp add: ssl_async_one_accept_def new_ssl_client_def Let_def)
  have "sv' = sv \<or> sv' = ?m\<lparr>g_handle := generate_handle (g_handle ?m)\<rparr> \<or>
      sv' = sv\<lparr>g_handle := generate_handle (g_handle sv)\<rparr>"
    using assms(5) t by (auto simp: ssl_accept_handler_def one [symmetric] Let_def split: if_splits prod.splits)
  with assms(1) next_handle_ok [OF assms(1)] next_handle_ok [OF m] show ?thesis by auto
qed

lemma userdata_ok:
  assumes "service_ok sv" and "set_userdata sv h p = (ret, sv')"
  shows "service_ok sv'"
proof (cases "get_channel sv h")
  case None
  with assms show ?thesis by (simp add: set_userdata_def)
next
  case (Some ch)
  have "chan_ok h (ch\<lparr>userdata := p\<rparr>)" using service_okD [OF assms(1) Some] by (simp add: chan_ok_def)
  from store_channel_ok [OF assms(1) this] assms(2) Some show ?thesis by (simp add: set_userdata_def)
qed

lemma con_handle_ok:
  assumes "chan_ok h ch"
    and "tcp_client_con_handle N (\<lambda>ch. ch) ch timer ok = (ch', ef, next) \<or>
      ssl_client_handshake_handle N (\<lambda>ch. ch) ch timer ok = (ch', ef, next)"
  shows "chan_ok h ch'"
  using assms
  by (auto simp: tcp_client_con_handle_def ssl_client_handshake_handle_def chan_ok_def Let_def
      split: if_splits prod.splits)

lemma service_step_ok: "service_step N sv sv' \<Longrightarrow> service_ok sv \<Longrightarrow> service_ok sv'"
proof (induction rule: service_step.induct)
  case (step_add sv type local ret sv' h)
  then show ?case using add_channel_spec by blast
next
  case (step_timer sv ms call ret sv' h ef)
  then show ?case using add_timer_spec by blast
next
  case (step_make_shared sv cb ret sv')
  then show ?case by (auto simp: set_make_shared_cb_def service_ok_def get_channel_def split: if_splits)
next
  case (step_clear sv sv' ef)
  then show ?case by (auto simp: clear_and_close_channels_def service_ok_def get_channel_def)
next
  case (step_accepted sv server g server' error is_open sv' ef "next")
  then show ?case using accept_handler_ok run_events_ok by blast
next
  case (step_ssl_accepted sv server g server' error is_open sv' done_ef ef "next")
  then show ?case using ssl_accept_handler_ok run_events_ok by blast
next
  case (step_connected sv h ch timer ok ch' ef "next")
  then have "chan_ok h ch'" using con_handle_ok service_okD by blast
  then show ?case using step_connected.prems by (intro run_events_ok store_channel_ok)
next
  case (step_handshake sv h ch timer ok ch' ef "next")
  then have "chan_ok h ch'" using con_handle_ok service_okD by blast
  then show ?case using step_handshake.prems by (intro run_events_ok store_channel_ok)
qed (blast intro: connect_ok accept_ok close_ok config_ok set_event_cb_ok userdata_ok run_events_ok)+

subsection \<open>Properties\<close>

text \<open>
  C23: In every state the service can reach, the table is well formed: each channel stands under
  its own handle, which is not negative and not above the counter, is of one of the six kinds of
  channels, and its buffer sizes are not 0.
\<close>

theorem service_invariant:
  assumes "(service_step N)\<^sup>*\<^sup>* Service_new sv" and "get_channel sv h = Some ch"
  shows "omap_ok (channel_map sv) \<and> ch_handle ch = h \<and> 0 \<le> h \<and> h \<le> g_handle sv \<and>
    ch_recv_buff_size ch \<noteq> 0 \<and> ch_send_buff_size ch \<noteq> 0 \<and> ch_type ch \<noteq> HNW_INVAILD"
proof -
  have "service_ok sv"
    using assms(1)
  proof induction
    case base
    show ?case
      by (simp add: service_ok_def Service_new_def get_channel_def HNW_INVALID_HANDLE_def
          default_recv_buff_size_def default_send_buff_size_def default_accept_num_def)
  next
    case (step sv sv')
    then show ?case by (blast intro: service_step_ok)
  qed
  with service_okD [OF this assms(2)] show ?thesis by (simp add: service_ok_def chan_ok_def)
qed

lemma Service_new_ok: "service_ok Service_new"
  by (simp add: service_ok_def Service_new_def get_channel_def HNW_INVALID_HANDLE_def
      default_recv_buff_size_def default_send_buff_size_def default_accept_num_def)

lemma Service_new_add:
  "add_channel N Service_new TCP_CLIENT local = Some (HNW_BASE_OK,
     Service_new\<lparr>g_handle := 0, channel_map := [(0, channel_setup Service_new (Channel_new TCP_CLIENT 0))]\<rparr>,
     Some 0)"
  by (simp add: add_channel_def supported_type_def generate_handle_def Service_new_def Let_def
      channel_setup_eq default_recv_buff_size_def default_send_buff_size_def default_accept_num_def
      channel_init_def tcp_client_init_def HNW_INVALID_HANDLE_def add_channel_to_map_def)

theorem service_invariant_witness:
  "\<exists>sv. (service_step net1)\<^sup>*\<^sup>* (Service_new :: int service) sv \<and> (\<exists>ch. get_channel sv 0 = Some ch \<and> ch_handle ch = 0)"
proof -
  let ?sv = "(Service_new :: int service)\<lparr>g_handle := 0,
      channel_map := [(0, channel_setup Service_new (Channel_new TCP_CLIENT 0))]\<rparr>"
  have r: "(service_step net1)\<^sup>*\<^sup>* (Service_new :: int service) ?sv"
    using service_step.step_add [OF Service_new_add] by blast
  have g: "get_channel ?sv 0 = Some (channel_setup Service_new (Channel_new TCP_CLIENT 0))"
    by (simp add: get_channel_def omap_get_def)
  from service_invariant [OF r g] r g show ?thesis by blast
qed

text \<open>
  A channel that is added gets a handle no channel has, the service's buffer sizes and no
  event callback; every other handle leads to the channel it led to before. When adding fails,
  the table is as it was.
\<close>

theorem add_channel_fresh:
  assumes "service_ok sv" and "add_channel N sv type local = Some (ret, sv', ho)"
  shows "(ret = HNW_BASE_OK \<longleftrightarrow> ho \<noteq> None) \<and>
    (ho = None \<longrightarrow> (\<forall>h. get_channel sv' h = get_channel sv h)) \<and>
    (\<forall>h. ho = Some h \<longrightarrow> get_channel sv h = None \<and> (\<forall>h'. h' \<noteq> h \<longrightarrow> get_channel sv' h' = get_channel sv h') \<and>
       (\<exists>ch. get_channel sv' h = Some ch \<and> ch_type ch = type \<and> ch_event_cb ch = None \<and>
          ch_recv_buff_size ch = sv_recv_buff_size sv \<and> ch_send_buff_size ch = sv_send_buff_size sv))"
proof -
  have "ho = None \<Longrightarrow> ret \<noteq> HNW_BASE_OK"
    using assms(2) by (auto simp: add_channel_def add_channel_to_map_def Let_def split: if_splits prod.splits)
  with add_channel_spec [OF assms] show ?thesis by auto
qed

theorem add_channel_fresh_witness:
  "\<exists>sv' ch. add_channel net1 (Service_new :: int service) TCP_CLIENT NET_INVALID_POINT =
      Some (HNW_BASE_OK, sv', Some 0) \<and> get_channel sv' 0 = Some ch \<and> ch_type ch = TCP_CLIENT"
proof -
  obtain sv' where a: "add_channel net1 (Service_new :: int service) TCP_CLIENT NET_INVALID_POINT =
      Some (HNW_BASE_OK, sv', Some 0)"
    using Service_new_add by blast
  from add_channel_fresh [OF Service_new_ok a] a show ?thesis by auto
qed

text \<open>
  C37: Adding a server ends the process when the address cannot be bound or the socket cannot listen:
  the channel, whose socket is open, is destroyed, and the close its destructor runs announces the end
  through \<open>shared_from_this\<close>, which has no owner to give. So does adding a UDP channel when its
  address cannot be bound, if its socket lets itself be shut down. A server whose name does not resolve or whose
  socket cannot be opened is refused with an error, because its close has nothing to announce.
\<close>

theorem bind_failure_terminates:
  assumes "check_endpoint local" and "sv_recv_buff_size sv \<noteq> 0" and "sv_send_buff_size sv \<noteq> 0"
    and "sv_accept_num sv \<noteq> 0"
  shows "(net_resolve N local \<and> net_open N local \<and> \<not> (net_bind N local \<and> net_listen N local) \<longrightarrow>
      add_channel N sv TCP_SERVER local = None) \<and>
    (net_resolve N local \<and> net_open N local \<and> \<not> net_bind N local \<and> net_shutdown N (generate_handle (g_handle sv)) \<longrightarrow>
      add_channel N sv UDP local = None) \<and>
    (net_resolve N local \<and> \<not> net_open N local \<longrightarrow>
      (\<exists>sv'. add_channel N sv TCP_SERVER local = Some (HNW_BASE_SOCKET_OPEN_FAIL, sv', None))) \<and>
    (\<not> net_resolve N local \<longrightarrow>
      (\<exists>sv'. add_channel N sv TCP_SERVER local = Some (HNW_BASE_ADDRESS_ENDPOINT_ERROR, sv', None)))"
  using assms
  by (auto simp: add_channel_def supported_type_def channel_setup_eq channel_init_def tcp_server_init_def
      channel_destroy_def channel_close_def tcp_server_close_def udp_init_def udp_close_def EVENT_CB_ASYNC_def
      Let_def)

theorem bind_failure_terminates_witness:
  "add_channel (net1\<lparr>net_bind := \<lambda>_. False\<rparr>) (Service_new :: int service) TCP_SERVER
     \<lparr>np_ip = ''127.0.0.1'', np_port = 80\<rparr> = None"
  using bind_failure_terminates [of "\<lparr>np_ip = ''127.0.0.1'', np_port = 80\<rparr>" "Service_new :: int service"
      "net1\<lparr>net_bind := \<lambda>_. False\<rparr>"]
  by (simp add: check_endpoint_def Service_new_def net1_def default_recv_buff_size_def
      default_send_buff_size_def default_accept_num_def)

text \<open>
  C39: An error is the last thing an application hears of a connected TCP channel. The error
  event is passed on, then the callback is cleared and the channel closed and removed: the
  announcement that the channel is closed finds no callback, and no other channel is touched.
\<close>

theorem error_event_is_last:
  assumes "get_channel sv h = Some ch" and "ch_type ch = TCP_CLIENT" and "bconn ch"
    and "ch_handle ch = h" and "net_shutdown N h"
  shows "\<exists>sv'. run_events N sv [EventCb (Some cb) h (EvError e)] =
      (sv', [EventCb (Some cb) h (EvError e), EventCbAsync (Some None) h EvClosed, CloseSocket]) \<and>
    get_channel sv' h = None \<and> (\<forall>h'. h' \<noteq> h \<longrightarrow> get_channel sv' h' = get_channel sv h')"
proof -
  let ?sv = "store_channel sv h (ch\<lparr>ch_event_cb := Some None\<rparr>)"
  have g: "get_channel ?sv h = Some (ch\<lparr>ch_event_cb := Some None\<rparr>)"
    using assms(1) by (simp add: get_channel_store)
  have s: "service_event_cb N sv h (EvError e) =
      (del_channel ?sv h, [EventCbAsync (Some None) h EvClosed, CloseSocket])"
    using assms g by (simp add: service_event_cb_def is_error_def service_set_event_cb_def service_close_def
        channel_close_def tcp_client_close_def EVENT_CB_ASYNC_def Let_def)
  have "run_events N (del_channel ?sv h) [EventCbAsync (Some None) h EvClosed, CloseSocket] =
      (del_channel ?sv h, [EventCbAsync (Some None) h EvClosed, CloseSocket])"
    by (simp add: prod_eq_iff run_events_other)
  with run_events_EventCb [OF s, of "Some cb" "[]"] show ?thesis
    by (auto simp: prod_eq_iff get_channel_del get_channel_store)
qed

definition sample_service :: "int service" where
  "sample_service = Service_new\<lparr>channel_map := [(3, sample_channel), (5, sample_channel\<lparr>ch_handle := 5\<rparr>)],
     g_handle := 5\<rparr>"

theorem error_event_is_last_witness:
  "\<exists>sv'. run_events net1 sample_service [EventCb (Some 1) 3 (EvError HNW_BASE_RECV_DATA_FAIL)] =
      (sv', [EventCb (Some 1) 3 (EvError HNW_BASE_RECV_DATA_FAIL), EventCbAsync (Some None) 3 EvClosed, CloseSocket])"
  using error_event_is_last [of sample_service 3 sample_channel net1 1 HNW_BASE_RECV_DATA_FAIL]
  by (simp add: sample_service_def get_channel_def omap_get_def sample_channel_def net1_def) blast

text \<open>
  C38: A TLS server announces a client whose handshake has failed. The error of the handshake comes
  first, under a handle the service does not know yet; then the channel is put into the table and
  announced as accepted, and its first read fails, which removes it. After a handshake that
  succeeds the client is connected and reads. Either way the server accepts on.
\<close>

theorem failed_handshake_announced:
  assumes "ch_handle cli = h" and "get_channel sv h = None" and "ch_type cli = SSL_CLIENT" and "\<not> bconn cli"
    and "ch_event_cb cli = Some (Some cb)" and "ch_event_cb server = Some (Some cb)" and "ch_type server = SSL_SERVER"
    and "ssl_accept_handler N sv server cli False True = (sv', done_ef, ef, next)"
  shows "next = Some (snd (new_ssl_client (g_handle sv) server)) \<and>
    (if net_handshake N h
     then done_ef = [] \<and> (\<exists>c. get_channel sv' h = Some c \<and> bconn c) \<and>
       take 1 ef = [EventCb (Some cb) (ch_handle server) (EvAccept h)] \<and>
       EventCb (Some cb) h (EvError HNW_BASE_CHANNEL_NOT_CONN) \<notin> set ef
     else done_ef = [EventCb (Some cb) h (EvError HNW_BASE_SSL_SERVER_HANDSHAKE_FAIL)] \<and>
       get_channel sv' h = Some cli \<and>
       (\<exists>sv''. run_events N sv' ef = (sv'', [EventCb (Some cb) (ch_handle server) (EvAccept h),
            EventCb (Some cb) h (EvError HNW_BASE_CHANNEL_NOT_CONN),
            AsyncAccept (generate_handle (g_handle sv))]) \<and>
          (\<forall>h'. get_channel sv'' h' = get_channel sv h')))"
proof (cases "net_handshake N h")
  case True
  then have "ssl_before_accept N cli = (True, before_accept cli, [])"
    using assms(1) by (simp add: ssl_before_accept_def)
  with assms True show ?thesis
    by (auto simp: ssl_accept_handler_def EVENT_CB_def add_channel_to_map_def get_channel_def omap_get_put
        before_accept_def after_accept_def async_recv_def ssl_async_one_accept_def new_ssl_client_def
        chan_add_timer_def Let_def split: option.splits if_splits prod.splits)
next
  case False
  let ?m = "sv\<lparr>channel_map := omap_put (channel_map sv) h cli, g_handle := generate_handle (g_handle sv)\<rparr>"
  have "ssl_before_accept N cli = (False, cli, [EventCb (Some cb) h (EvError HNW_BASE_SSL_SERVER_HANDSHAKE_FAIL)])"
    using assms(1,5) False by (simp add: ssl_before_accept_def EVENT_CB_def)
  then have r: "done_ef = [EventCb (Some cb) h (EvError HNW_BASE_SSL_SERVER_HANDSHAKE_FAIL)]" "sv' = ?m"
    "ef = [EventCb (Some cb) (ch_handle server) (EvAccept h), EventCb (Some cb) h (EvError HNW_BASE_CHANNEL_NOT_CONN),
       AsyncAccept (generate_handle (g_handle sv))]"
    "next = Some (snd (new_ssl_client (g_handle sv) server))"
    using assms by (auto simp: ssl_accept_handler_def run_events_absent EVENT_CB_def add_channel_to_map_def
        after_accept_def async_recv_def ssl_async_one_accept_def new_ssl_client_def init_accept_def Let_def)
  have g: "get_channel ?m k = (if k = h then Some cli else get_channel sv k)" for k
    by (simp add: get_channel_def omap_get_put)
  let ?d = "del_channel (store_channel ?m h (cli\<lparr>ch_event_cb := Some None\<rparr>)) h"
  have s: "service_event_cb N ?m h (EvError HNW_BASE_CHANNEL_NOT_CONN) = (?d, [])"
    using assms(3,4) g [of h] get_channel_store [of ?m h "cli\<lparr>ch_event_cb := Some None\<rparr>" h]
    by (simp add: service_event_cb_def is_error_def service_set_event_cb_def service_close_def
        channel_close_def ssl_client_close_def)
  have a: "service_event_cb N ?m k (EvAccept h) = (?m, [])" for k
    by (simp add: service_event_cb_def is_error_def)
  have "run_events N ?m ef = (?d, ef)"
    unfolding r by (simp add: prod_eq_iff run_events_EventCb [OF a] run_events_EventCb [OF s] run_events_other)
  moreover have "get_channel ?d k = get_channel sv k" for k
    using assms(2) g by (simp add: get_channel_del get_channel_store)
  ultimately show ?thesis using False r g by simp
qed

definition tls_server :: "int channel" where
  "tls_server = (Channel_new SSL_SERVER 0)\<lparr>ch_event_cb := Some (Some 1), ch_make_shared := True\<rparr>"

theorem failed_handshake_announced_witness:
  "\<exists>sv' ef next. ssl_accept_handler (net1\<lparr>net_handshake := \<lambda>_. False\<rparr>) (Service_new\<lparr>g_handle := 1\<rparr>) tls_server
     (snd (new_ssl_client 0 tls_server)) False True =
     (sv', [EventCb (Some 1) 1 (EvError HNW_BASE_SSL_SERVER_HANDSHAKE_FAIL)], ef, next) \<and>
     get_channel sv' 1 = Some (snd (new_ssl_client 0 tls_server))"
proof -
  let ?N = "net1\<lparr>net_handshake := \<lambda>_. False\<rparr>" and ?c = "snd (new_ssl_client 0 tls_server)"
  obtain sv' d ef "next" where r: "ssl_accept_handler ?N (Service_new\<lparr>g_handle := 1\<rparr>) tls_server ?c False True =
      (sv', d, ef, next)"
    by (cases "ssl_accept_handler ?N (Service_new\<lparr>g_handle := 1\<rparr>) tls_server ?c False True")
  have c: "ch_handle ?c = 1" "ch_type ?c = SSL_CLIENT" "\<not> bconn ?c" "ch_event_cb ?c = Some (Some 1)"
    by (simp_all add: new_ssl_client_def init_accept_def generate_handle_def tls_server_def Channel_new_def Let_def)
  from failed_handshake_announced [OF c(1) _ c(2-4) _ _ r] r show ?thesis
    by (simp add: Service_new_def get_channel_def omap_get_def tls_server_def Channel_new_def)
qed

text \<open>
  A timer never leaves the table by itself: \<open>add_timer\<close> installs no event callback, so when
  it fires its function runs and the service stays as it is, the channel included. With a time of
  0 the call succeeds but no timer is started.
\<close>

theorem timer_stays:
  assumes "service_ok sv" and "add_timer N sv ms (Some call) = Some (ret, sv', Some h, ef)"
  shows "ret = HNW_BASE_OK \<and> ef = (if ms = 0 then [] else [StartTimer ms]) \<and>
    (\<exists>ch. get_channel sv' h = Some ch \<and> run_events N sv' (timer_fire ch) = (sv', [CallTimer (Some call)]))"
proof -
  from add_timer_spec [OF assms] obtain ch where
    ch: "get_channel sv' h = Some ch" "ch_event_cb ch = None" "timer_call ch = Some call"
    and r: "ret = HNW_BASE_OK" "ef = (if ms = 0 then [] else [StartTimer ms])" by blast
  have "run_events N sv' (timer_fire ch) = (sv', [CallTimer (Some call)])"
    using ch by (simp add: timer_fire_def EVENT_CB_def prod_eq_iff run_events_other)
  with ch r show ?thesis by blast
qed

theorem timer_stays_witness:
  "\<exists>sv' ef ch. add_timer net1 (Service_new :: int service) 50 (Some 7) = Some (HNW_BASE_OK, sv', Some 0, ef) \<and>
     get_channel sv' 0 = Some ch"
proof -
  have "\<exists>sv' ef. add_timer net1 (Service_new :: int service) 50 (Some 7) = Some (HNW_BASE_OK, sv', Some 0, ef)"
    by (simp add: add_timer_def add_channel_def supported_type_def generate_handle_def Service_new_def Let_def
      channel_setup_eq default_recv_buff_size_def default_send_buff_size_def default_accept_num_def
      channel_init_def HNW_INVALID_HANDLE_def add_channel_to_map_def service_config_def get_channel_def
      omap_get_def config_virtual_def timer_config_def config_set_def store_channel_def timer_config_cb_def
      service_connect_def channel_connect_def timer_connect_def split: prod.splits)
  then obtain sv' ef where t: "add_timer net1 (Service_new :: int service) 50 (Some 7) = Some (HNW_BASE_OK, sv', Some 0, ef)"
    by blast
  from timer_stays [OF Service_new_ok t] t show ?thesis by blast
qed

end
