(* ===== verification/Http_Service.thy ===== *)
theory Http_Service
  imports Http_Session Hnw_Service
begin

section \<open>The HTTP service\<close>

text \<open>
  \<^verbatim>\<open>Src/http/service/http_service.hpp\<close> on top of the base service and the sessions, with the
  functions of \<^verbatim>\<open>Src/http/hnw_http.cpp\<close> that reach a session: the session table, starting a server
  or a client, sending raw and file messages, receiving a body into a file. A callback object of
  the code is a value that says which function was bound with which arguments; a callback of the
  application is a function of the environment that may call any operation.

  The state holds the base service, so every \<open>HnwBase\<close> call here is the operation of
  \<open>Hnw_Service\<close>. What it asked of boost.asio, and the events it queued, go to a log; an event in
  the log reaches the service as an operation of its own. \<open>hs_fault\<close> is set where the process
  ends, the code has no defined behaviour, it does not return, or an exception leaves the library:
  from then on the state says nothing about the program.
\<close>

definition HTTP_METHOD_GET :: string where "HTTP_METHOD_GET = ''GET''"
definition HTTP_METHOD_POST :: string where "HTTP_METHOD_POST = ''POST''"
definition HTTP_METHOD_HEAD :: string where "HTTP_METHOD_HEAD = ''HEAD''"
definition HTTP_STATUS_OK :: string where "HTTP_STATUS_OK = ''200''"
definition HTTP_STATUS_PARTIAL :: string where "HTTP_STATUS_PARTIAL = ''206''"
definition HTTP_STATUS_MOVE_P :: string where "HTTP_STATUS_MOVE_P = ''301''"
definition HTTP_STATUS_MOVE_T :: string where "HTTP_STATUS_MOVE_T = ''302''"

record HttpParam =
  hp_host :: string
  hp_peer_type :: PeerType
  cert_file :: string
  pri_key_file :: string
  temp_dh_file :: string
  hp_accept_num :: u64

definition HttpParam_new :: HttpParam where
  "HttpParam_new = \<lparr>hp_host = [], hp_peer_type = PeerNone, cert_file = [], pri_key_file = [],
     temp_dh_file = [], hp_accept_num = 0\<rparr>"

record HttpResourceStatus =
  st_host :: string
  st_path :: string
  st_location :: string
  st_size :: u64
  partial_support :: bool
  st_code :: string

definition HttpResourceStatus_new :: HttpResourceStatus where
  "HttpResourceStatus_new = \<lparr>st_host = [], st_path = [], st_location = [], st_size = 0,
     partial_support = False, st_code = ''200''\<rparr>"

subsection \<open>Callbacks, tasks and the state\<close>

text \<open>
  \<open>'u\<close> names the callbacks of the application. A download task is shared by the callbacks
  that hold it, so a callback holds its number. \<open>BindSp\<close> is what \<open>bind_sp\<close> makes.
\<close>

datatype 'u status_cb = UserStatus 'u | DownloadStatus nat

datatype 'u event_callback =
    UserEvent 'u
  | DownloadCb nat
  | ResourceStatusCb HttpResourceStatus "'u status_cb option"
  | OnRequestOnce "'u option" string string string "heads option"

datatype 'u sp_cb = BindSp "'u event_callback option"

text \<open>The events of the base library, and those a session's parser raises.\<close>

datatype http_event =
    BaseEvent chan_event
  | RecvRequestHead HttpRequest
  | RecvRequest HttpRequest
  | RecvResponseHead HttpResponse
  | RecvResponse HttpResponse

record 'u DownloadTask =
  dt_url :: string
  dt_output :: string
  dt_cb :: "'u option"
  dt_response :: "HttpResponse option"
  dt_fflag :: "32 word"
  dt_conn_num :: "32 word"
  dt_total :: HttpRange
  dt_error :: err_code

definition DownloadTask_new :: "'u DownloadTask" where
  "DownloadTask_new = \<lparr>dt_url = [], dt_output = [], dt_cb = None, dt_response = None,
     dt_fflag = HTTP_FILE_FLAG_CREATE_NEW, dt_conn_num = 1, dt_total = HttpRange_default,
     dt_error = HNW_BASE_OK\<rparr>"

datatype hs_fault = ProcessEnds | Undefined | Thrown

datatype 'u http_log = Chan "'u sp_cb chan_effect" | Accepting "'u sp_cb channel list"

text \<open>
  A session keeps the callback its parser was given. \<open>hs_held\<close> maps a handle to the task whose
  \<open>response\<close> pointer is the very message the parser of that handle is filling.
\<close>

record ('u, 'w) http_service =
  hs_base :: "'u sp_cb service"
  session_map :: "(int, session \<times> 'u event_callback option) omap"
  hs_tasks :: "(nat, 'u DownloadTask) omap"
  hs_held :: "(int, nat) omap"
  hs_world :: 'w
  hs_log :: "'u http_log list"
  hs_fault :: "hs_fault option"

text \<open>
  What the service runs on: the operating system, the resolver, the allocator, and the
  application's callbacks. A callback that gets a message may change it.
\<close>

record ('u, 'w) env =
  env_platform :: platform
  env_host :: "'w host"
  env_net :: net
  env_dns :: "string \<Rightarrow> string \<Rightarrow> err_code \<times> NetPoint list"
  env_alloc :: bool
  app_event :: "'u \<Rightarrow> int \<Rightarrow> http_event \<Rightarrow> ('u, 'w) http_service \<Rightarrow> http_event \<times> ('u, 'w) http_service"
  app_status :: "'u \<Rightarrow> HttpResourceStatus \<Rightarrow> err_code \<Rightarrow> ('u, 'w) http_service \<Rightarrow> ('u, 'w) http_service"
  app_response :: "'u \<Rightarrow> HttpResponse option \<Rightarrow> err_code \<Rightarrow> ('u, 'w) http_service \<Rightarrow> ('u, 'w) http_service"
  app_download :: "'u \<Rightarrow> string \<Rightarrow> string \<Rightarrow> HttpRange \<Rightarrow> u64 \<Rightarrow> err_code \<Rightarrow>
    ('u, 'w) http_service \<Rightarrow> bool \<times> ('u, 'w) http_service"

definition HttpService_new :: "'w \<Rightarrow> ('u, 'w) http_service" where
  "HttpService_new w = \<lparr>hs_base = Service_new, session_map = [], hs_tasks = [], hs_held = [],
     hs_world = w, hs_log = [], hs_fault = None\<rparr>"

definition hs_fail :: "hs_fault \<Rightarrow> ('u, 'w) http_service \<Rightarrow> ('u, 'w) http_service" where
  "hs_fail f sv = (if hs_fault sv = None then sv\<lparr>hs_fault := Some f\<rparr> else sv)"

subsection \<open>Calls of the base library\<close>

definition log_chan :: "'u sp_cb chan_effect list \<Rightarrow> ('u, 'w) http_service \<Rightarrow> ('u, 'w) http_service" where
  "log_chan ef sv = sv\<lparr>hs_log := hs_log sv @ map Chan ef\<rparr>"

definition HnwBase_Close ::
  "('u, 'w) env \<Rightarrow> ('u, 'w) http_service \<Rightarrow> int \<Rightarrow> err_code \<times> ('u, 'w) http_service" where
  "HnwBase_Close E sv handle =
     (let (ret, b, ef) = service_close (env_net E) (hs_base sv) handle
      in (ret, log_chan ef (sv\<lparr>hs_base := b\<rparr>)))"

text \<open>The caller's handle is assigned only when the channel was made.\<close>

definition HnwBase_Add_Channnel ::
  "('u, 'w) env \<Rightarrow> ('u, 'w) http_service \<Rightarrow> channel_type \<Rightarrow> NetPoint \<Rightarrow> int \<Rightarrow>
     err_code \<times> int \<times> ('u, 'w) http_service" where
  "HnwBase_Add_Channnel E sv type point handle =
     (case add_channel (env_net E) (hs_base sv) type point of
        None \<Rightarrow> (HNW_BASE_NUKNOW_ERROR, handle, hs_fail ProcessEnds sv)
      | Some (ret, b, h) \<Rightarrow>
          (ret, (case h of None \<Rightarrow> handle | Some h \<Rightarrow> h), sv\<lparr>hs_base := b\<rparr>))"

definition HnwBase_SetEvntCB ::
  "('u, 'w) http_service \<Rightarrow> int \<Rightarrow> 'u sp_cb option \<Rightarrow> err_code \<times> ('u, 'w) http_service" where
  "HnwBase_SetEvntCB sv handle cb =
     (let (ret, b) = service_set_event_cb (hs_base sv) handle cb in (ret, sv\<lparr>hs_base := b\<rparr>))"

definition HnwBase_Config ::
  "('u, 'w) http_service \<Rightarrow> int \<Rightarrow> config_type \<Rightarrow> u64 option \<Rightarrow> err_code \<times> ('u, 'w) http_service" where
  "HnwBase_Config sv handle config_type data =
     (let (ret, b, _) = service_config (hs_base sv) handle config_type data
      in (ret, sv\<lparr>hs_base := b\<rparr>))"

definition HnwBase_Accept ::
  "('u, 'w) http_service \<Rightarrow> int \<Rightarrow> err_code \<times> ('u, 'w) http_service" where
  "HnwBase_Accept sv handle =
     (let (ret, b, clis, ef) = service_accept (hs_base sv) handle;
          sv = log_chan ef (sv\<lparr>hs_base := b\<rparr>)
      in (ret, sv\<lparr>hs_log := hs_log sv @ [Accepting clis]\<rparr>))"

definition HnwBase_Connect ::
  "('u, 'w) env \<Rightarrow> ('u, 'w) http_service \<Rightarrow> int \<Rightarrow> NetPoint \<Rightarrow> err_code \<times> ('u, 'w) http_service" where
  "HnwBase_Connect E sv handle point =
     (let (ret, b, ef) = service_connect (env_net E) (hs_base sv) handle point
      in (ret, log_chan ef (sv\<lparr>hs_base := b\<rparr>)))"

subsection \<open>The session table\<close>

definition get_session :: "('u, 'w) http_service \<Rightarrow> int \<Rightarrow> session option" where
  "get_session sv handle = map_option fst (omap_get (session_map sv) handle)"

definition session_cb :: "('u, 'w) http_service \<Rightarrow> int \<Rightarrow> 'u event_callback option" where
  "session_cb sv handle =
     (case omap_get (session_map sv) handle of None \<Rightarrow> None | Some (_, cb) \<Rightarrow> cb)"

text \<open>The constructor of the session installs its callback; a session already there is replaced.\<close>

definition add_session ::
  "('u, 'w) env \<Rightarrow> ('u, 'w) http_service \<Rightarrow> int \<Rightarrow> PeerType \<Rightarrow> 'u event_callback option \<Rightarrow>
     bool \<times> ('u, 'w) http_service" where
  "add_session E sv handle type cb =
     (if \<not> env_alloc E then (False, sv)
      else let (_, sv) = HnwBase_SetEvntCB sv handle (Some (BindSp cb))
           in (True, sv\<lparr>session_map := omap_put (session_map sv) handle (session_generate handle type, cb)\<rparr>))"

definition del_session :: "('u, 'w) http_service \<Rightarrow> int \<Rightarrow> ('u, 'w) http_service" where
  "del_session sv handle = sv\<lparr>session_map := omap_del (session_map sv) handle\<rparr>"

text \<open>A method of a session in the table has changed the session.\<close>

definition update_session ::
  "('u, 'w) http_service \<Rightarrow> int \<Rightarrow> (session \<Rightarrow> session) \<Rightarrow> ('u, 'w) http_service" where
  "update_session sv handle f =
     (case omap_get (session_map sv) handle of
        None \<Rightarrow> sv
      | Some (se, cb) \<Rightarrow> sv\<lparr>session_map := omap_put (session_map sv) handle (f se, cb)\<rparr>)"

definition store_session ::
  "('u, 'w) http_service \<Rightarrow> int \<Rightarrow> session \<times> 'u event_callback option \<Rightarrow> ('u, 'w) http_service" where
  "store_session sv handle se = sv\<lparr>session_map := omap_put (session_map sv) handle se\<rparr>"

interpretation sessions: keyed_store "\<lambda>sv. omap_get (session_map sv)" store_session del_session
  "\<lambda>sv. omap_ok (session_map sv)"
  by unfold_locales
    (simp_all add: store_session_def del_session_def om.look_put om.look_del om.ok_put om.ok_del)

lemma add_session_store:
  "add_session E sv handle type cb =
     (if env_alloc E then (True, store_session (snd (HnwBase_SetEvntCB sv handle (Some (BindSp cb)))) handle
        (session_generate handle type, cb)) else (False, sv))"
  by (simp add: add_session_def store_session_def split: prod.splits)

lemma update_session_store:
  "update_session sv handle f =
     (case omap_get (session_map sv) handle of None \<Rightarrow> sv | Some (se, cb) \<Rightarrow> store_session sv handle (f se, cb))"
  by (simp add: update_session_def store_session_def split: option.splits prod.splits)

lemma store_session_base [simp]: "hs_base (store_session sv h e) = hs_base sv"
  by (simp add: store_session_def)

lemma del_session_base [simp]: "hs_base (del_session sv h) = hs_base sv"
  by (simp add: del_session_def)

lemma get_session_store:
  "omap_ok (session_map sv) \<Longrightarrow>
     get_session (store_session sv handle (se, cb)) h = (if h = handle then Some se else get_session sv h)"
  by (simp add: get_session_def sessions.look_put)

lemma get_session_update:
  assumes "omap_ok (session_map sv)"
  shows "get_session (update_session sv handle f) h =
    (if h = handle then map_option f (get_session sv handle) else get_session sv h)"
  using sessions.look_put [OF assms]
  by (auto simp: get_session_def update_session_store split: option.splits)

lemma get_session_del:
  "omap_ok (session_map sv) \<Longrightarrow>
     get_session (del_session sv handle) h = (if h = handle then None else get_session sv h)"
  by (simp add: get_session_def sessions.look_del)

lemma update_session_ok: "omap_ok (session_map sv) \<Longrightarrow> omap_ok (session_map (update_session sv handle f))"
  using sessions.ok_put by (auto simp: update_session_store split: option.splits)

lemma update_session_same [simp]:
  "hs_base (update_session sv h f) = hs_base sv" "hs_tasks (update_session sv h f) = hs_tasks sv"
  "hs_world (update_session sv h f) = hs_world sv" "hs_log (update_session sv h f) = hs_log sv"
  "hs_fault (update_session sv h f) = hs_fault sv"
  by (simp_all add: update_session_def split: option.splits)

text \<open>The calls of the base library leave the session table alone.\<close>

lemma base_call_sessions [simp]:
  "session_map (log_chan ef sv) = session_map sv"
  "session_map (hs_fail f sv) = session_map sv"
  "session_map (snd (HnwBase_Close E sv h)) = session_map sv"
  "session_map (snd (snd (HnwBase_Add_Channnel E sv t p h))) = session_map sv"
  "session_map (snd (HnwBase_SetEvntCB sv h ecb)) = session_map sv"
  "session_map (snd (HnwBase_Config sv h ct data)) = session_map sv"
  "session_map (snd (HnwBase_Accept sv h)) = session_map sv"
  "session_map (snd (HnwBase_Connect E sv h p)) = session_map sv"
  by (simp_all add: log_chan_def hs_fail_def HnwBase_Close_def HnwBase_Add_Channnel_def HnwBase_SetEvntCB_def
      HnwBase_Config_def HnwBase_Accept_def HnwBase_Connect_def Let_def split: prod.splits option.splits)

subsection \<open>Sending through a session\<close>

text \<open>
  \<open>Session::on_read\<close> as the callback of \<open>HnwBase_Send_Cb\<close>: its state is the session with the
  closes it has asked for, None once a null body was dereferenced.
\<close>

definition on_read_cb ::
  "('u, 'w) env \<Rightarrow> 'w \<Rightarrow> (session \<times> session_effect list) option \<Rightarrow> nat \<Rightarrow>
     string \<times> (session \<times> session_effect list) option" where
  "on_read_cb E w s n =
     (case s of
        None \<Rightarrow> ([], None)
      | Some (se, efs) \<Rightarrow>
          (case on_read (env_platform E) (env_host E) w se n of
             None \<Rightarrow> ([], None)
           | Some (d, se, ef) \<Rightarrow> (d, Some (se, efs @ ef))))"

definition run_closes ::
  "('u, 'w) env \<Rightarrow> ('u, 'w) http_service \<Rightarrow> session_effect list \<Rightarrow> ('u, 'w) http_service" where
  "run_closes E sv efs =
     foldl (\<lambda>sv e. case e of HttpClose h \<Rightarrow> snd (HnwBase_Close E sv h) | SendCb _ \<Rightarrow> sv) sv efs"

definition HnwBase_Send_Cb ::
  "('u, 'w) env \<Rightarrow> ('u, 'w) http_service \<Rightarrow> int \<Rightarrow> session \<Rightarrow> err_code \<times> ('u, 'w) http_service" where
  "HnwBase_Send_Cb E sv handle se =
     (let (ret, ef, _, s) = service_send_cb (env_net E) (hs_base sv) handle
            (Some (on_read_cb E (hs_world sv))) (Some (se, []))
      in case s of
           None \<Rightarrow> (ret, hs_fail Undefined sv)
         | Some (se, closes) \<Rightarrow>
             (ret, run_closes E (log_chan ef (update_session sv handle (\<lambda>_. se))) closes))"

text \<open>
  A method of a session that may call \<open>start_send\<close>: \<open>f\<close> is given what \<open>HnwBase_Send_Cb\<close>
  returns.
\<close>

definition session_call ::
  "('u, 'w) env \<Rightarrow> ('u, 'w) http_service \<Rightarrow> int \<Rightarrow> session \<Rightarrow>
     (err_code \<Rightarrow> err_code \<times> session \<times> session_effect list) \<Rightarrow> err_code \<times> ('u, 'w) http_service" where
  "session_call E sv handle se f =
     (let (ret, se', ef) = f HNW_BASE_OK; sv = update_session sv handle (\<lambda>_. se')
      in if ef = [] then (ret, sv)
         else let (ret, sv) = HnwBase_Send_Cb E sv (se_handle se) se' in (fst (f ret), sv))"

definition HnwHttp_Request ::
  "('u, 'w) env \<Rightarrow> ('u, 'w) http_service \<Rightarrow> int \<Rightarrow> HttpRequest option \<Rightarrow> err_code \<times> ('u, 'w) http_service" where
  "HnwHttp_Request E sv handle req =
     (case get_session sv handle of
        Some se \<Rightarrow> session_call E sv handle se (\<lambda>ret. send_request ret se req)
      | None \<Rightarrow> (HNW_BASE_INVAILD_HANDLE, sv))"

definition HnwHttp_Response ::
  "('u, 'w) env \<Rightarrow> ('u, 'w) http_service \<Rightarrow> int \<Rightarrow> HttpResponse option \<Rightarrow> err_code \<times> ('u, 'w) http_service" where
  "HnwHttp_Response E sv handle res =
     (case get_session sv handle of
        Some se \<Rightarrow> session_call E sv handle se (\<lambda>ret. send_response ret se res)
      | None \<Rightarrow> (HNW_BASE_INVAILD_HANDLE, sv))"

definition HnwHttp_GenerateRequest :: "('u, 'w) env \<Rightarrow> err_code \<times> HttpRequest option" where
  "HnwHttp_GenerateRequest E =
     (if env_alloc E then (HNW_BASE_OK, Some HttpRequest_new) else (HNW_BASE_ALLOC_FAIL, None))"

definition HnwHttp_GenerateResponse :: "('u, 'w) env \<Rightarrow> err_code \<times> HttpResponse option" where
  "HnwHttp_GenerateResponse E =
     (if env_alloc E then (HNW_BASE_OK, Some HttpResponse_new) else (HNW_BASE_ALLOC_FAIL, None))"

definition HnwHttp_GenerateHead :: "('u, 'w) env \<Rightarrow> err_code \<times> heads option" where
  "HnwHttp_GenerateHead E = (if env_alloc E then (HNW_BASE_OK, Some []) else (HNW_BASE_ALLOC_FAIL, None))"

text \<open>
  \<open>RawBodyImpl::generate\<close> and \<open>write_body\<close>, as \<open>raw_request\<close> and \<open>raw_response\<close> call them: the
  error to return, or the body.
\<close>

definition raw_message_body ::
  "('u, 'w) env \<Rightarrow> ('u, 'w) http_service \<Rightarrow> string \<Rightarrow> (err_code + HttpBody) \<times> ('u, 'w) http_service" where
  "raw_message_body E sv data =
     (if \<not> env_alloc E then (Inl HNW_BASE_ALLOC_FAIL, sv)
      else case write_body (env_host E) (hs_world sv) (raw_body_of raw_generate_auto) data of
             None \<Rightarrow> (Inl HNW_BASE_SEND_DATA_FAIL, hs_fail Undefined sv)
           | Some (n, w, b) \<Rightarrow>
               (if length data \<noteq> n then Inl HNW_BASE_SEND_DATA_FAIL else Inr b, sv\<lparr>hs_world := w\<rparr>))"

definition raw_request ::
  "('u, 'w) env \<Rightarrow> ('u, 'w) http_service \<Rightarrow> int \<Rightarrow> string \<Rightarrow> string \<Rightarrow> string \<Rightarrow> heads option \<Rightarrow>
     err_code \<times> ('u, 'w) http_service" where
  "raw_request E sv handle method uri data ext_head =
     (case HnwHttp_GenerateRequest E of
        (ret, None) \<Rightarrow> (ret, sv)
      | (ret, Some req) \<Rightarrow>
          let req = req\<lparr>rq_line := set_url ((rq_line req)\<lparr>rl_method := method\<rparr>) uri,
                        rq_head := merge (env_platform E) (rq_head req) ext_head True\<rparr>
          in case raw_message_body E sv data of
               (Inl err, sv) \<Rightarrow> (err, sv)
             | (Inr b, sv) \<Rightarrow> HnwHttp_Request E sv handle (Some (req\<lparr>rq_body := Some b\<rparr>)))"

definition raw_response ::
  "('u, 'w) env \<Rightarrow> ('u, 'w) http_service \<Rightarrow> int \<Rightarrow> string \<Rightarrow> string \<Rightarrow> heads option \<Rightarrow>
     err_code \<times> ('u, 'w) http_service" where
  "raw_response E sv handle code data ext_head =
     (case HnwHttp_GenerateResponse E of
        (ret, None) \<Rightarrow> (ret, sv)
      | (ret, Some res) \<Rightarrow>
          let res = res\<lparr>rs_line := status_code (rs_line res) code,
                        rs_head := merge (env_platform E) (rs_head res) ext_head True\<rparr>
          in case raw_message_body E sv data of
               (Inl err, sv) \<Rightarrow> (err, sv)
             | (Inr b, sv) \<Rightarrow> HnwHttp_Response E sv handle (Some (res\<lparr>rs_body := Some b\<rparr>)))"

definition HnwHttp_StatusResponse ::
  "('u, 'w) env \<Rightarrow> ('u, 'w) http_service \<Rightarrow> int \<Rightarrow> string \<Rightarrow> err_code \<times> ('u, 'w) http_service" where
  "HnwHttp_StatusResponse E sv handle code = raw_response E sv handle code [] None"

definition file_request ::
  "('u, 'w) env \<Rightarrow> ('u, 'w) http_service \<Rightarrow> int \<Rightarrow> string \<Rightarrow> string \<Rightarrow> string \<Rightarrow> heads option \<Rightarrow>
     err_code \<times> ('u, 'w) http_service" where
  "file_request E sv handle method uri filepath ext_head =
     (case HnwHttp_GenerateRequest E of
        (ret, None) \<Rightarrow> (ret, sv)
      | (ret, Some req) \<Rightarrow>
          let req = req\<lparr>rq_line := set_url ((rq_line req)\<lparr>rl_method := method\<rparr>) uri,
                        rq_head := merge (env_platform E) (rq_head req) ext_head True\<rparr>;
              rg = snd (get_range (env_platform E) (rq_head req) HttpRange_default);
              (b, w) = file_generate (env_host E) (hs_world sv) filepath rg HTTP_FILE_FLAG_OPEN;
              sv = sv\<lparr>hs_world := w\<rparr>
          in case b of
               None \<Rightarrow> (HNW_BASE_ALLOC_FAIL, sv)
             | Some b \<Rightarrow> HnwHttp_Request E sv handle (Some (req\<lparr>rq_body := Some (file_body_of b)\<rparr>)))"

definition file_response ::
  "('u, 'w) env \<Rightarrow> ('u, 'w) http_service \<Rightarrow> int \<Rightarrow> string \<Rightarrow> string \<Rightarrow> heads option \<Rightarrow>
     err_code \<times> ('u, 'w) http_service" where
  "file_response E sv handle code filepath ext_head =
     (case HnwHttp_GenerateResponse E of
        (ret, None) \<Rightarrow> (ret, sv)
      | (ret, Some res) \<Rightarrow>
          let h = merge (env_platform E) (rs_head res) ext_head True;
              h = (if get_head_count h HTTP_CT = 0
                   then add_head h HTTP_CT (get_http_mime_by_uri filepath OCT_MIME) else h);
              res = res\<lparr>rs_line := status_code (rs_line res) code, rs_head := h\<rparr>;
              rg = snd (get_content_range (env_platform E) h HttpRange_default);
              (b, w) = file_generate (env_host E) (hs_world sv) filepath rg HTTP_FILE_FLAG_OPEN;
              sv = sv\<lparr>hs_world := w\<rparr>
          in case b of
               None \<Rightarrow> (HNW_BASE_ALLOC_FAIL, sv)
             | Some b \<Rightarrow> HnwHttp_Response E sv handle (Some (res\<lparr>rs_body := Some (file_body_of b)\<rparr>)))"

subsection \<open>Receiving into a file\<close>

text \<open>The body of the message is replaced whether or not the file could be opened.\<close>

definition recv_file_request ::
  "platform \<Rightarrow> 'w host \<Rightarrow> 'w \<Rightarrow> HttpRequest option \<Rightarrow> string \<Rightarrow> 32 word \<Rightarrow>
     err_code \<times> 'w \<times> HttpRequest option" where
  "recv_file_request P H w request filepath flag =
     (case request of
        None \<Rightarrow> (HNW_BASE_PARAMS_IS_INVALID, w, None)
      | Some q \<Rightarrow>
          let sz = get_head_int64 P (rq_head q) HTTP_LEN (-1);
              (ok, rg) = (if sz < 0 then get_range P (rq_head q) HttpRange_default
                          else (True, HttpRange_default\<lparr>rg_total := of_int sz\<rparr>))
          in if \<not> ok then (HNW_BASE_PARAMS_IS_INVALID, w, Some q)
             else let (b, w) = file_generate H w filepath rg flag;
                      q = q\<lparr>rq_body := map_option file_body_of b\<rparr>
                  in (if b = None then HNW_BASE_ALLOC_FAIL else HNW_BASE_OK, w, Some q))"

definition recv_file_response ::
  "platform \<Rightarrow> 'w host \<Rightarrow> 'w \<Rightarrow> HttpResponse option \<Rightarrow> string \<Rightarrow> 32 word \<Rightarrow>
     err_code \<times> 'w \<times> HttpResponse option" where
  "recv_file_response P H w response filepath flag =
     (case response of
        None \<Rightarrow> (HNW_BASE_PARAMS_IS_INVALID, w, None)
      | Some s \<Rightarrow>
          let sz = get_head_int64 P (rs_head s) HTTP_LEN (-1);
              (ok, rg) = (if sz < 0 then get_content_range P (rs_head s) HttpRange_default
                          else (True, HttpRange_default\<lparr>rg_total := of_int sz\<rparr>))
          in if \<not> ok then (HNW_BASE_PARAMS_IS_INVALID, w, Some s)
             else let (b, w) = file_generate H w filepath rg flag;
                      s = s\<lparr>rs_body := map_option file_body_of b\<rparr>
                  in (if b = None then HNW_BASE_ALLOC_FAIL else HNW_BASE_OK, w, Some s))"

subsection \<open>Starting a server or a client\<close>

text \<open>\<open>chn_type\<close> is the caller's variable; a protocol the code does not know leaves it as it is.\<close>

definition get_base_channel_type ::
  "string \<Rightarrow> PeerType \<Rightarrow> channel_type \<Rightarrow> err_code \<times> channel_type" where
  "get_base_channel_type protocol peer_type chn_type =
     (let protocol = (if protocol = [] then ''http'' else protocol)
      in if protocol = ''http''
         then if peer_type = Server then (HNW_BASE_OK, TCP_SERVER)
              else if peer_type = Client then (HNW_BASE_OK, TCP_CLIENT)
              else (HNW_BASE_PARAMS_IS_INVALID, chn_type)
         else if protocol = ''https''
         then if peer_type = Server then (HNW_BASE_OK, SSL_SERVER)
              else if peer_type = Client then (HNW_BASE_OK, SSL_CLIENT)
              else (HNW_BASE_PARAMS_IS_INVALID, chn_type)
         else (HNW_BASE_OK, chn_type))"

definition choose_point :: "('u, 'w) env \<Rightarrow> UrlParam \<Rightarrow> NetPoint" where
  "choose_point E url_param =
     (let (ret, point_ver) = env_dns E (url_host url_param)
            (if url_protocol url_param = [] then ''http'' else url_protocol url_param)
      in if ret \<noteq> HNW_BASE_OK then NET_INVALID_POINT
         else case point_ver of
                [] \<Rightarrow> NET_INVALID_POINT
              | point # _ \<Rightarrow>
                  if url_port url_param \<noteq> []
                  then (case stoi (url_port url_param) of
                          None \<Rightarrow> NET_INVALID_POINT
                        | Some p \<Rightarrow> point\<lparr>np_port := p\<rparr>)
                  else point)"

text \<open>
  The certificate files, which only a TLS server reads. What the call returns is not looked at; the
  exception for a file that OpenSSL cannot read leaves \<open>start\<close> and the library.
\<close>

definition config_path ::
  "('u, 'w) env \<Rightarrow> ('u, 'w) http_service \<Rightarrow> int \<Rightarrow> config_type \<Rightarrow> string \<Rightarrow> ('u, 'w) http_service" where
  "config_path E sv handle config_type path =
     (if length path \<noteq> 0
      then case service_config_path (env_net E) (hs_base sv) handle config_type path of
             None \<Rightarrow> hs_fail Thrown sv
           | Some _ \<Rightarrow> sv
      else sv)"

definition start_config ::
  "('u, 'w) env \<Rightarrow> ('u, 'w) http_service \<Rightarrow> HttpParam \<Rightarrow> int \<Rightarrow> ('u, 'w) http_service" where
  "start_config E sv param handle =
     (let sv = config_path E sv handle SET_SSL_SERVER_CERT_FILE_PATH (cert_file param);
          sv = config_path E sv handle SET_SSL_SERVER_PRI_KEY_FILE_PATH (pri_key_file param);
          sv = config_path E sv handle SET_SSL_SERVER_TEMP_DH_FILE_PATH (temp_dh_file param)
      in snd (HnwBase_Config sv handle SET_SERVER_ACCEPT_NUM (Some (hp_accept_num param))))"

text \<open>
  \<open>handle\<close> is the caller's variable, whatever it held before. A process that ended in
  \<open>add_channel\<close> does not come back.
\<close>

definition http_start ::
  "('u, 'w) env \<Rightarrow> ('u, 'w) http_service \<Rightarrow> HttpParam \<Rightarrow> 'u event_callback option \<Rightarrow> int \<Rightarrow>
     err_code \<times> int \<times> ('u, 'w) http_service" where
  "http_start E sv param cb handle =
     (let url_param = snd (parser_url (hp_host param) UrlParam_empty);
          (ret, chn_type) = get_base_channel_type (url_protocol url_param) (hp_peer_type param) TCP_SERVER
      in if ret \<noteq> HNW_BASE_OK then (ret, handle, sv)
         else
           let point = choose_point E url_param
           in if NetPoint_eq NET_INVALID_POINT point then (HNW_HTTP_HOST_IS_IVAILD, handle, sv)
              else
                let (ret, handle, sv) = HnwBase_Add_Channnel E sv chn_type point handle
                in if ret \<noteq> HNW_BASE_OK
                   then (ret, handle, if hs_fault sv = None then snd (HnwBase_Close E sv handle) else sv)
                   else
                     let (ok, sv) = add_session E sv handle
                           (if hp_peer_type param = Client then Client else PeerNone) cb
                     in if \<not> ok then (HNW_BASE_ALLOC_FAIL, handle, snd (HnwBase_Close E sv handle))
                        else
                          let sv = update_session sv handle
                                (\<lambda>se. add_session_head se HTTP_HOST (url_host url_param));
                              sv = start_config E sv param handle;
                              (ret, sv) =
                                (if hp_peer_type param = Server then HnwBase_Accept sv handle
                                 else if hp_peer_type param = Client then HnwBase_Connect E sv handle point
                                 else (HNW_BASE_PARAMS_IS_INVALID, sv))
                          in if ret \<noteq> HNW_BASE_OK
                             then (ret, handle, snd (HnwBase_Close E sv handle))
                             else (ret, handle, sv))"

subsection \<open>One request\<close>

text \<open>The timeout is set after the connection was started.\<close>

definition http_request ::
  "('u, 'w) env \<Rightarrow> ('u, 'w) http_service \<Rightarrow> string \<Rightarrow> string \<Rightarrow> 'u option \<Rightarrow> string \<Rightarrow> u64 \<Rightarrow>
     heads option \<Rightarrow> err_code \<times> ('u, 'w) http_service" where
  "http_request E sv method url cb body wait_ms ext_head =
     (let param = HttpParam_new\<lparr>hp_host := url, hp_peer_type := Client\<rparr>;
          event_cb = OnRequestOnce cb method (get_path_for_url url) body ext_head;
          (ret, handle, sv) = http_start E sv param (Some event_cb) HNW_INVALID_HANDLE
      in if ret \<noteq> HNW_BASE_OK then (ret, sv)
         else HnwBase_Config sv handle SET_RECV_TIME_OUT_MS (Some wait_ms))"

definition on_request_once ::
  "('u, 'w) env \<Rightarrow> 'u option \<Rightarrow> string \<Rightarrow> string \<Rightarrow> string \<Rightarrow> heads option \<Rightarrow> int \<Rightarrow> http_event \<Rightarrow>
     ('u, 'w) http_service \<Rightarrow> ('u, 'w) http_service" where
  "on_request_once E cb method path body ext_head handle ev sv =
     (let answer = (\<lambda>r e sv. case cb of None \<Rightarrow> sv | Some u \<Rightarrow> app_response E u r e sv);
          detach = (\<lambda>sv. snd (HnwBase_Close E (snd (HnwBase_SetEvntCB sv handle None)) handle))
      in case ev of
           BaseEvent EvConnectEstablish \<Rightarrow>
             let (ret, sv) = raw_request E sv handle method path body ext_head
             in if ret \<noteq> HNW_BASE_OK then snd (HnwBase_Close E (answer None ret sv) handle) else sv
         | RecvResponse response \<Rightarrow> detach (answer (Some response) HNW_BASE_OK sv)
         | BaseEvent (EvError code) \<Rightarrow> detach (answer None code sv)
         | _ \<Rightarrow> sv)"

text \<open>An environment whose callbacks do nothing, for the examples.\<close>

definition silent_env :: "(nat, unit) env" where
  "silent_env = \<lparr>env_platform = platform0, env_host = host1, env_net = net1,
     env_dns = \<lambda>_ _. (HNW_BASE_OK, [\<lparr>np_ip = ''10.0.0.1'', np_port = 80\<rparr>]), env_alloc = True,
     app_event = \<lambda>u h ev sv. (ev, sv), app_status = \<lambda>u st err sv. sv, app_response = \<lambda>u r err sv. sv,
     app_download = \<lambda>u url out rg pos err sv. (True, sv)\<rparr>"

end
