(* ===== verification/Http_Download.thy ===== *)
theory Http_Download
  imports Http_Service
begin

section \<open>Resources and downloads\<close>

text \<open>
  The rest of \<^verbatim>\<open>Src/http/service/http_service.hpp\<close>: asking for the status of a resource, and
  downloading it in one or several connections. A task is shared by the callbacks that hold it;
  it lives in the task table under a number.
\<close>

definition get_task :: "('u, 'w) http_service \<Rightarrow> nat \<Rightarrow> 'u DownloadTask" where
  "get_task sv t = (case omap_get (hs_tasks sv) t of None \<Rightarrow> DownloadTask_new | Some k \<Rightarrow> k)"

definition set_task :: "('u, 'w) http_service \<Rightarrow> nat \<Rightarrow> 'u DownloadTask \<Rightarrow> ('u, 'w) http_service" where
  "set_task sv t k = sv\<lparr>hs_tasks := omap_put (hs_tasks sv) t k\<rparr>"

text \<open>\<open>make_shared_safe\<close>: a number no task has.\<close>

definition new_task :: "('u, 'w) http_service \<Rightarrow> 'u DownloadTask \<Rightarrow> nat \<times> ('u, 'w) http_service" where
  "new_task sv k = (let t = length (hs_tasks sv) in (t, set_task sv t k))"

definition set_task_error :: "('u, 'w) http_service \<Rightarrow> nat \<Rightarrow> err_code \<Rightarrow> ('u, 'w) http_service" where
  "set_task_error sv t err = set_task sv t ((get_task sv t)\<lparr>dt_error := err\<rparr>)"

subsection \<open>The status of a resource\<close>

definition get_resource_status ::
  "('u, 'w) env \<Rightarrow> ('u, 'w) http_service \<Rightarrow> string \<Rightarrow> 'u status_cb option \<Rightarrow>
     err_code \<times> ('u, 'w) http_service" where
  "get_resource_status E sv url cb =
     (let path = get_path_for_url url;
          status = HttpResourceStatus_new\<lparr>st_host := get_host_for_url url,
                     st_path := (if path = [] then ''/'' else path)\<rparr>
      in if st_host status = [] then (HNW_BASE_PARAMS_IS_INVALID, sv)
         else let param = HttpParam_new\<lparr>hp_host := url, hp_peer_type := Client\<rparr>;
                  (ret, _, sv) = http_start E sv param (Some (ResourceStatusCb status cb)) HNW_INVALID_HANDLE
              in (ret, sv))"

subsection \<open>Downloading\<close>

text \<open>The application hears of the task; True when the download goes on.\<close>

definition task_pos :: "'u DownloadTask \<Rightarrow> u64" where
  "task_pos k =
     (case dt_response k of
        None \<Rightarrow> 0
      | Some s \<Rightarrow> (case rs_body s of None \<Rightarrow> 0 | Some b \<Rightarrow> bd_write_pos b))"

definition on_download_status_change ::
  "('u, 'w) env \<Rightarrow> ('u, 'w) http_service \<Rightarrow> int \<Rightarrow> nat \<Rightarrow> bool \<times> ('u, 'w) http_service" where
  "on_download_status_change E sv handle t =
     (let k = get_task sv t
      in case dt_cb k of
           None \<Rightarrow> (False, sv)
         | Some u \<Rightarrow>
             let pos = task_pos k;
                 (ret, sv) = app_download E u (dt_url k) (dt_output k) (dt_total k) pos (dt_error k) sv
             in if \<not> ret \<or> dt_error k \<noteq> HNW_BASE_OK \<or> section_size (dt_total k) = pos
                then (False,
                  if handle \<noteq> HNW_INVALID_HANDLE
                  then snd (HnwBase_Close E (snd (HnwBase_SetEvntCB sv handle None)) handle) else sv)
                else (True, sv))"

text \<open>\<open>download(task, bMainTask)\<close>.\<close>

definition download ::
  "('u, 'w) env \<Rightarrow> ('u, 'w) http_service \<Rightarrow> nat \<Rightarrow> bool \<Rightarrow> err_code \<times> ('u, 'w) http_service" where
  "download E sv t bMainTask =
     (let k = get_task sv t
      in if bMainTask \<or> rg_total (dt_total k) = 0
         then get_resource_status E sv (dt_url k) (Some (DownloadStatus t))
         else let param = HttpParam_new\<lparr>hp_host := dt_url k, hp_peer_type := Client\<rparr>;
                  (ret, _, sv) = http_start E sv param (Some (DownloadCb t)) HNW_INVALID_HANDLE
              in (ret, sv))"

definition download_url ::
  "('u, 'w) env \<Rightarrow> ('u, 'w) http_service \<Rightarrow> string \<Rightarrow> string \<Rightarrow> 'u option \<Rightarrow> u64 \<Rightarrow> HttpRange \<Rightarrow> 32 word \<Rightarrow>
     err_code \<times> ('u, 'w) http_service" where
  "download_url E sv url output cb con_num rg file_flag =
     (if con_num = 0 \<or> url = [] \<or> output = [] then (HNW_BASE_PARAMS_IS_INVALID, sv)
      else let (t, sv) = new_task sv (DownloadTask_new\<lparr>dt_cb := cb, dt_conn_num := ucast con_num,
                   dt_fflag := file_flag, dt_output := output, dt_total := rg, dt_url := url\<rparr>)
           in download E sv t True)"

text \<open>
  The ranges of the connections: all but the last get \<open>s_size + 1\<close> bytes, the last one starts
  behind them and is left open.
\<close>

definition sub_range :: "HttpRange \<Rightarrow> u64 \<Rightarrow> u64 \<Rightarrow> HttpRange" where
  "sub_range whole start s_size =
     HttpRange_default\<lparr>use_start_endpoint := False, use_end_endpoint := False, rg_total := rg_total whole,
       rg_start := start, rg_end := start + s_size\<rparr>"

definition last_range :: "HttpRange \<Rightarrow> u64 \<Rightarrow> HttpRange" where
  "last_range whole start =
     HttpRange_default\<lparr>use_start_endpoint := False, use_end_endpoint := True, rg_total := rg_total whole,
       rg_start := start\<rparr>"

fun sub_ranges :: "HttpRange \<Rightarrow> u64 \<Rightarrow> u64 \<Rightarrow> nat \<Rightarrow> HttpRange list" where
  "sub_ranges whole start s_size 0 = [last_range whole start]"
| "sub_ranges whole start s_size (Suc n) =
     (let rg = sub_range whole start s_size in rg # sub_ranges whole (rg_end rg + 1) s_size n)"

definition start_subtask ::
  "('u, 'w) env \<Rightarrow> 'u DownloadTask \<Rightarrow> ('u, 'w) http_service \<Rightarrow> HttpRange \<Rightarrow> ('u, 'w) http_service" where
  "start_subtask E k sv rg =
     (let (s, sv) = new_task sv (DownloadTask_new\<lparr>dt_cb := dt_cb k, dt_conn_num := 1,
                dt_fflag := HTTP_FILE_FLAG_OPEN, dt_output := dt_output k, dt_total := rg, dt_url := dt_url k\<rparr>);
          (ret, sv) = download E sv s False
      in if ret \<noteq> HNW_BASE_OK
         then snd (on_download_status_change E (set_task_error sv s ret) HNW_INVALID_HANDLE s)
         else sv)"

text \<open>
  The lambda of \<open>download\<close> that gets the status. A number of connections whose low 32 bits are
  0 divides by zero.
\<close>

definition download_status ::
  "('u, 'w) env \<Rightarrow> nat \<Rightarrow> HttpResourceStatus \<Rightarrow> err_code \<Rightarrow> ('u, 'w) http_service \<Rightarrow> ('u, 'w) http_service" where
  "download_status E t status error sv =
     (let k = get_task sv t;
          tell = (\<lambda>sv. snd (on_download_status_change E sv HNW_INVALID_HANDLE t));
          make_file = (\<lambda>sv. sv\<lparr>hs_world :=
             snd (do_file_by_flag (env_host E) (hs_world sv) (dt_output k) (st_size status) (dt_fflag k))\<rparr>)
      in if error \<noteq> HNW_BASE_OK then tell (set_task_error sv t error)
         else if st_code status = HTTP_STATUS_OK
         then let sv = make_file sv
              in if st_size status = 0 then tell sv
                 else snd (download E (set_task sv t (k\<lparr>dt_total := (dt_total k)\<lparr>use_start_endpoint := True,
                        use_end_endpoint := True, rg_total := st_size status\<rparr>,
                        dt_conn_num := 1, dt_fflag := HTTP_FILE_FLAG_OPEN\<rparr>)) t False)
         else if st_code status = HTTP_STATUS_MOVE_P \<or> st_code status = HTTP_STATUS_MOVE_T
         then snd (download E (set_task sv t (k\<lparr>dt_url := st_host status @ st_location status\<rparr>)) t False)
         else if st_code status = HTTP_STATUS_PARTIAL
         then let sv = make_file sv
              in if st_size status = 0 then tell sv
                 else
                   let k = k\<lparr>dt_total := (dt_total k)\<lparr>rg_total := st_size status\<rparr>\<rparr>;
                       sv = set_task sv t k
                   in if dt_conn_num k = 0 then hs_fail Undefined sv
                      else
                        let s_size = section_size (dt_total k) div scast (dt_conn_num k)
                        in if s_size = 0 then tell (set_task_error sv t HNW_HTTP_BAD_MESSAGE)
                           else foldl (start_subtask E k) sv
                                  (sub_ranges (dt_total k) (section_start (dt_total k)) s_size
                                     (nat (sint (dt_conn_num k) - 1)))
         else tell (set_task_error sv t HNW_HTTP_RES_IS_INVALID))"

subsection \<open>The callbacks\<close>

definition call_status_cb ::
  "('u, 'w) env \<Rightarrow> 'u status_cb option \<Rightarrow> HttpResourceStatus \<Rightarrow> err_code \<Rightarrow>
     ('u, 'w) http_service \<Rightarrow> ('u, 'w) http_service" where
  "call_status_cb E cb status error sv =
     (case cb of
        None \<Rightarrow> sv
      | Some (UserStatus u) \<Rightarrow> app_status E u status error sv
      | Some (DownloadStatus t) \<Rightarrow> download_status E t status error sv)"

text \<open>The head is used whether or not it could be made.\<close>

definition range_request ::
  "('u, 'w) env \<Rightarrow> ('u, 'w) http_service \<Rightarrow> int \<Rightarrow> string \<Rightarrow> string \<Rightarrow> HttpRange \<Rightarrow>
     err_code \<times> ('u, 'w) http_service" where
  "range_request E sv handle method path rg =
     (case snd (HnwHttp_GenerateHead E) of
        None \<Rightarrow> (HNW_BASE_ALLOC_FAIL, hs_fail Undefined sv)
      | Some head \<Rightarrow> raw_request E sv handle method path [] (Some (snd (set_range head rg))))"

definition resource_status_cb ::
  "('u, 'w) env \<Rightarrow> HttpResourceStatus \<Rightarrow> 'u status_cb option \<Rightarrow> int \<Rightarrow> http_event \<Rightarrow>
     ('u, 'w) http_service \<Rightarrow> ('u, 'w) http_service" where
  "resource_status_cb E status cb handle ev sv =
     (case ev of
        BaseEvent EvConnectEstablish \<Rightarrow>
          let (ret, sv) = range_request E sv handle HTTP_METHOD_HEAD (st_path status) HttpRange_default
          in if ret \<noteq> HNW_BASE_OK
             then snd (HnwBase_Close E (call_status_cb E cb status ret sv) handle) else sv
      | RecvResponseHead response \<Rightarrow>
          let h = rs_head response; code = sl_status_code (rs_line response);
              status = status\<lparr>st_size := get_head_uint64 (env_platform E) h HTTP_LEN 0\<rparr>;
              status =
                (if code = HTTP_STATUS_PARTIAL
                 then status\<lparr>st_size := rg_total (snd (get_content_range (env_platform E) h HttpRange_default)),
                             partial_support := True\<rparr>
                 else if code = HTTP_STATUS_MOVE_P \<or> code = HTTP_STATUS_MOVE_T
                 then status\<lparr>st_location := get_head (env_platform E) h HTTP_LOC []\<rparr>
                 else status);
              sv = call_status_cb E cb (status\<lparr>st_code := code\<rparr>) HNW_BASE_OK sv
          in snd (HnwBase_Close E (snd (HnwBase_SetEvntCB sv handle None)) handle)
      | BaseEvent (EvError code) \<Rightarrow>
          snd (HnwBase_Close E (call_status_cb E cb (status\<lparr>st_code := ''500''\<rparr>) code sv) handle)
      | _ \<Rightarrow> sv)"

text \<open>
  A response header: the message is the parser's own, so the body the file is given here is the
  one the parser fills. The second component is the message after the callback.
\<close>

definition download_head ::
  "('u, 'w) env \<Rightarrow> nat \<Rightarrow> int \<Rightarrow> HttpResponse \<Rightarrow> ('u, 'w) http_service \<Rightarrow>
     bool \<times> HttpResponse \<times> ('u, 'w) http_service" where
  "download_head E t handle response sv =
     (let k = get_task sv t
      in if dt_response k \<noteq> None then (False, response, sv)
         else
           let k = k\<lparr>dt_response := Some response\<rparr>;
               sv = set_task (sv\<lparr>hs_held := omap_put (hs_held sv) handle t\<rparr>) t k;
               h = rs_head response; code = sl_status_code (rs_line response);
               (go, sv) =
                 (if code = HTTP_STATUS_OK
                  then let rg = (dt_total k)\<lparr>use_start_endpoint := True, use_end_endpoint := True,
                             rg_total := of_int (get_head_int64 (env_platform E) h HTTP_LEN 0)\<rparr>;
                           (go, sv) = on_download_status_change E
                             (set_task sv t (k\<lparr>dt_total := rg, dt_error := HNW_HTTP_NOT_SUPPORT_RANGE\<rparr>)) handle t
                       in (go, if go then set_task_error sv t HNW_BASE_OK else sv)
                  else if code = HTTP_STATUS_PARTIAL
                  then (True, set_task sv t (k\<lparr>dt_total := snd (get_content_range (env_platform E) h (dt_total k))\<rparr>))
                  else (True, sv))
           in if \<not> go then (False, response, sv)
              else
                let k = get_task sv t;
                    (ret, w, res) = recv_file_response (env_platform E) (env_host E) (hs_world sv)
                      (dt_response k) (dt_output k) (dt_fflag k);
                    sv = set_task (sv\<lparr>hs_world := w\<rparr>) t (k\<lparr>dt_response := res\<rparr>);
                    sv = (if ret \<noteq> HNW_BASE_OK
                          then snd (on_download_status_change E (set_task_error sv t ret) handle t) else sv)
                in (True, (case res of None \<Rightarrow> response | Some s \<Rightarrow> s), sv))"

definition download_cb ::
  "('u, 'w) env \<Rightarrow> nat \<Rightarrow> int \<Rightarrow> http_event \<Rightarrow> ('u, 'w) http_service \<Rightarrow> http_event \<times> ('u, 'w) http_service" where
  "download_cb E t handle ev sv =
     (let (go, ev, sv) =
        (case ev of
           BaseEvent EvConnectEstablish \<Rightarrow>
             let k = get_task sv t;
                 (ret, sv) = range_request E sv handle HTTP_METHOD_GET (get_path_for_url (dt_url k)) (dt_total k)
             in (True, ev, set_task_error sv t ret)
         | RecvResponseHead response \<Rightarrow>
             let (go, s, sv) = download_head E t handle response sv in (go, RecvResponseHead s, sv)
         | BaseEvent (EvError code) \<Rightarrow>
             (True, ev, snd (on_download_status_change E (set_task_error sv t code) handle t))
         | _ \<Rightarrow> (True, ev, sv))
      in (ev, if go then snd (on_download_status_change E sv handle t) else sv))"

subsection \<open>The ranges of the connections\<close>

definition range_bytes :: "HttpRange \<Rightarrow> nat set" where
  "range_bytes rg = {unat (section_start rg) .. unat (section_end rg)}"

lemma sub_ranges_eq:
  "sub_ranges whole s q n =
     map (\<lambda>i. sub_range whole (s + of_nat i * (q + 1)) q) [0..<n] @ [last_range whole (s + of_nat n * (q + 1))]"
proof (induction n arbitrary: s)
  case 0
  then show ?case by simp
next
  case (Suc n)
  have step: "s + q + 1 + of_nat i * (q + 1) = s + of_nat (Suc i) * (q + 1)" for i :: nat
    by (simp add: algebra_simps)
  have "sub_ranges whole s q (Suc n) = sub_range whole s q # sub_ranges whole (s + q + 1) q n"
    by (simp add: sub_range_def)
  also have "\<dots> = sub_range whole (s + of_nat 0 * (q + 1)) q #
      map (\<lambda>i. sub_range whole (s + of_nat (Suc i) * (q + 1)) q) [0..<n] @
      [last_range whole (s + of_nat (Suc n) * (q + 1))]"
    unfolding Suc.IH step by simp
  also have "\<dots> = map (\<lambda>i. sub_range whole (s + of_nat i * (q + 1)) q) [0..<Suc n] @
      [last_range whole (s + of_nat (Suc n) * (q + 1))]"
    by (simp only: map_upt_Suc append.simps)
  finally show ?case .
qed

lemma blocks_cover: "(\<Union>i<n. {a + i * Suc q .. a + i * Suc q + q}) = {a..<a + n * Suc q}" for a n q :: nat
proof (induction n)
  case 0
  then show ?case by simp
next
  case (Suc n)
  have "{a..<a + Suc n * Suc q} = {a..<a + n * Suc q} \<union> {a + n * Suc q .. a + n * Suc q + q}" by auto
  with Suc show ?case by (simp add: lessThan_Suc Un_commute)
qed

text \<open>Where the connections start and end, without wrap-around.\<close>

lemma sub_ranges_at:
  fixes s q T :: u64
  assumes "i * Suc (unat q) + unat s + unat q < 2 ^ 64"
  shows "unat (s + of_nat i * (q + 1)) = unat s + i * Suc (unat q)"
    and "unat (s + of_nat i * (q + 1) + q) = unat s + i * Suc (unat q) + unat q"
proof -
  have "s + of_nat i * (q + 1) = of_nat (unat s + i * Suc (unat q))"
    and "s + of_nat i * (q + 1) + q = of_nat (unat s + i * Suc (unat q) + unat q)"
    by (simp_all add: algebra_simps)
  then show "unat (s + of_nat i * (q + 1)) = unat s + i * Suc (unat q)"
    and "unat (s + of_nat i * (q + 1) + q) = unat s + i * Suc (unat q) + unat q"
    using assms unat_of_nat_u64 [of "unat s + i * Suc (unat q)"]
      unat_of_nat_u64 [of "unat s + i * Suc (unat q) + unat q"]
    by (simp_all only:) simp_all
qed

text \<open>
  C16: A download in \<open>Suc n\<close> connections asks for consecutive ranges, the last one open-ended. Each of
  the others has one byte more than the share the code computes, so the ranges cut what is left of
  the resource into disjoint pieces exactly when \<open>n\<close> times that still leaves something; with many
  connections for few bytes the last one starts at the end of the resource or behind it. What
  end of the range the caller asked for plays no role.
\<close>

theorem download_ranges:
  assumes "section_start whole < rg_total whole" and "q = section_size whole div of_nat (Suc n)"
    and "unat (section_size whole) \<le> unat (rg_total whole) - unat (section_start whole)"
    and "unat (rg_total whole) + n < 2 ^ 64 - 1"
    and "rgs = sub_ranges whole (section_start whole) q n"
    and "room = unat (rg_total whole) - unat (section_start whole)"
  shows "length rgs = Suc n \<and>
    (n * Suc (unat q) < room \<longrightarrow>
       (\<Union>r \<in> set rgs. range_bytes r) = {unat (section_start whole)..<unat (rg_total whole)} \<and>
       sorted_wrt (\<lambda>a b. section_end a < section_start b) rgs) \<and>
    (room \<le> n * Suc (unat q) \<longrightarrow> rg_total whole \<le> section_start (last rgs))"
proof -
  let ?s = "section_start whole" and ?T = "rg_total whole"
  define S Q T where "S = unat ?s" and "Q = unat q" and "T = unat ?T"
  have un: "unat (of_nat (Suc n) :: u64) = Suc n" by (rule unat_of_nat_u64) (use assms(4) in simp)
  have "Suc n * Q \<le> unat (section_size whole)"
    unfolding Q_def assms(2) unat_div un by (rule times_div_less_eq_dividend)
  then have Q: "n * Q + Q \<le> T - S" using assms(3) by (simp add: S_def T_def)
  have ST: "S < T" using assms(1) by (simp add: S_def T_def word_less_nat_alt)
  have fit: "i * Suc Q + S + Q < 2 ^ 64" if "i \<le> n" for i
  proof -
    have "i * Q \<le> n * Q" using that by (rule mult_le_mono1)
    moreover have "i * Suc Q = i + i * Q" by simp
    ultimately have "i * Suc Q + S + Q \<le> T + n" using Q ST that by linarith
    then show ?thesis using assms(4) by (simp add: T_def)
  qed
  have lo: "unat (?s + of_nat i * (q + 1)) = S + i * Suc Q" if "i \<le> n" for i
    using sub_ranges_at(1) [of i q ?s] fit [OF that] by (simp add: S_def Q_def)
  have hi: "unat (?s + of_nat i * (q + 1) + q) = S + i * Suc Q + Q" if "i \<le> n" for i
    using sub_ranges_at(2) [of i q ?s] fit [OF that] by (simp add: S_def Q_def)
  have T1: "unat (?T - 1) = T - 1"
    using ST by (subst unat_sub) (auto simp: T_def word_le_nat_alt)
  have ends: "section_start (sub_range whole x q) = x" "section_end (sub_range whole x q) = x + q"
    "section_start (last_range whole x) = x" "section_end (last_range whole x) = ?T - 1" for x
    by (simp_all add: section_start_def section_end_def sub_range_def last_range_def)
  note rgs = assms(5) [unfolded sub_ranges_eq]
  have "(\<Union>r \<in> set rgs. range_bytes r) = {S..<T} \<and> sorted_wrt (\<lambda>a b. section_end a < section_start b) rgs"
    if room: "n * Suc Q < T - S"
  proof
    have "(\<Union>r \<in> set rgs. range_bytes r) =
        (\<Union>i<n. {S + i * Suc Q .. S + i * Suc Q + Q}) \<union> {S + n * Suc Q .. T - 1}"
      unfolding rgs by (auto simp: range_bytes_def ends lo hi T1)
    also have "\<dots> = {S..<T}" unfolding blocks_cover using room by auto
    finally show "(\<Union>r \<in> set rgs. range_bytes r) = {S..<T}" .
    show "sorted_wrt (\<lambda>a b. section_end a < section_start b) rgs"
      unfolding rgs sorted_wrt_append sorted_wrt_map
    proof (intro conjI)
      have "j < n \<Longrightarrow> i < j \<Longrightarrow> S + i * Suc Q + Q < S + j * Suc Q" for i j
        using mult_le_mono1 [of "Suc i" j "Suc Q"] by simp
      then show "sorted_wrt (\<lambda>i j. section_end (sub_range whole (?s + of_nat i * (q + 1)) q)
            < section_start (sub_range whole (?s + of_nat j * (q + 1)) q)) [0..<n]"
        by (auto simp: sorted_wrt_iff_nth_less ends word_less_nat_alt lo hi)
      have "i < n \<Longrightarrow> S + i * Suc Q + Q < S + n * Suc Q" for i
        using mult_le_mono1 [of "Suc i" n "Suc Q"] by simp
      then show "\<forall>x \<in> set (map (\<lambda>i. sub_range whole (?s + of_nat i * (q + 1)) q) [0..<n]).
          \<forall>y \<in> set [last_range whole (?s + of_nat n * (q + 1))]. section_end x < section_start y"
        by (auto simp: ends word_less_nat_alt lo hi)
    qed simp
  qed
  moreover have "?T \<le> section_start (last rgs)" if "T - S \<le> n * Suc Q"
    using that by (simp add: rgs ends word_le_nat_alt lo T_def)
  ultimately show ?thesis using assms(6) by (simp add: rgs S_def Q_def T_def)
qed

theorem download_ranges_witness:
  "let whole = HttpRange_default\<lparr>rg_total := 10\<rparr> in
     (\<Union>r \<in> set (sub_ranges whole 0 3 2). range_bytes r) = {0..<10} \<and>
     rg_total whole \<le> section_start (last (sub_ranges whole 0 1 5))"
proof -
  let ?w = "HttpRange_default\<lparr>rg_total := 10\<rparr>"
  have s: "section_start ?w = 0" "section_size ?w = 10" by (simp_all add: section_start_def section_size_def HttpRange_default_def)
  have "(\<Union>r \<in> set (sub_ranges ?w 0 3 2). range_bytes r) = {0..<10}"
    using download_ranges [of ?w "3" 2] by (simp add: s)
  moreover have "rg_total ?w \<le> section_start (last (sub_ranges ?w 0 1 5))"
    using download_ranges [of ?w "1" 5] by (simp add: s)
  ultimately show ?thesis by simp
qed

subsection \<open>No download succeeds\<close>

text \<open>An existing file opened without a flag that creates it: all of it, for reading.\<close>

lemma file_generate_open:
  assumes "file_is_exist H w path" and "file_size H w path \<noteq> 0" and "file_mapping H w path False"
    and "use_start_endpoint rg" and "use_end_endpoint rg"
  shows "file_generate H w path rg HTTP_FILE_FLAG_OPEN =
    (Some \<lparr>fb_name = path, fb_size = file_size H w path, fb_flag = HTTP_FILE_FLAG_OPEN,
       fb_range = rg\<lparr>rg_total := file_size H w path, rg_start := 0, rg_end := file_size H w path - 1\<rparr>\<rparr>, w)"
proof -
  have "file_size H w path - 1 < file_size H w path"
    using assms(2) by (simp add: word_less_nat_alt unat_minus_one word_neq_0_conv)
  moreover have "0 < file_size H w path" using assms(2) by (simp add: word_neq_0_conv)
  ultimately show ?thesis
    using assms by (simp add: file_generate_def file_init_def file_init_open_def file_init_range_def FileBody_new_def
        has_flag_def HTTP_FILE_FLAG_OPEN_def Let_def)
qed

text \<open>A task that has an error is over once the application has been told.\<close>

lemma close_removes: "get_channel (hs_base (snd (HnwBase_Close E sv h))) h = None"
  by (auto simp: HnwBase_Close_def service_close_def log_chan_def get_channel_del Let_def
      split: option.splits prod.splits)

lemma refused_task_ends:
  assumes "get_task sv t = k" and "dt_error k = e" and "e \<noteq> HNW_BASE_OK" and "handle \<noteq> HNW_INVALID_HANDLE"
    and "on_download_status_change E sv handle t = (go, sv')"
  shows "\<not> go \<and>
    (case dt_cb k of
       None \<Rightarrow> sv' = sv
     | Some u \<Rightarrow>
         let (ret, sv1) = app_download E u (dt_url k) (dt_output k) (dt_total k) (task_pos k) e sv
         in sv' = snd (HnwBase_Close E (snd (HnwBase_SetEvntCB sv1 handle None)) handle) \<and>
            get_channel (hs_base sv') handle = None)"
  using assms close_removes
  by (auto simp: on_download_status_change_def Let_def split: option.splits prod.splits)

text \<open>
  C17: No download gets its data. When the server answers with the whole resource (200), the
  application is told that ranges are not supported, and whatever it answers the event callback of the
  channel is cleared and the channel closed; a task without a callback tells nobody and its channel stays as
  it is, with no file to receive into. Any other
  answer that has a Content-Length is to be received into the file, which the code
  opens with HTTP_FILE_FLAG_OPEN: the body covers the whole file from its first byte, not the range
  of this connection, and takes no bytes, so that the parser never returns from the first of them.
\<close>

theorem download_never_succeeds:
  assumes "dt_response (get_task sv t) = None" and "dt_fflag (get_task sv t) = HTTP_FILE_FLAG_OPEN"
    and "0 \<le> get_head_int64 (env_platform E) (rs_head response) HTTP_LEN (-1)"
    and "file_is_exist (env_host E) (hs_world sv) (dt_output (get_task sv t))"
    and "file_size (env_host E) (hs_world sv) (dt_output (get_task sv t)) = n" and "n \<noteq> 0"
    and "file_mapping (env_host E) (hs_world sv) (dt_output (get_task sv t)) False"
  shows "(sl_status_code (rs_line response) = HTTP_STATUS_OK \<and> handle \<noteq> HNW_INVALID_HANDLE \<longrightarrow>
      (\<exists>sv0 k sv'. download_head E t handle response sv = (False, response, sv') \<and>
        get_task sv0 t = k \<and> hs_base sv0 = hs_base sv \<and> hs_world sv0 = hs_world sv \<and>
        k = (get_task sv t)\<lparr>dt_response := Some response,
          dt_total := (dt_total (get_task sv t))\<lparr>use_start_endpoint := True, use_end_endpoint := True,
            rg_total := of_int (get_head_int64 (env_platform E) (rs_head response) HTTP_LEN 0)\<rparr>,
          dt_error := HNW_HTTP_NOT_SUPPORT_RANGE\<rparr> \<and>
        (case dt_cb k of
           None \<Rightarrow> sv' = sv0
         | Some u \<Rightarrow>
             let (ret, sv1) = app_download E u (dt_url k) (dt_output k) (dt_total k) (task_pos k)
               HNW_HTTP_NOT_SUPPORT_RANGE sv0
             in sv' = snd (HnwBase_Close E (snd (HnwBase_SetEvntCB sv1 handle None)) handle) \<and>
                get_channel (hs_base sv') handle = None))) \<and>
    (sl_status_code (rs_line response) \<noteq> HTTP_STATUS_OK \<longrightarrow>
      (\<exists>f sv'. download_head E t handle response sv = (True, response\<lparr>rs_body := Some (file_body_of f)\<rparr>, sv') \<and>
        section_start (fb_range f) = 0 \<and> section_end (fb_range f) = n - 1 \<and>
        (\<forall>hcb w cache x. x \<noteq> [] \<longrightarrow> input_data (resp_step (env_platform E) H hcb)
           \<lparr>parser_status = BODY, parser_cache1 = cache, parser_tmp = response\<lparr>rs_body := Some (file_body_of f)\<rparr>\<rparr>
           w x = None)))"
proof (intro conjI impI)
  assume "sl_status_code (rs_line response) = HTTP_STATUS_OK \<and> handle \<noteq> HNW_INVALID_HANDLE"
  then have ok: "sl_status_code (rs_line response) = HTTP_STATUS_OK" and handle: "handle \<noteq> HNW_INVALID_HANDLE"
    by simp_all
  let ?k = "get_task sv t"
  let ?rg = "(dt_total ?k)\<lparr>use_start_endpoint := True, use_end_endpoint := True,
    rg_total := of_int (get_head_int64 (env_platform E) (rs_head response) HTTP_LEN 0)\<rparr>"
  let ?k1 = "?k\<lparr>dt_response := Some response\<rparr>"
  let ?k2 = "?k1\<lparr>dt_total := ?rg, dt_error := HNW_HTTP_NOT_SUPPORT_RANGE\<rparr>"
  let ?sv0 = "set_task (set_task (sv\<lparr>hs_held := omap_put (hs_held sv) handle t\<rparr>) t ?k1) t ?k2"
  obtain go sv' where c: "on_download_status_change E ?sv0 handle t = (go, sv')"
    by (cases "on_download_status_change E ?sv0 handle t")
  have g: "get_task ?sv0 t = ?k2" by (simp add: get_task_def set_task_def omap_get_put)
  have e: "dt_error ?k2 = HNW_HTTP_NOT_SUPPORT_RANGE" by simp
  have stop: "\<not> go" by (rule refused_task_ends [OF g e _ handle c, THEN conjunct1]) simp
  have d: "download_head E t handle response sv = (False, response, sv')"
    using ok assms(1) c stop by (simp add: download_head_def Let_def)
  show "\<exists>sv0 k sv'. download_head E t handle response sv = (False, response, sv') \<and>
        get_task sv0 t = k \<and> hs_base sv0 = hs_base sv \<and> hs_world sv0 = hs_world sv \<and>
        k = ?k2 \<and>
        (case dt_cb k of
           None \<Rightarrow> sv' = sv0
         | Some u \<Rightarrow>
             let (ret, sv1) = app_download E u (dt_url k) (dt_output k) (dt_total k) (task_pos k)
               HNW_HTTP_NOT_SUPPORT_RANGE sv0
             in sv' = snd (HnwBase_Close E (snd (HnwBase_SetEvntCB sv1 handle None)) handle) \<and>
                get_channel (hs_base sv') handle = None)"
  proof (rule exI [of _ ?sv0], rule exI [of _ ?k2], rule exI [of _ sv'], intro conjI)
    have "HNW_HTTP_NOT_SUPPORT_RANGE \<noteq> HNW_BASE_OK" by simp
    from refused_task_ends [OF g e this handle c, THEN conjunct2]
    show "case dt_cb ?k2 of
           None \<Rightarrow> sv' = ?sv0
         | Some u \<Rightarrow>
             let (ret, sv1) = app_download E u (dt_url ?k2) (dt_output ?k2) (dt_total ?k2) (task_pos ?k2)
               HNW_HTTP_NOT_SUPPORT_RANGE ?sv0
             in sv' = snd (HnwBase_Close E (snd (HnwBase_SetEvntCB sv1 handle None)) handle) \<and>
                get_channel (hs_base sv') handle = None" .
  qed (rule d g refl | simp add: set_task_def)+
next
  assume nok: "sl_status_code (rs_line response) \<noteq> HTTP_STATUS_OK"
  let ?k = "get_task sv t"
  define f where "f = \<lparr>fb_name = dt_output ?k, fb_size = n, fb_flag = HTTP_FILE_FLAG_OPEN,
    fb_range = HttpRange_default\<lparr>rg_total := n, rg_start := 0, rg_end := n - 1\<rparr>\<rparr>"
  have gen: "file_generate (env_host E) (hs_world sv) (dt_output ?k) (HttpRange_default\<lparr>rg_total := m\<rparr>)
      HTTP_FILE_FLAG_OPEN = (Some f, hs_world sv)" for m
    using assms(4-7) by (subst file_generate_open) (simp_all add: HttpRange_default_def f_def)
  then have recv: "recv_file_response (env_platform E) (env_host E) (hs_world sv) (Some response)
      (dt_output ?k) HTTP_FILE_FLAG_OPEN = (HNW_BASE_OK, hs_world sv, Some (response\<lparr>rs_body := Some (file_body_of f)\<rparr>))"
    using assms(3) by (simp add: recv_file_response_def Let_def)
  have "\<exists>sv'. download_head E t handle response sv = (True, response\<lparr>rs_body := Some (file_body_of f)\<rparr>, sv')"
    using nok assms(1,2) recv
    by (simp add: download_head_def get_task_def set_task_def omap_get_put Let_def split: option.splits)
  moreover have "file_body_size f \<noteq> 0"
    using assms(6) by (simp add: file_body_size_def f_def)
  then have "x \<noteq> [] \<Longrightarrow> input_data (resp_step (env_platform E) H hcb)
      \<lparr>parser_status = BODY, parser_cache1 = cache, parser_tmp = response\<lparr>rs_body := Some (file_body_of f)\<rparr>\<rparr> w x = None"
    for hcb w cache x
    by (intro resp_parser_hangs [THEN conjunct2])
      (simp_all add: has_flag_def f_def HTTP_FILE_FLAG_OPEN_def)
  moreover have "section_start (fb_range f) = 0" "section_end (fb_range f) = n - 1"
    by (simp_all add: f_def section_start_def section_end_def HttpRange_default_def)
  ultimately show "\<exists>f sv'. download_head E t handle response sv =
        (True, response\<lparr>rs_body := Some (file_body_of f)\<rparr>, sv') \<and>
      section_start (fb_range f) = 0 \<and> section_end (fb_range f) = n - 1 \<and>
      (\<forall>hcb w cache x. x \<noteq> [] \<longrightarrow> input_data (resp_step (env_platform E) H hcb)
         \<lparr>parser_status = BODY, parser_cache1 = cache, parser_tmp = response\<lparr>rs_body := Some (file_body_of f)\<rparr>\<rparr>
         w x = None)"
    by blast
qed
theorem download_never_succeeds_witness:
  "\<exists>f sv'. download_head silent_env 0 7
      (HttpResponse_new\<lparr>rs_line := status_code ResponseLine_default ''206'', rs_head := [(''Content-Length'', ''2'')]\<rparr>)
      ((HttpService_new ())\<lparr>hs_tasks := [(0, DownloadTask_new\<lparr>dt_output := ''a.txt'', dt_fflag := HTTP_FILE_FLAG_OPEN\<rparr>)]\<rparr>) =
    (True, HttpResponse_new\<lparr>rs_line := status_code ResponseLine_default ''206'', rs_head := [(''Content-Length'', ''2'')],
       rs_body := Some (file_body_of f)\<rparr>, sv') \<and> section_end (fb_range f) = 4"
proof -
  let ?r = "HttpResponse_new\<lparr>rs_line := status_code ResponseLine_default ''206'', rs_head := [(''Content-Length'', ''2'')]\<rparr>"
  let ?s = "(HttpService_new ())\<lparr>hs_tasks := [(0, DownloadTask_new\<lparr>dt_output := ''a.txt'', dt_fflag := HTTP_FILE_FLAG_OPEN\<rparr>)]\<rparr>
    :: (nat, unit) http_service"
  have k: "dt_response (get_task ?s 0) = None" "dt_fflag (get_task ?s 0) = HTTP_FILE_FLAG_OPEN"
    "dt_output (get_task ?s 0) = ''a.txt''"
    by (simp_all add: get_task_def omap_get_def DownloadTask_new_def)
  have l: "0 \<le> get_head_int64 (env_platform silent_env) (rs_head ?r) HTTP_LEN (-1)" by code_simp
  have h: "file_is_exist (env_host silent_env) (hs_world ?s) (dt_output (get_task ?s 0))"
    "file_size (env_host silent_env) (hs_world ?s) (dt_output (get_task ?s 0)) = 5"
    "file_mapping (env_host silent_env) (hs_world ?s) (dt_output (get_task ?s 0)) False"
    by (simp_all only: k) (simp_all add: silent_env_def host1_def)
  have c: "sl_status_code (rs_line ?r) \<noteq> HTTP_STATUS_OK"
    by (simp add: status_code_def HTTP_STATUS_OK_def)
  from download_never_succeeds [where H = host1 and handle = 7, OF k(1,2) l h(1,2) _ h(3), THEN conjunct2,
      THEN mp, OF _ c]
  have "\<exists>f sv'. download_head silent_env 0 7 ?r ?s = (True, ?r\<lparr>rs_body := Some (file_body_of f)\<rparr>, sv') \<and>
      section_end (fb_range f) = 5 - 1"
    by fastforce
  then show ?thesis by simp
qed
end
