(* ===== verification/Http_Dispatch.thy ===== *)
theory Http_Dispatch
  imports Http_Download
begin

section \<open>Events of the HTTP service\<close>

text \<open>
  \<open>Service::event_cb\<close> of \<^verbatim>\<open>Src/http/service/http_service.hpp\<close> and what hangs together through
  it: the base library's events, the sessions, their parsers, whose events come back through the
  same function, and the callbacks behind them. The parser runs with the whole service as its
  world, so a callback that runs in the middle of the input sees the state as it is then.
\<close>

definition call_event_cb ::
  "('u, 'w) env \<Rightarrow> 'u event_callback option \<Rightarrow> int \<Rightarrow> http_event \<Rightarrow> ('u, 'w) http_service \<Rightarrow>
     http_event \<times> ('u, 'w) http_service" where
  "call_event_cb E cb handle ev sv =
     (case cb of
        None \<Rightarrow> (ev, sv)
      | Some (UserEvent u) \<Rightarrow> app_event E u handle ev sv
      | Some (DownloadCb t) \<Rightarrow> download_cb E t handle ev sv
      | Some (ResourceStatusCb status scb) \<Rightarrow> (ev, resource_status_cb E status scb handle ev sv)
      | Some (OnRequestOnce u method path body ext_head) \<Rightarrow>
          (ev, on_request_once E u method path body ext_head handle ev sv))"

definition session_established ::
  "('u, 'w) env \<Rightarrow> int \<Rightarrow> ('u, 'w) http_service \<Rightarrow> ('u, 'w) http_service" where
  "session_established E handle sv =
     (case get_session sv handle of
        None \<Rightarrow> sv
      | Some se \<Rightarrow> snd (session_call E sv handle se (\<lambda>ret. (ret, on_connect_establish ret se))))"

text \<open>\<open>recv\<close> is \<open>Session::recv_data\<close>, which only the base library's events reach.\<close>

definition event_cb_with ::
  "(int \<Rightarrow> string \<Rightarrow> ('u, 'w) http_service \<Rightarrow> ('u, 'w) http_service) \<Rightarrow> ('u, 'w) env \<Rightarrow>
     'u event_callback option \<Rightarrow> int \<Rightarrow> http_event \<Rightarrow> ('u, 'w) http_service \<Rightarrow>
     http_event \<times> ('u, 'w) http_service" where
  "event_cb_with recv E cb handle ev sv =
     (case get_session sv handle of
        None \<Rightarrow> (ev, del_session (snd (HnwBase_Close E sv handle)) handle)
      | Some _ \<Rightarrow>
          let sv = (case ev of
                BaseEvent (EvRecvData data) \<Rightarrow> recv handle data sv
              | BaseEvent (EvAccept client) \<Rightarrow>
                  (let (ok, sv) = add_session E sv client Server cb
                   in if ok then session_established E client sv else snd (HnwBase_Close E sv handle))
              | BaseEvent EvConnectEstablish \<Rightarrow> session_established E handle sv
              | BaseEvent EvClosed \<Rightarrow> del_session (update_session sv handle on_disconnect) handle
              | _ \<Rightarrow> sv)
          in call_event_cb E cb handle ev sv)"

text \<open>What a parser's events reach: there is no data in them.\<close>

definition parser_event_cb ::
  "('u, 'w) env \<Rightarrow> 'u event_callback option \<Rightarrow> int \<Rightarrow> http_event \<Rightarrow> ('u, 'w) http_service \<Rightarrow>
     http_event \<times> ('u, 'w) http_service" where
  "parser_event_cb = event_cb_with (\<lambda>_ _ sv. sv)"

subsection \<open>The parser in the service\<close>

definition lift_host :: "'w host \<Rightarrow> ('u, 'w) http_service host" where
  "lift_host H = \<lparr>
     file_is_exist = \<lambda>sv. file_is_exist H (hs_world sv),
     file_size = \<lambda>sv. file_size H (hs_world sv),
     create_null_file = \<lambda>sv n s. (let (ok, w) = create_null_file H (hs_world sv) n s in (ok, sv\<lparr>hs_world := w\<rparr>)),
     remove_file = \<lambda>sv n. sv\<lparr>hs_world := remove_file H (hs_world sv) n\<rparr>,
     file_mapping = \<lambda>sv. file_mapping H (hs_world sv),
     region_read = \<lambda>sv. region_read H (hs_world sv),
     region_write = \<lambda>sv n p d. sv\<lparr>hs_world := region_write H (hs_world sv) n p d\<rparr>,
     file_output = \<lambda>sv n d. map_option (\<lambda>w. sv\<lparr>hs_world := w\<rparr>) (file_output H (hs_world sv) n d),
     host_rand = \<lambda>sv. (let (r, w) = host_rand H (hs_world sv) in (r, sv\<lparr>hs_world := w\<rparr>))\<rparr>"

definition response_head_cb ::
  "('u, 'w) env \<Rightarrow> 'u event_callback option \<Rightarrow> int \<Rightarrow> HttpResponse \<Rightarrow> ('u, 'w) http_service \<Rightarrow>
     HttpResponse \<times> ('u, 'w) http_service" where
  "response_head_cb E cb handle m sv =
     (case parser_event_cb E cb handle (RecvResponseHead m) sv of
        (RecvResponseHead m', sv) \<Rightarrow> (m', sv)
      | (_, sv) \<Rightarrow> (m, sv))"

definition request_head_cb ::
  "('u, 'w) env \<Rightarrow> 'u event_callback option \<Rightarrow> int \<Rightarrow> HttpRequest \<Rightarrow> ('u, 'w) http_service \<Rightarrow>
     HttpRequest \<times> ('u, 'w) http_service" where
  "request_head_cb E cb handle m sv =
     (case parser_event_cb E cb handle (RecvRequestHead m) sv of
        (RecvRequestHead m', sv) \<Rightarrow> (m', sv)
      | (_, sv) \<Rightarrow> (m, sv))"

text \<open>A task that holds the parser's message sees what the parser has made of it.\<close>

definition sync_held ::
  "int \<Rightarrow> HttpResponse \<Rightarrow> ('u, 'w) http_service \<Rightarrow> ('u, 'w) http_service" where
  "sync_held handle m sv =
     (case omap_get (hs_held sv) handle of
        None \<Rightarrow> sv
      | Some t \<Rightarrow> set_task sv t ((get_task sv t)\<lparr>dt_response := Some m\<rparr>))"

definition response_event ::
  "('u, 'w) env \<Rightarrow> 'u event_callback option \<Rightarrow> int \<Rightarrow> resp_event \<Rightarrow> ('u, 'w) http_service \<Rightarrow> ('u, 'w) http_service" where
  "response_event E cb handle e sv =
     (case e of
        RecvHead _ \<Rightarrow> sv
      | RecvMessage m \<Rightarrow>
          (let sv = sync_held handle m sv
           in snd (parser_event_cb E cb handle (RecvResponse m) (sv\<lparr>hs_held := omap_del (hs_held sv) handle\<rparr>)))
      | ParserError err \<Rightarrow> snd (parser_event_cb E cb handle (BaseEvent (EvError err)) sv))"

definition request_event ::
  "('u, 'w) env \<Rightarrow> 'u event_callback option \<Rightarrow> int \<Rightarrow> req_event \<Rightarrow> ('u, 'w) http_service \<Rightarrow> ('u, 'w) http_service" where
  "request_event E cb handle e sv =
     (case e of
        RecvHead _ \<Rightarrow> sv
      | RecvMessage m \<Rightarrow> snd (parser_event_cb E cb handle (RecvRequest m) sv)
      | ParserError err \<Rightarrow> snd (parser_event_cb E cb handle (BaseEvent (EvError err)) sv))"

text \<open>
  One callback of the parser with the events it raises delivered: that of a header in its midst,
  those of a whole message and of an error at its end.
\<close>

definition response_step ::
  "('u, 'w) env \<Rightarrow> 'u event_callback option \<Rightarrow> int \<Rightarrow>
     (resp_parser, ('u, 'w) http_service, resp_event) parser_cb" where
  "response_step E cb handle st sv input =
     (case resp_step (env_platform E) (lift_host (env_host E)) (response_head_cb E cb handle) st sv input of
        None \<Rightarrow> None
      | Some (ret, rest, st, sv, ev) \<Rightarrow>
          let sv = (if \<exists>e \<in> set ev. (case e of RecvMessage _ \<Rightarrow> True | _ \<Rightarrow> False) then sv
                    else sync_held handle (parser_tmp st) sv)
          in Some (ret, rest, st, fold (response_event E cb handle) ev sv, ev))"

definition request_step ::
  "('u, 'w) env \<Rightarrow> 'u event_callback option \<Rightarrow> int \<Rightarrow>
     (req_parser, ('u, 'w) http_service, req_event) parser_cb" where
  "request_step E cb handle st sv input =
     (case req_step (env_platform E) (lift_host (env_host E)) (request_head_cb E cb handle) st sv input of
        None \<Rightarrow> None
      | Some (ret, rest, st, sv, ev) \<Rightarrow>
          Some (ret, rest, st, fold (request_event E cb handle) ev sv, ev))"

text \<open>
  The parser belongs to the session object the input went to; a session that a callback has put
  in its place under the same handle keeps its own when it is of another kind.
\<close>

definition set_parser :: "recv_parser \<Rightarrow> session \<Rightarrow> session" where
  "set_parser p se =
     (case (p, recv_parser se) of
        (ReqParser _, ReqParser _) \<Rightarrow> se\<lparr>recv_parser := p\<rparr>
      | (RespParser _, RespParser _) \<Rightarrow> se\<lparr>recv_parser := p\<rparr>
      | _ \<Rightarrow> se)"

definition session_recv ::
  "('u, 'w) env \<Rightarrow> int \<Rightarrow> string \<Rightarrow> ('u, 'w) http_service \<Rightarrow> ('u, 'w) http_service" where
  "session_recv E handle data sv =
     (case get_session sv handle of
        None \<Rightarrow> sv
      | Some se \<Rightarrow>
          (case recv_parser se of
             NoParser \<Rightarrow> sv
           | ReqParser p \<Rightarrow>
               (case input_data (request_step E (session_cb sv handle) handle) p sv data of
                  None \<Rightarrow> hs_fail Undefined sv
                | Some (_, p, sv, _) \<Rightarrow> update_session sv handle (set_parser (ReqParser p)))
           | RespParser p \<Rightarrow>
               (case input_data (response_step E (session_cb sv handle) handle) p sv data of
                  None \<Rightarrow> hs_fail Undefined sv
                | Some (_, p, sv, _) \<Rightarrow> update_session sv handle (set_parser (RespParser p)))))"

definition event_cb ::
  "('u, 'w) env \<Rightarrow> 'u event_callback option \<Rightarrow> int \<Rightarrow> http_event \<Rightarrow> ('u, 'w) http_service \<Rightarrow>
     http_event \<times> ('u, 'w) http_service" where
  "event_cb E = event_cb_with (session_recv E) E"

end
