(* ===== verification/Http_Interface.thy ===== *)
theory Http_Interface
  imports Http_Dispatch
begin

section \<open>The C interface of the HTTP library\<close>

text \<open>
  The functions of \<^verbatim>\<open>Src/http/hnw_http.cpp\<close> that pass their arguments on to the service, to the
  base library or to the utilities. Those that reach a session or make a message stand in
  \<open>Http_Service\<close>.
\<close>

definition HnwHttp_Start ::
  "('u, 'w) env \<Rightarrow> ('u, 'w) http_service \<Rightarrow> HttpParam \<Rightarrow> 'u event_callback option \<Rightarrow> int \<Rightarrow>
     err_code \<times> int \<times> ('u, 'w) http_service" where
  "HnwHttp_Start E sv param cb handle = http_start E sv param cb handle"

definition HnwHttp_Close ::
  "('u, 'w) env \<Rightarrow> ('u, 'w) http_service \<Rightarrow> int \<Rightarrow> err_code \<times> ('u, 'w) http_service" where
  "HnwHttp_Close E sv handle = HnwBase_Close E sv handle"

definition HnwHttp_Config ::
  "('u, 'w) http_service \<Rightarrow> int \<Rightarrow> config_type \<Rightarrow> u64 option \<Rightarrow> err_code \<times> ('u, 'w) http_service" where
  "HnwHttp_Config sv handle config_type data = HnwBase_Config sv handle config_type data"

definition HnwHttp_RequestGet ::
  "('u, 'w) env \<Rightarrow> ('u, 'w) http_service \<Rightarrow> string \<Rightarrow> 'u option \<Rightarrow> u64 \<Rightarrow> heads option \<Rightarrow>
     err_code \<times> ('u, 'w) http_service" where
  "HnwHttp_RequestGet E sv url cb wait_ms ext_head =
     http_request E sv ''GET'' url cb [] wait_ms ext_head"

definition HnwHttp_RequestPost ::
  "('u, 'w) env \<Rightarrow> ('u, 'w) http_service \<Rightarrow> string \<Rightarrow> string \<Rightarrow> 'u option \<Rightarrow> u64 \<Rightarrow> heads option \<Rightarrow>
     err_code \<times> ('u, 'w) http_service" where
  "HnwHttp_RequestPost E sv url body cb wait_ms ext_head =
     http_request E sv ''POST'' url cb body wait_ms ext_head"

definition HnwHttp_RawRequest ::
  "('u, 'w) env \<Rightarrow> ('u, 'w) http_service \<Rightarrow> int \<Rightarrow> string \<Rightarrow> string \<Rightarrow> string \<Rightarrow> heads option \<Rightarrow>
     err_code \<times> ('u, 'w) http_service" where
  "HnwHttp_RawRequest E sv handle method uri data ext_head = raw_request E sv handle method uri data ext_head"

definition HnwHttp_RawResponse ::
  "('u, 'w) env \<Rightarrow> ('u, 'w) http_service \<Rightarrow> int \<Rightarrow> string \<Rightarrow> string \<Rightarrow> heads option \<Rightarrow>
     err_code \<times> ('u, 'w) http_service" where
  "HnwHttp_RawResponse E sv handle code data ext_head = raw_response E sv handle code data ext_head"

definition HnwHttp_FileRequest ::
  "('u, 'w) env \<Rightarrow> ('u, 'w) http_service \<Rightarrow> int \<Rightarrow> string \<Rightarrow> string \<Rightarrow> string \<Rightarrow> heads option \<Rightarrow>
     err_code \<times> ('u, 'w) http_service" where
  "HnwHttp_FileRequest E sv handle method uri filepath ext_head =
     file_request E sv handle method uri filepath ext_head"

definition HnwHttp_FileResponse ::
  "('u, 'w) env \<Rightarrow> ('u, 'w) http_service \<Rightarrow> int \<Rightarrow> string \<Rightarrow> string \<Rightarrow> heads option \<Rightarrow>
     err_code \<times> ('u, 'w) http_service" where
  "HnwHttp_FileResponse E sv handle code filepath ext_head = file_response E sv handle code filepath ext_head"

definition HnwHttp_RecvFileRequest ::
  "platform \<Rightarrow> 'w host \<Rightarrow> 'w \<Rightarrow> HttpRequest option \<Rightarrow> string \<Rightarrow> 32 word \<Rightarrow>
     err_code \<times> 'w \<times> HttpRequest option" where
  "HnwHttp_RecvFileRequest P H w request filepath flag = recv_file_request P H w request filepath flag"

definition HnwHttp_RecvFileResponse ::
  "platform \<Rightarrow> 'w host \<Rightarrow> 'w \<Rightarrow> HttpResponse option \<Rightarrow> string \<Rightarrow> 32 word \<Rightarrow>
     err_code \<times> 'w \<times> HttpResponse option" where
  "HnwHttp_RecvFileResponse P H w response filepath flag = recv_file_response P H w response filepath flag"

definition HnwHttp_GetResourceStatus ::
  "('u, 'w) env \<Rightarrow> ('u, 'w) http_service \<Rightarrow> string \<Rightarrow> 'u status_cb option \<Rightarrow>
     err_code \<times> ('u, 'w) http_service" where
  "HnwHttp_GetResourceStatus E sv url cb = get_resource_status E sv url cb"

definition HnwHttp_DownLoad ::
  "('u, 'w) env \<Rightarrow> ('u, 'w) http_service \<Rightarrow> string \<Rightarrow> string \<Rightarrow> 'u option \<Rightarrow> u64 \<Rightarrow> HttpRange \<Rightarrow> 32 word \<Rightarrow>
     err_code \<times> ('u, 'w) http_service" where
  "HnwHttp_DownLoad E sv url output cb con_num rg file_flag = download_url E sv url output cb con_num rg file_flag"

text \<open>None: a per cent sign with nothing behind it is read past the end of the string.\<close>

definition HnwUtil_UrlDecode :: "string \<Rightarrow> string option" where
  "HnwUtil_UrlDecode src = decode_url src"

definition HnwUtil_UrlEncode :: "string \<Rightarrow> string" where
  "HnwUtil_UrlEncode src = encode_url src"

definition HnwUtil_Md5 :: "platform \<Rightarrow> string \<Rightarrow> err_code \<times> string" where
  "HnwUtil_Md5 P src =
     (let dst = md5 (md5_digest P) src in (if dst = [] then HNW_BASE_NUKNOW_ERROR else HNW_BASE_OK, dst))"

end
