(* ===== verification/File_Page.thy ===== *)
theory File_Page
  imports Http_Interface
begin

section \<open>The pages of the file server\<close>

text \<open>
  The file server \<^verbatim>\<open>Example/FileService\<close> (\<^verbatim>\<open>service.h\<close>, \<^verbatim>\<open>service.cpp\<close>), first part: the nodes of a
  directory, their sizes, the path above a path, and the HTML texts. The sources are GBK, so the
  Chinese words are given by their bytes.
\<close>

definition gbk :: "nat list \<Rightarrow> string" where
  "gbk = map char_of"

subsection \<open>Sizes in floating point\<close>

text \<open>
  \<open>round_bits p n\<close> is the nearest number with a significand of p bits, to even: the conversion of an
  integer to \<open>double\<close> (53 bits) and of a \<open>double\<close> to \<open>float\<close> (24 bits). The pair (m, k) is m divided
  by the k-th power of 2; dividing a \<open>double\<close> by such a power is exact.
\<close>

definition div_even :: "int \<Rightarrow> int \<Rightarrow> int" where
  "div_even n d =
     (let q = n div d; r = n mod d in if d < 2 * r \<or> d = 2 * r \<and> odd q then q + 1 else q)"

function bit_len :: "int \<Rightarrow> nat" where
  "bit_len n = (if n \<le> 0 then 0 else Suc (bit_len (n div 2)))"
  by pat_completeness auto
termination
  by (relation "measure nat") auto

declare bit_len.simps [simp del]

definition round_bits :: "nat \<Rightarrow> int \<Rightarrow> int" where
  "round_bits p n = (let e = bit_len n - p in div_even n (2 ^ e) * 2 ^ e)"

type_synonym dyadic = "int \<times> nat"

text \<open>\<^verbatim>\<open>%0.2f\<close>: two digits, the exact value rounded to even.\<close>

definition fmt_2f :: "dyadic \<Rightarrow> string" where
  "fmt_2f x =
     (case x of (m, k) \<Rightarrow>
        let h = div_even (100 * m) (2 ^ k)
        in show_nat (nat (h div 100)) @ ''.'' @
           [digit_char (nat (h div 10 mod 10)), digit_char (nat (h mod 10))])"

subsection \<open>Nodes\<close>

datatype FileNodeType = DIR | FILE | LINK

datatype FileSizeType = FT_B | FT_KB | FT_MB | FT_GB | FT_TB

record FileNode =
  fn_type :: FileNodeType
  fn_size_type :: FileSizeType
  fn_file_size :: dyadic
  fn_name :: string

definition FileNode_new :: FileNode where
  "FileNode_new = \<lparr>fn_type = FILE, fn_size_type = FT_B, fn_file_size = (0, 0), fn_name = []\<rparr>"

definition get_size_type :: "FileNode \<Rightarrow> string" where
  "get_size_type l =
     (case fn_size_type l of
        FT_B \<Rightarrow> ''Byte'' | FT_KB \<Rightarrow> ''KB'' | FT_MB \<Rightarrow> ''MB'' | FT_GB \<Rightarrow> ''GB'' | FT_TB \<Rightarrow> ''TB'')"

definition get_type :: "FileNode \<Rightarrow> string" where
  "get_type l =
     (case fn_type l of
        DIR \<Rightarrow> gbk [0xC4, 0xBF, 0xC2, 0xBC]
      | FILE \<Rightarrow> gbk [0xCE, 0xC4, 0xBC, 0xFE]
      | LINK \<Rightarrow> gbk [0xC1, 0xB4, 0xBD, 0xD3])"

text \<open>
  What the service asks of boost and of the system: \<open>de_size\<close> is what \<open>file_size(fe, ec)\<close> returns,
  all ones after an error.
\<close>

record dir_entry =
  de_name :: string
  de_is_directory :: bool
  de_is_symlink :: bool
  de_size :: u64

record 'w dir_host =
  is_directory :: "'w \<Rightarrow> string \<Rightarrow> bool"
  directory_iterator :: "'w \<Rightarrow> string \<Rightarrow> dir_entry list"
  ansi_to_utf8 :: "string \<Rightarrow> string"
  utf8_to_ansi :: "string \<Rightarrow> string"
  time_null :: "'w \<Rightarrow> nat"

definition KB_P :: int where "KB_P = 1024"
definition MB_P :: int where "MB_P = 1024 * KB_P"
definition GB_P :: int where "GB_P = 1024 * MB_P"

definition scaled_size :: "u64 \<Rightarrow> FileSizeType \<times> dyadic" where
  "scaled_size n =
     (let size = round_bits 53 (uint n); f = round_bits 24 size
      in if GB_P < size then (FT_GB, f, 30)
         else if MB_P < size then (FT_MB, f, 20)
         else if KB_P < size then (FT_KB, f, 10)
         else (FT_B, f, 0))"

definition file_node :: "dir_entry \<Rightarrow> FileNode" where
  "file_node fe =
     (let node = FileNode_new\<lparr>fn_name := de_name fe,
            fn_type := (if de_is_directory fe then DIR else if de_is_symlink fe then LINK else FILE)\<rparr>
      in if fn_type node = FILE
         then let (t, s) = scaled_size (de_size fe) in node\<lparr>fn_file_size := s, fn_size_type := t\<rparr>
         else node)"

definition get_file_node_list :: "'w dir_host \<Rightarrow> 'w \<Rightarrow> string \<Rightarrow> FileNode list" where
  "get_file_node_list D w dir = map file_node (directory_iterator D w dir)"

subsection \<open>The path above a path\<close>

text \<open>
  The loop of \<open>get_parent_path\<close> over \<open>i\<close>, here one above the code's, with the end \<open>p\<close> of what is
  left of the trailing slashes: the value of \<open>i\<close> after it. Its numbers have no bound;
  \<open>parent_loop_int\<close> is the loop on the code's 32-bit \<^verbatim>\<open>int\<close>s, and C29 shows that the two agree
  for paths shorter than 2 GB.
\<close>

fun parent_loop :: "string \<Rightarrow> nat \<Rightarrow> int \<Rightarrow> int" where
  "parent_loop path 0 p = - 1"
| "parent_loop path (Suc i) p =
     (if path ! i = CHR ''/''
      then if int i = p then parent_loop path i (p - 1) else int i
      else parent_loop path i p)"

lemma sint_word_of_int_32: "- (2 ^ 31) \<le> k \<Longrightarrow> k < 2 ^ 31 \<Longrightarrow> sint (word_of_int k :: 32 word) = k"
  by (simp add: sint_sbintrunc' signed_take_bit_int_eq_self)

lemma sint_minus_1_32: "0 \<le> sint (i :: 32 word) \<Longrightarrow> sint (i - 1) = sint i - 1"
proof -
  assume "0 \<le> sint i"
  moreover have "sint i < 2 ^ 31" using sint_lt [of i] by simp
  moreover have "i - 1 = word_of_int (sint i - 1)" by simp
  ultimately show ?thesis by (simp only:) (rule sint_word_of_int_32; simp)
qed

function parent_loop_int :: "string \<Rightarrow> 32 word \<Rightarrow> 32 word \<Rightarrow> 32 word" where
  "parent_loop_int path i p =
     (if sint i < 0 then i
      else if path ! nat (sint i) = CHR ''/''
      then if i = p then parent_loop_int path (i - 1) (p - 1) else i
      else parent_loop_int path (i - 1) p)"
  by pat_completeness auto
termination
  by (relation "measure (\<lambda>(path, i, p). nat (sint i + 1))") (simp_all add: sint_minus_1_32)

declare parent_loop_int.simps [simp del]

text \<open>\<open>substr(0, -1)\<close> is the whole string.\<close>

definition get_parent_path :: "string \<Rightarrow> string" where
  "get_parent_path path =
     (if path = [] \<or> path = ''/'' then ''/''
      else let i = parent_loop path (length path) (int (length path) - 1)
           in if i = 0 then ''/'' else if i < 0 then path else take (nat i) path)"

subsection \<open>The listing\<close>

definition li_size :: nat where "li_size = 1024"

text \<open>What is left of a text that \<open>snprintf\<close> writes into a buffer of n bytes.\<close>

definition snprintf :: "nat \<Rightarrow> string \<Rightarrow> string" where
  "snprintf n s = take (n - 1) s"

definition list_url :: "string \<Rightarrow> string \<Rightarrow> string" where
  "list_url ppath name =
     snprintf li_size (c_str ppath @ (if ppath \<noteq> [] \<and> last ppath = CHR ''/'' then [] else ''/'') @ c_str name)"

definition list_row :: "string \<Rightarrow> FileNode \<Rightarrow> string" where
  "list_row ppath l =
     (let url = list_url ppath (fn_name l)
      in snprintf li_size (''<li><a href='' @ dquote @ url @ dquote @ ''>'' @ c_str (fn_name l) @ '' ('' @
           get_type l @ ''['' @ fmt_2f (fn_file_size l) @ '' '' @ get_size_type l @ ''])</a> (<a href='' @
           dquote @ url @ ''?action=show'' @ dquote @ ''>TODO</a>)</li>''))"

definition parent_row :: "string \<Rightarrow> string" where
  "parent_row ppath =
     snprintf li_size (''<li><a href='' @ dquote @ c_str (get_parent_path ppath) @ dquote @ ''>..</a></li>'')"

definition list_to_html :: "'w dir_host \<Rightarrow> FileNode list \<Rightarrow> string \<Rightarrow> string" where
  "list_to_html D list ppath =
     ansi_to_utf8 D (''<html>'' @ ''<head><title> File Shared</title></head>'' @ ''<body>'' @
       (''<ul>'' @ parent_row ppath @ concat (map (list_row ppath) list) @ ''</ul>'') @
       ''</body>'' @ ''</html>'')"

subsection \<open>The other pages\<close>

definition error_html :: "'w dir_host \<Rightarrow> err_code \<Rightarrow> string \<Rightarrow> string \<Rightarrow> string" where
  "error_html D code msg path =
     ansi_to_utf8 D (''<html>'' @ ''<head><title> Http Error </title></head>'' @ ''<body>'' @
       (''<p>'' @ gbk [0xB4, 0xED, 0xCE, 0xF3, 0xC2, 0xEB] @ '':'' @ int64_to_string (err_code_int code) @ ''</p>'' @
        ''<p>'' @ gbk [0xC3, 0xE8, 0xCA, 0xF6] @ '':'' @ msg @ ''</p>'' @
        ''<p>'' @ gbk [0xB7, 0xB5, 0xBB, 0xD8] @ '':<a href='' @ dquote @ get_parent_path path @ dquote @ ''>'' @
          gbk [0xC9, 0xCF, 0xD2, 0xBB, 0xBC, 0xB6] @ ''</a></p>'') @
       ''</body>'' @ ''</html>'')"

definition video_html :: "'w dir_host \<Rightarrow> string \<Rightarrow> string" where
  "video_html D video_play_url =
     ansi_to_utf8 D (''<html>'' @ ''<head><title> File Play</title></head>'' @ ''<body>'' @
       (''<video  width='' @ dquote @ ''100%'' @ dquote @ '' height='' @ dquote @ ''90%'' @ dquote @
        '' webkit-playsinline='' @ dquote @ ''true'' @ dquote @ '' src='' @ dquote @ video_play_url @ dquote @
        '' controls='' @ dquote @ ''controls'' @ dquote @ ''></video>'') @
       ''</body>'' @ ''</html>'')"

definition file_not_found_msg :: "string \<Rightarrow> string" where
  "file_not_found_msg dir =
     gbk [0xC7, 0xEB, 0xC7, 0xF3, 0xB5, 0xC4, 0xCE, 0xC4, 0xBC, 0xFE] @ dir @
     gbk [0xCE, 0xDE, 0xB7, 0xA8, 0xD5, 0xD2, 0xB5, 0xBD]"

definition set_file_body_msg :: string where
  "set_file_body_msg =
     gbk [0xCE, 0xB4, 0xD6, 0xAA, 0xB5, 0xC4, 0xB4, 0xED, 0xCE, 0xF3, 0xB7, 0xA2, 0xC9, 0xFA, 0xD4, 0xDA] @
     '' service.cpp 340 set_file_body''"

definition bad_action_msg :: "string \<Rightarrow> string" where
  "bad_action_msg action =
     gbk [0xB6, 0xD4, 0xD3, 0xA6, 0xC2, 0xB7, 0xBE, 0xB6, 0xB2, 0xBB, 0xD6, 0xA7, 0xB3, 0xD6] @
     '' action='' @ action"

subsection \<open>Facts about the path above a path\<close>

text \<open>A path without the slashes at its end.\<close>

definition strip_end :: "string \<Rightarrow> string" where
  "strip_end path = rev (dropWhile (\<lambda>c. c = CHR ''/'') (rev path))"

lemma strip_end_split:
  obtains n where "path = strip_end path @ replicate n (CHR ''/'')"
    and "strip_end path \<noteq> [] \<Longrightarrow> last (strip_end path) \<noteq> CHR ''/''"
proof -
  let ?P = "\<lambda>c. c = CHR ''/''"
  let ?s = "takeWhile ?P (rev path)"
  have r: "rev ?s = replicate (length ?s) (CHR ''/'')"
    by (rule replicate_eqI) (auto dest: set_takeWhileD)
  have "path = rev (?s @ dropWhile ?P (rev path))" by (simp only: takeWhile_dropWhile_id rev_rev_ident)
  then have "path = strip_end path @ replicate (length ?s) (CHR ''/'')"
    unfolding rev_append r strip_end_def .
  moreover have "last (strip_end path) \<noteq> CHR ''/''" if "strip_end path \<noteq> []"
    using that hd_dropWhile [of ?P "rev path"] by (simp add: strip_end_def last_rev)
  ultimately show ?thesis by (rule that)
qed

lemma rfind1_snoc: "rfind1 c (s @ [x]) = (if x = c then Some (length s) else rfind1 c s)"
  by (induction s) (auto split: option.splits)

lemma strip_end_append: "s \<noteq> [] \<Longrightarrow> last s \<noteq> CHR ''/'' \<Longrightarrow> strip_end (s @ replicate n (CHR ''/'')) = s"
  by (cases s rule: rev_cases) (simp_all add: strip_end_def dropWhile_append)

lemma parent_loop_back:
  "k \<le> length path \<Longrightarrow> int k \<le> p \<Longrightarrow>
     parent_loop path k p = (case rfind1 (CHR ''/'') (take k path) of None \<Rightarrow> - 1 | Some j \<Rightarrow> int j)"
proof (induction k)
  case 0
  then show ?case by simp
next
  case (Suc k)
  then have t: "take (Suc k) path = take k path @ [path ! k]" by (simp add: take_Suc_conv_app_nth)
  with Suc show ?case by (simp add: rfind1_snoc)
qed

lemma parent_loop_slashes:
  "parent_loop (core @ replicate (n + m) (CHR ''/'')) (length core + n) (int (length core + n) - 1) =
     parent_loop (core @ replicate (n + m) (CHR ''/'')) (length core) (int (length core) - 1)"
proof (induction n arbitrary: m)
  case 0
  then show ?case by simp
next
  case (Suc n)
  have "(core @ replicate (Suc n + m) (CHR ''/'')) ! (length core + n) = CHR ''/''"
    by (simp add: nth_append del: replicate.simps)
  with Suc [of "Suc m"] show ?case by simp
qed

lemma parent_loop_value:
  "parent_loop path (length path) (int (length path) - 1) =
     (case rfind1 (CHR ''/'') (strip_end path) of None \<Rightarrow> - 1 | Some j \<Rightarrow> int j)"
proof -
  let ?s = "strip_end path"
  obtain n where n: "path = ?s @ replicate n (CHR ''/'')" and l: "?s \<noteq> [] \<Longrightarrow> last ?s \<noteq> CHR ''/''"
    using strip_end_split [of path] by blast
  have "parent_loop path (length path) (int (length path) - 1) =
      parent_loop path (length ?s) (int (length ?s) - 1)"
    using parent_loop_slashes [of ?s n 0] n by (metis add.right_neutral length_append length_replicate)
  also have "\<dots> = (case rfind1 (CHR ''/'') ?s of None \<Rightarrow> - 1 | Some j \<Rightarrow> int j)"
  proof (cases ?s rule: rev_cases)
    case Nil
    then show ?thesis by simp
  next
    case (snoc t c)
    then have p: "path = t @ c # replicate n (CHR ''/'')" using n by simp
    have c: "c \<noteq> CHR ''/''" using l snoc by simp
    have "path ! length t = c" "take (length t) path = t" "length t \<le> length path"
      by (simp_all add: p del: replicate.simps)
    with snoc c parent_loop_back [of "length t" path "int (length t)"] show ?thesis by (simp add: rfind1_snoc)
  qed
  finally show ?thesis .
qed

lemma take_strip_end: "j \<le> length (strip_end path) \<Longrightarrow> take j path = take j (strip_end path)"
proof (rule strip_end_split [of path])
  fix n
  assume "j \<le> length (strip_end path)" and "path = strip_end path @ replicate n (CHR ''/'')"
  then have "take j path = take j (strip_end path @ replicate n (CHR ''/''))" by simp
  with \<open>j \<le> length (strip_end path)\<close> show "take j path = take j (strip_end path)" by simp
qed

lemma rfind1_less: "rfind1 c s = Some j \<Longrightarrow> j < length s"
  by (induction s arbitrary: j) (auto split: option.splits if_splits)

lemma get_parent_path_eq:
  "get_parent_path path =
     (case rfind1 (CHR ''/'') (strip_end path) of
        None \<Rightarrow> if path = [] \<or> path = ''/'' then ''/'' else path
      | Some j \<Rightarrow> if j = 0 then ''/'' else take j (strip_end path))"
proof (cases "path = [] \<or> path = ''/''")
  case True
  then have "strip_end path = []" by (auto simp: strip_end_def)
  with True show ?thesis by (simp add: get_parent_path_def)
next
  case False
  show ?thesis
  proof (cases "rfind1 (CHR ''/'') (strip_end path)")
    case None
    with False parent_loop_value [of path] show ?thesis by (simp add: get_parent_path_def Let_def)
  next
    case (Some j)
    with False parent_loop_value [of path] take_strip_end [of j path] rfind1_less [OF Some]
    show ?thesis by (simp add: get_parent_path_def Let_def)
  qed
qed

lemma get_parent_path_child:
  assumes "CHR ''/'' \<notin> set s" and "s \<noteq> []"
  shows "get_parent_path (d @ CHR ''/'' # s) = (if d = [] then ''/'' else d)"
proof -
  have "last s \<noteq> CHR ''/''" using assms by (metis last_in_set)
  then have "strip_end (d @ CHR ''/'' # s) = d @ CHR ''/'' # s"
    using strip_end_append [of "d @ CHR ''/'' # s" 0] assms(2) by simp
  then show ?thesis by (simp add: get_parent_path_eq rfind1_append [OF assms(1)])
qed

lemma parent_loop_int_eq:
  "n < 2 ^ 31 \<Longrightarrow> - 1 \<le> p \<Longrightarrow> p < 2 ^ 31 \<Longrightarrow>
     sint (parent_loop_int path (word_of_int (int n - 1)) (word_of_int p)) = parent_loop path n p"
proof (induction path n p rule: parent_loop.induct)
  case (1 path p)
  have "sint (word_of_int (int 0 - 1) :: 32 word) = - 1" by (subst sint_word_of_int_32) simp_all
  then show ?case by (subst parent_loop_int.simps) simp
next
  case (2 path i p)
  have i: "sint (word_of_int (int i) :: 32 word) = int i"
    by (rule sint_word_of_int_32) (use "2.prems" in simp_all)
  have p: "sint (word_of_int p :: 32 word) = p" by (rule sint_word_of_int_32) (use "2.prems" in simp_all)
  have eq: "(word_of_int (int i) :: 32 word) = word_of_int p \<longleftrightarrow> int i = p" using i p by metis
  have s: "(word_of_int q :: 32 word) - 1 = word_of_int (q - 1)" for q by simp
  have neg: "\<not> int i < 0" by simp
  have step: "parent_loop_int path (word_of_int (int i)) (word_of_int p) =
      (if path ! i = CHR ''/''
       then if int i = p then parent_loop_int path (word_of_int (int i - 1)) (word_of_int (p - 1))
            else word_of_int (int i)
       else parent_loop_int path (word_of_int (int i - 1)) (word_of_int p))"
    by (simp only: parent_loop_int.simps [of path "word_of_int (int i)" "word_of_int p"] i eq s neg nat_int if_False)
  have n: "int (Suc i) - 1 = int i" by simp
  have lt: "i < 2 ^ 31" using "2.prems"(1) by simp
  show ?case
  proof (cases "path ! i = CHR ''/''")
    case slash: True
    show ?thesis
    proof (cases "int i = p")
      case True
      then have "sint (parent_loop_int path (word_of_int (int i - 1)) (word_of_int (p - 1))) = parent_loop path i (p - 1)"
        using "2.prems"(3) by (intro "2.IH"(1) [OF slash True lt]) linarith+
      with slash True show ?thesis unfolding n step by simp
    next
      case False
      with slash i show ?thesis unfolding n step by simp
    qed
  next
    case False
    with "2.IH"(2) [OF False lt "2.prems"(2,3)] show ?thesis unfolding n step by simp
  qed
qed

subsection \<open>Properties of the pages\<close>

text \<open>
  C29: The two-index loop of \<open>get_parent_path\<close> is: without the slashes at the end, the text before
  the last slash, or the root when that is empty. A path with no slash but those at its end has no
  path above it and is returned as it is, but for the empty one and the root. For paths shorter than
  2 GB the \<^verbatim>\<open>int\<close>s of the loop do not overflow.
\<close>

theorem get_parent_path_correct:
  "get_parent_path path =
     (case rfind1 (CHR ''/'') (strip_end path) of
        None \<Rightarrow> if path = [] \<or> path = ''/'' then ''/'' else path
      | Some j \<Rightarrow> if j = 0 then ''/'' else take j (strip_end path)) \<and>
   (length path < 2 ^ 31 \<longrightarrow>
     (let i = word_of_int (int (length path) - 1)
      in sint (parent_loop_int path i i) = parent_loop path (length path) (int (length path) - 1)))"
  using parent_loop_int_eq [of "length path" "int (length path) - 1" path] by (simp add: get_parent_path_eq Let_def)

theorem get_parent_path_correct_witness:
  "get_parent_path ''/a/b//'' = ''/a'' \<and>
   sint (parent_loop_int ''/a/b//'' (word_of_int 5) (word_of_int 5)) = parent_loop ''/a/b//'' 6 5"
proof
  have "strip_end ''/a/b//'' = ''/a/b''" by (simp add: strip_end_def)
  then show "get_parent_path ''/a/b//'' = ''/a''"
    using get_parent_path_correct [of "''/a/b//''", THEN conjunct1] by (simp add: numeral_2_eq_2)
  have n: "length ''/a/b//'' = 6" by simp
  show "sint (parent_loop_int ''/a/b//'' (word_of_int 5) (word_of_int 5)) = parent_loop ''/a/b//'' 6 5"
    using get_parent_path_correct [of "''/a/b//''", THEN conjunct2, THEN mp] unfolding n Let_def by simp
qed

text \<open>
  The way into an entry and back: the link of an entry, followed, is the path of a page whose link
  to the path above leads back to the listing, but for a slash at its end. The entry's name has no
  slash, and the link fits into the buffer it is printed to.
\<close>

lemma list_url_whole:
  assumes "length ppath + length name + 1 < li_size"
    and "char_of (0::nat) \<notin> set ppath" and "char_of (0::nat) \<notin> set name"
  shows "list_url ppath name = ppath @ (if ppath \<noteq> [] \<and> last ppath = CHR ''/'' then [] else ''/'') @ name"
proof -
  have c: "c_str s = s" if "char_of (0::nat) \<notin> set s" for s
    using that c_str_pad [of s 0] by simp
  let ?u = "ppath @ (if ppath \<noteq> [] \<and> last ppath = CHR ''/'' then [] else ''/'') @ name"
  have "length ?u \<le> length ppath + length name + 1" by simp
  then have "length ?u \<le> li_size - 1" using assms(1) by linarith
  then show ?thesis unfolding list_url_def snprintf_def c [OF assms(2)] c [OF assms(3)] by (rule take_all)
qed

lemma NUL: "char_of (0::nat) = CHR 0x00"
  by code_simp

theorem listing_link_back:
  assumes "length ppath + length name + 1 < li_size" and "CHR ''/'' \<notin> set name" and "name \<noteq> []"
    and "char_of (0::nat) \<notin> set ppath" and "char_of (0::nat) \<notin> set name"
  shows "get_parent_path (list_url ppath name) =
    (if ppath = [] \<or> ppath = ''/'' then ''/'' else if last ppath = CHR ''/'' then butlast ppath else ppath)"
proof (cases "ppath \<noteq> [] \<and> last ppath = CHR ''/''")
  case True
  then obtain d where d: "ppath = d @ ''/''" by (metis append_butlast_last_id)
  have "list_url ppath name = d @ CHR ''/'' # name"
    using list_url_whole [OF assms(1,4,5)] by (simp add: d)
  moreover have "get_parent_path (d @ CHR ''/'' # name) = (if d = [] then ''/'' else d)"
    by (rule get_parent_path_child [OF assms(2,3)])
  ultimately show ?thesis by (simp add: d)
next
  case False
  then have "list_url ppath name = ppath @ CHR ''/'' # name" using list_url_whole [OF assms(1,4,5)] by auto
  with False get_parent_path_child [OF assms(2,3), of ppath] show ?thesis by auto
qed

theorem listing_link_back_witness:
  "get_parent_path (list_url ''/music/'' ''a b.mp3'') = ''/music''"
  using listing_link_back [of "''/music/''" "''a b.mp3''"] by (simp add: li_size_def NUL)

end
