(* ===== verification/File_Service.thy ===== *)
theory File_Service
  imports File_Page
begin

section \<open>The file server\<close>

text \<open>
  \<^verbatim>\<open>Example/FileService/service.cpp\<close>: a server on the HTTP library that shares a directory, with an
  optional login. Its callback \<open>http_event_cb\<close> makes calls of the library and so works on the state
  of the HTTP service. A new response has no body; writing to it, or sending it, dereferences a null
  pointer: None, or the fault of the service.
\<close>

record FileServce =
  fs_param :: HttpParam
  file_dir :: string
  http_server_handle :: int
  auth_mode :: auth_method
  fs_username :: string
  fs_password :: string

text \<open>The constructor leaves the mode of the login as it finds it; \<open>start\<close> sets it before any use.\<close>

definition FileServce_new :: "auth_method \<Rightarrow> FileServce" where
  "FileServce_new garbage = \<lparr>fs_param = HttpParam_new\<lparr>hp_peer_type := Server\<rparr>, file_dir = [],
     http_server_handle = HNW_INVALID_HANDLE, auth_mode = garbage, fs_username = [], fs_password = []\<rparr>"

definition FileServce_destroy ::
  "('u, 'w) env \<Rightarrow> FileServce \<Rightarrow> ('u, 'w) http_service \<Rightarrow> FileServce \<times> ('u, 'w) http_service" where
  "FileServce_destroy E fs sv =
     (if http_server_handle fs \<noteq> HNW_INVALID_HANDLE
      then (fs\<lparr>http_server_handle := HNW_INVALID_HANDLE\<rparr>, snd (HnwHttp_Close E sv (http_server_handle fs)))
      else (fs, sv))"

subsection \<open>Configuration and start\<close>

text \<open>
  What \<open>program_options\<close> has stored after \<open>notify\<close>, defaults included; None when parsing has thrown.
\<close>

record shell_options =
  so_host :: string
  so_accept_num :: u64
  so_dir :: string
  so_auth_mode :: string
  so_username :: string
  so_password :: string
  so_help :: bool

definition int_config_from_shell :: "shell_options option \<Rightarrow> FileServce \<Rightarrow> bool \<times> FileServce" where
  "int_config_from_shell opts fs =
     (case opts of
        None \<Rightarrow> (False, fs)
      | Some vm \<Rightarrow>
          let fs = fs\<lparr>fs_param := (fs_param fs)\<lparr>hp_host := so_host vm, hp_accept_num := so_accept_num vm\<rparr>,
                 file_dir := so_dir vm, fs_username := so_username vm, fs_password := so_password vm\<rparr>;
              mode = (if so_auth_mode vm = ''None'' then Some NoneAuth
                      else if so_auth_mode vm = ''Basic'' then Some BasicAuth
                      else if so_auth_mode vm = ''Digest'' then Some DigestAuth else None)
          in case mode of
               None \<Rightarrow> (False, fs)
             | Some m \<Rightarrow> (\<not> so_help vm, fs\<lparr>auth_mode := m\<rparr>))"

text \<open>\<open>u\<close> names the callback that \<open>bind\<close> makes of \<open>http_event_cb\<close>.\<close>

definition file_start ::
  "('u, 'w) env \<Rightarrow> 'u \<Rightarrow> shell_options option \<Rightarrow> FileServce \<Rightarrow> ('u, 'w) http_service \<Rightarrow>
     int \<times> FileServce \<times> ('u, 'w) http_service" where
  "file_start E u opts fs sv =
     (let (ok, fs) = int_config_from_shell opts fs
      in if \<not> ok then (- 1, fs, sv)
         else let (ret, h, sv) = HnwHttp_Start E sv (fs_param fs) (Some (UserEvent u)) (http_server_handle fs);
                  fs = fs\<lparr>http_server_handle := h\<rparr>
              in (if ret \<noteq> HNW_BASE_OK then - 1 else 0, fs, sv))"

subsection \<open>Answers\<close>

definition response_html_page ::
  "('u, 'w) env \<Rightarrow> 'w \<Rightarrow> HttpResponse \<Rightarrow> string \<Rightarrow> (err_code \<times> HttpResponse \<times> 'w) option" where
  "response_html_page E w response html_data =
     (if html_data = [] then Some (HNW_BASE_NO_SUPPORT, response, w)
      else
        let response = response\<lparr>rs_head := snd (set_content_type (rs_head response) ''text/html;charset=UTF-8''),
              rs_line := status_code (rs_line response) ''200''\<rparr>
        in case rs_body response of
             None \<Rightarrow> None
           | Some b \<Rightarrow>
               (case write_body (env_host E) w b html_data of
                  None \<Rightarrow> None
                | Some (n, w, b) \<Rightarrow>
                    Some (if length html_data = n then HNW_BASE_OK else HNW_BASE_NUKNOW_ERROR,
                      response\<lparr>rs_body := Some b\<rparr>, w)))"

definition response_error ::
  "('u, 'w) env \<Rightarrow> 'w dir_host \<Rightarrow> 'w \<Rightarrow> HttpRequest \<Rightarrow> HttpResponse \<Rightarrow> err_code \<Rightarrow> string \<Rightarrow>
     (err_code \<times> HttpResponse \<times> 'w) option" where
  "response_error E D w request response code msg =
     (case HnwUtil_UrlDecode (rl_path (rq_line request)) of
        None \<Rightarrow> None
      | Some url \<Rightarrow>
          let path = utf8_to_ansi D url
          in response_html_page E w response (error_html D code msg path))"

definition response_dir ::
  "('u, 'w) env \<Rightarrow> 'w dir_host \<Rightarrow> 'w \<Rightarrow> HttpResponse \<Rightarrow> string \<Rightarrow> string \<Rightarrow>
     (err_code \<times> HttpResponse \<times> 'w) option" where
  "response_dir E D w response dir ppath =
     (let file_list = get_file_node_list D w dir; data = list_to_html D file_list ppath
      in response_html_page E w response data)"

definition response_video_play_page ::
  "('u, 'w) env \<Rightarrow> 'w dir_host \<Rightarrow> 'w \<Rightarrow> HttpResponse \<Rightarrow> string \<Rightarrow>
     (err_code \<times> HttpResponse \<times> 'w) option" where
  "response_video_play_page E D w response video_play_url =
     response_html_page E w response (video_html D video_play_url)"

definition response_file ::
  "('u, 'w) env \<Rightarrow> 'w dir_host \<Rightarrow> 'w \<Rightarrow> HttpRequest \<Rightarrow> HttpResponse \<Rightarrow> string \<Rightarrow>
     (err_code \<times> HttpResponse \<times> 'w) option" where
  "response_file E D w request response dir =
     (let (ok, rg) = get_range (env_platform E) (rq_head request) HttpRange_default;
          rg = (if ok then rg else HttpRange_default);
          response = response\<lparr>rs_line := status_code (rs_line response) (if ok then ''206'' else ''200'')\<rparr>
      in case set_file_body (env_platform E) (env_host E) w response dir rg HTTP_FILE_FLAG_OPEN of
           (ok, w, response) \<Rightarrow>
             if ok then Some (HNW_BASE_OK, response, w)
             else response_error E D w request response HNW_BASE_NUKNOW_ERROR set_file_body_msg)"

definition on_request ::
  "('u, 'w) env \<Rightarrow> 'w dir_host \<Rightarrow> FileServce \<Rightarrow> 'w \<Rightarrow> HttpRequest \<Rightarrow> HttpResponse \<Rightarrow>
     (err_code \<times> HttpResponse \<times> 'w) option" where
  "on_request E D fs w request response =
     (case HnwUtil_UrlDecode (rl_path (rq_line request)) of
        None \<Rightarrow> None
      | Some url \<Rightarrow>
          let path = utf8_to_ansi D url; action = get_query (rq_line request) ''action'' [];
              dir = file_dir fs @ path
          in if \<not> file_is_exist (env_host E) w dir
             then response_error E D w request response HNW_HTTP_RES_IS_INVALID (file_not_found_msg dir)
             else if action = [] \<or> action = ''donwload''
             then if is_directory D w dir then response_dir E D w response dir path
                  else response_file E D w request response dir
             else if action = ''show'' then response_video_play_page E D w response path
             else response_error E D w request response HNW_BASE_PARAMS_IS_INVALID (bad_action_msg action))"

subsection \<open>Requests\<close>

text \<open>What both calls of \<open>HnwHttp_Response\<close> and the error paths have at their end.\<close>

definition send_or_close ::
  "('u, 'w) env \<Rightarrow> int \<Rightarrow> HttpResponse \<Rightarrow> ('u, 'w) http_service \<Rightarrow> ('u, 'w) http_service" where
  "send_or_close E handle response sv =
     (let (ret, sv) = HnwHttp_Response E sv handle (Some response)
      in if ret \<noteq> HNW_BASE_OK then snd (HnwHttp_Close E sv handle) else sv)"

definition auth_challenge ::
  "('u, 'w) env \<Rightarrow> 'w dir_host \<Rightarrow> FileServce \<Rightarrow> 'w \<Rightarrow> HttpResponse \<Rightarrow> HttpResponse" where
  "auth_challenge E D fs w response =
     (let response = response\<lparr>rs_line := status_code (rs_line response) ''401''\<rparr>;
          auth = HnwWWWAuthenticate_default\<lparr>wa_method := auth_mode fs, wa_realm := ''fileshared@hql'',
                   wa_nonce := snd (HnwUtil_Md5 (env_platform E) (show_nat (time_null D w)))\<rparr>
      in response\<lparr>rs_head := snd (set_www_authenticate (rs_head response) auth)\<rparr>)"

definition file_answer ::
  "('u, 'w) env \<Rightarrow> 'w dir_host \<Rightarrow> FileServce \<Rightarrow> int \<Rightarrow> HttpRequest \<Rightarrow> HttpResponse \<Rightarrow>
     ('u, 'w) http_service \<Rightarrow> ('u, 'w) http_service" where
  "file_answer E D fs handle request response sv =
     (case on_request E D fs (hs_world sv) request response of
        None \<Rightarrow> hs_fail Undefined sv
      | Some (ret, response, w) \<Rightarrow>
          let sv = sv\<lparr>hs_world := w\<rparr>
          in if ret \<noteq> HNW_BASE_OK then snd (HnwHttp_Close E sv handle)
             else send_or_close E handle response sv)"

definition http_event_cb ::
  "('u, 'w) env \<Rightarrow> 'w dir_host \<Rightarrow> FileServce \<Rightarrow> int \<Rightarrow> http_event \<Rightarrow> ('u, 'w) http_service \<Rightarrow>
     ('u, 'w) http_service" where
  "http_event_cb E D fs handle ev sv =
     (case ev of
        RecvRequest request \<Rightarrow>
          (case HnwHttp_GenerateResponse E of
             (_, None) \<Rightarrow> snd (HnwHttp_Close E sv handle)
           | (_, Some response) \<Rightarrow>
               let response = response\<lparr>rs_head :=
                     set_keep_alive (rs_head response) (get_keep_alive (env_platform E) (rq_head request))\<rparr>
               in if auth_mode fs \<noteq> NoneAuth
                  then
                    let req_auth = get_authorization (env_platform E) (rq_head request)
                    in if au_method req_auth = NoneAuth \<and> au_username req_auth = fs_username fs
                       then send_or_close E handle (auth_challenge E D fs (hs_world sv) response) sv
                       else if \<not> check_auth (env_platform E) req_auth (fs_password fs) (rl_method (rq_line request))
                       then send_or_close E handle (auth_challenge E D fs (hs_world sv) response) sv
                       else file_answer E D fs handle request response sv
                  else file_answer E D fs handle request response sv)
      | _ \<Rightarrow> sv)"

text \<open>The server as the application of the library.\<close>

definition file_env :: "('u, 'w) env \<Rightarrow> 'w dir_host \<Rightarrow> FileServce \<Rightarrow> ('u, 'w) env" where
  "file_env E D fs = E\<lparr>app_event := \<lambda>u h ev sv. (ev, http_event_cb E D fs h ev sv)\<rparr>"

end
