(* ===== verification/Http_Invariant.thy ===== *)
theory Http_Invariant
  imports Http_Dispatch
begin

section \<open>Invariants of the HTTP service\<close>

text \<open>
  What every operation of the HTTP service keeps. The operations are built from a few primitive
  changes of the state; the locale \<open>http_invariant\<close> says of a predicate that these keep it, and
  proves once that then every operation, every callback of the code and every event does. The
  interpretation is the invariant of the session table and of the base service below it.
\<close>

text \<open>The parser's loop keeps what its callbacks keep of the world.\<close>

lemma input_data_loop_world:
  assumes step: "\<And>st w x ret rest st' w' ev. Q w \<Longrightarrow> step st w x = Some (ret, rest, st', w', ev) \<Longrightarrow> Q w'"
    and run: "input_data_loop step st w x evs = Some (ret, st', w', evs')" and w: "Q w"
  shows "Q w'"
proof -
  have "step = step \<longrightarrow> Q w \<longrightarrow> Q (fst (snd (snd (ret, st', w', evs'))))"
    by (rule input_data_loop.raw_induct
          [where P = "\<lambda>c _ w _ _ r. c = step \<longrightarrow> Q w \<longrightarrow> Q (fst (snd (snd r)))", OF _ run])
      (auto dest: step split: if_splits option.splits)
  with w show ?thesis by simp
qed

text \<open>
  The steps of the service: the calls of the application, the events of the base library, a
  further round of a sending loop, a step of the base service, and changes of the files.
\<close>

inductive http_step :: "('u, 'w) env \<Rightarrow> ('u, 'w) http_service \<Rightarrow> ('u, 'w) http_service \<Rightarrow> bool" for E where
  step_start: "http_step E sv (snd (snd (http_start E sv param (Some (UserEvent u)) h)))"
| step_request: "http_step E sv (snd (http_request E sv method url cb body t ext))"
| step_resource: "http_step E sv (snd (get_resource_status E sv url (Some (UserStatus u))))"
| step_download: "http_step E sv (snd (download_url E sv url out cb n rg flag))"
| step_send_request: "http_step E sv (snd (HnwHttp_Request E sv h req))"
| step_send_response: "http_step E sv (snd (HnwHttp_Response E sv h res))"
| step_raw_request: "http_step E sv (snd (raw_request E sv h method uri data ext))"
| step_raw_response: "http_step E sv (snd (raw_response E sv h code data ext))"
| step_file_request: "http_step E sv (snd (file_request E sv h method uri path ext))"
| step_file_response: "http_step E sv (snd (file_response E sv h code path ext))"
| step_close: "http_step E sv (snd (HnwBase_Close E sv h))"
| step_config: "http_step E sv (snd (HnwBase_Config sv h ct data))"
| step_event: "http_step E sv (snd (event_cb E ecb h ev sv))"
| step_round: "get_session sv h = Some se \<Longrightarrow> send_flag se \<Longrightarrow>
     http_step E sv (snd (HnwBase_Send_Cb E sv h se))"
| step_base: "service_step (env_net E) (hs_base sv) b \<Longrightarrow> http_step E sv (sv\<lparr>hs_base := b\<rparr>)"
| step_world: "http_step E sv (sv\<lparr>hs_world := w\<rparr>)"

named_theorems hinv \<open>operations that keep an invariant of the HTTP service\<close>

locale http_invariant =
  fixes E :: "('u, 'w) env" and Q :: "('u, 'w) http_service \<Rightarrow> bool"
  assumes fail [hinv]: "Q sv \<Longrightarrow> Q (hs_fail f sv)"
    and close [hinv]: "Q sv \<Longrightarrow> Q (snd (HnwBase_Close E sv h))"
    and add [hinv]: "Q sv \<Longrightarrow> Q (snd (snd (HnwBase_Add_Channnel E sv type point h)))"
    and set_cb [hinv]: "Q sv \<Longrightarrow> Q (snd (HnwBase_SetEvntCB sv h cb))"
    and config [hinv]: "Q sv \<Longrightarrow> Q (snd (HnwBase_Config sv h t data))"
    and accept [hinv]: "Q sv \<Longrightarrow> Q (snd (HnwBase_Accept sv h))"
    and connect [hinv]: "Q sv \<Longrightarrow> Q (snd (HnwBase_Connect E sv h point))"
    and add_session [hinv]: "Q sv \<Longrightarrow> Q (snd (add_session E sv h peer ecb))"
    and del_session [hinv]: "Q sv \<Longrightarrow> Q (del_session sv h)"
    and disconnect [hinv]: "Q sv \<Longrightarrow> Q (del_session (update_session sv h on_disconnect) h)"
    and session_head [hinv]: "Q sv \<Longrightarrow> Q (update_session sv h (\<lambda>se. add_session_head se k v))"
    and parser [hinv]: "Q sv \<Longrightarrow> Q (update_session sv h (set_parser p))"
    and send_request [hinv]: "Q sv \<Longrightarrow> get_session sv h = Some se \<Longrightarrow>
      Q (snd (session_call E sv h se (\<lambda>ret. send_request ret se req)))"
    and send_response [hinv]: "Q sv \<Longrightarrow> get_session sv h = Some se \<Longrightarrow>
      Q (snd (session_call E sv h se (\<lambda>ret. send_response ret se res)))"
    and establish [hinv]: "Q sv \<Longrightarrow> get_session sv h = Some se \<Longrightarrow>
      Q (snd (session_call E sv h se (\<lambda>ret. (ret, on_connect_establish ret se))))"
    and round [hinv]: "Q sv \<Longrightarrow> get_session sv h = Some se \<Longrightarrow> send_flag se \<Longrightarrow>
      Q (snd (HnwBase_Send_Cb E sv h se))"
    and base: "Q sv \<Longrightarrow> service_step (env_net E) (hs_base sv) b \<Longrightarrow> Q (sv\<lparr>hs_base := b\<rparr>)"
    and tasks [hinv]: "Q sv \<Longrightarrow> Q (sv\<lparr>hs_tasks := ts\<rparr>)"
    and held [hinv]: "Q sv \<Longrightarrow> Q (sv\<lparr>hs_held := hs\<rparr>)"
    and world [hinv]: "Q sv \<Longrightarrow> Q (sv\<lparr>hs_world := w\<rparr>)"
    and app_event [hinv]: "Q sv \<Longrightarrow> Q (snd (app_event E u h ev sv))"
    and app_status [hinv]: "Q sv \<Longrightarrow> Q (app_status E u st err sv)"
    and app_response [hinv]: "Q sv \<Longrightarrow> Q (app_response E u r err sv)"
    and app_download [hinv]: "Q sv \<Longrightarrow> Q (snd (app_download E u url out rg pos err sv))"
begin

lemmas unfold_calls = case_prod_unfold Let_def

lemma request_call [hinv]: "Q sv \<Longrightarrow> Q (snd (HnwHttp_Request E sv h req))"
  by (auto simp: HnwHttp_Request_def intro: hinv split: option.splits)

lemma response_call [hinv]: "Q sv \<Longrightarrow> Q (snd (HnwHttp_Response E sv h res))"
  by (auto simp: HnwHttp_Response_def intro: hinv split: option.splits)

lemma raw_message_body [hinv]: "Q sv \<Longrightarrow> Q (snd (raw_message_body E sv data))"
  by (auto simp: raw_message_body_def intro: hinv split: option.splits)

lemma raw_request [hinv]: "Q sv \<Longrightarrow> Q (snd (raw_request E sv h method uri data ext))"
  using raw_message_body [of sv data]
  by (auto simp: raw_request_def HnwHttp_GenerateRequest_def Let_def intro!: hinv split: prod.splits sum.splits)

lemma raw_response [hinv]: "Q sv \<Longrightarrow> Q (snd (raw_response E sv h code data ext))"
  using raw_message_body [of sv data]
  by (auto simp: raw_response_def HnwHttp_GenerateResponse_def Let_def intro!: hinv split: prod.splits sum.splits)

lemma file_request [hinv]: "Q sv \<Longrightarrow> Q (snd (file_request E sv h method uri path ext))"
  by (auto simp: file_request_def HnwHttp_GenerateRequest_def Let_def intro!: hinv
      split: prod.splits option.splits)

lemma file_response [hinv]: "Q sv \<Longrightarrow> Q (snd (file_response E sv h code path ext))"
  by (auto simp: file_response_def HnwHttp_GenerateResponse_def unfold_calls intro!: hinv
      split: option.splits)

lemma config_path [hinv]: "Q sv \<Longrightarrow> Q (config_path E sv h t path)"
  by (simp add: config_path_def hinv split: option.split)

lemma start_config [hinv]: "Q sv \<Longrightarrow> Q (start_config E sv param h)"
  by (simp add: start_config_def Let_def hinv)

lemma start [hinv]: "Q sv \<Longrightarrow> Q (snd (snd (http_start E sv param ecb h)))"
  by (auto simp: http_start_def unfold_calls intro!: hinv)

lemma request [hinv]: "Q sv \<Longrightarrow> Q (snd (http_request E sv method url cb body t ext))"
  by (auto simp: http_request_def unfold_calls intro!: hinv)

lemma on_request_once [hinv]: "Q sv \<Longrightarrow> Q (on_request_once E cb method path body ext h ev sv)"
  by (auto simp: on_request_once_def unfold_calls intro!: hinv
      split: http_event.splits chan_event.splits option.splits)

lemma set_task [hinv]: "Q sv \<Longrightarrow> Q (set_task sv t k)"
  by (auto simp: set_task_def intro!: hinv)

lemma set_task_error [hinv]: "Q sv \<Longrightarrow> Q (set_task_error sv t err)"
  by (auto simp: set_task_error_def intro!: hinv)

lemma new_task [hinv]: "Q sv \<Longrightarrow> Q (snd (new_task sv k))"
  by (auto simp: new_task_def Let_def intro!: hinv)

lemma resource_status [hinv]: "Q sv \<Longrightarrow> Q (snd (get_resource_status E sv url cb))"
  by (auto simp: get_resource_status_def unfold_calls intro!: hinv)

lemma status_change [hinv]: "Q sv \<Longrightarrow> Q (snd (on_download_status_change E sv h t))"
  by (auto simp: on_download_status_change_def unfold_calls intro!: hinv split: option.splits)

lemma download [hinv]: "Q sv \<Longrightarrow> Q (snd (download E sv t main))"
  by (auto simp: download_def unfold_calls intro!: hinv)

lemma download_url [hinv]: "Q sv \<Longrightarrow> Q (snd (download_url E sv url out cb n rg flag))"
  by (auto simp: download_url_def unfold_calls intro!: hinv)

lemma start_subtask [hinv]: "Q sv \<Longrightarrow> Q (start_subtask E k sv rg)"
  by (auto simp: start_subtask_def unfold_calls intro!: hinv)

lemma start_subtasks [hinv]: "Q sv \<Longrightarrow> Q (foldl (start_subtask E k) sv rgs)"
  by (induction rgs arbitrary: sv) (auto intro: hinv)

lemma download_status [hinv]: "Q sv \<Longrightarrow> Q (download_status E t st err sv)"
  by (auto simp: download_status_def unfold_calls intro!: hinv)

lemma status_cb [hinv]: "Q sv \<Longrightarrow> Q (call_status_cb E cb st err sv)"
  by (auto simp: call_status_cb_def intro!: hinv split: option.splits status_cb.splits)

lemma range_request [hinv]: "Q sv \<Longrightarrow> Q (snd (range_request E sv h method path rg))"
  by (auto simp: range_request_def HnwHttp_GenerateHead_def intro!: hinv)

lemma resource_status_cb [hinv]: "Q sv \<Longrightarrow> Q (resource_status_cb E st cb h ev sv)"
  by (auto simp: resource_status_cb_def unfold_calls intro!: hinv
      split: http_event.splits chan_event.splits)

lemma download_head [hinv]: "Q sv \<Longrightarrow> Q (snd (snd (download_head E t h res sv)))"
  by (auto simp: download_head_def unfold_calls intro!: hinv)

lemma download_cb [hinv]: "Q sv \<Longrightarrow> Q (snd (download_cb E t h ev sv))"
  by (auto simp: download_cb_def unfold_calls intro!: hinv split: http_event.splits chan_event.splits)

lemma event_call [hinv]: "Q sv \<Longrightarrow> Q (snd (call_event_cb E ecb h ev sv))"
  by (auto simp: call_event_cb_def intro!: hinv split: option.splits event_callback.splits)

lemma established [hinv]: "Q sv \<Longrightarrow> Q (session_established E h sv)"
  by (auto simp: session_established_def intro!: hinv split: option.splits)

lemma event_cb_with:
  assumes "\<And>h data sv. Q sv \<Longrightarrow> Q (recv h data sv)" and "Q sv"
  shows "Q (snd (event_cb_with recv E ecb h ev sv))"
  using assms(2)
  by (auto simp: event_cb_with_def unfold_calls intro!: hinv assms(1)
      split: option.splits http_event.splits chan_event.splits)

lemma parser_event [hinv]: "Q sv \<Longrightarrow> Q (snd (parser_event_cb E ecb h ev sv))"
  unfolding parser_event_cb_def by (rule event_cb_with)

text \<open>The files the parser works on are those of the world.\<close>

lemma lift_file_destroy [hinv]: "Q sv \<Longrightarrow> Q (file_destroy (lift_host H) sv b)"
  by (auto simp: file_destroy_def lift_host_def intro!: hinv)

lemma lift_file_init_open: "Q sv \<Longrightarrow> Q (fst (snd (file_init_open (lift_host H) sv b)))"
  by (auto simp: file_init_open_def lift_host_def unfold_calls intro!: hinv)

lemma lift_file_init: "Q sv \<Longrightarrow> Q (fst (snd (file_init (lift_host H) sv b name rg flag)))"
  by (auto simp: file_init_def unfold_calls intro: lift_file_init_open)

lemma lift_file_generate [hinv]: "Q sv \<Longrightarrow> Q (snd (file_generate (lift_host H) sv name rg flag))"
  by (auto simp: file_generate_def unfold_calls intro: lift_file_init lift_file_destroy)

lemma lift_auto_body [hinv]:
  "Q sv \<Longrightarrow> Q (fst (snd (response_auto_create_body P (lift_host H) sv m)))"
proof -
  have r: "Q sv \<Longrightarrow> Q (snd (host_rand (lift_host H) sv))"
    by (auto simp: lift_host_def unfold_calls intro: world)
  show "Q sv \<Longrightarrow> ?thesis"
    by (auto simp: response_auto_create_body_def unfold_calls intro: lift_file_generate r)
qed

lemma lift_write_body:
  "write_body (lift_host H) sv b d = Some (n, sv', b') \<Longrightarrow> Q sv \<Longrightarrow> Q sv'"
  by (auto simp: write_body_def write_body_cb_def file_write_body_cb_def lift_host_def unfold_calls
      intro!: world split: option.splits BodyImpl.splits if_splits)

lemma resp_head_end_keeps:
  assumes "\<And>m sv. Q sv \<Longrightarrow> Q (snd (hcb m sv))" and "Q sv"
    and "resp_head_end P (lift_host H) hcb st sv = Some (ret, st', sv', ev)"
  shows "Q sv'"
proof -
  have "Q (snd (hcb m sv))" for m by (rule assms(1) [OF assms(2)])
  moreover from this have "Q (fst (snd (response_auto_create_body P (lift_host H) (snd (hcb m sv)) m')))" for m m'
    by (rule lift_auto_body)
  ultimately show ?thesis
    using assms(3) by (auto simp: resp_head_end_def unfold_calls split: if_splits option.splits)
qed

lemma resp_step_keeps:
  assumes "\<And>m sv. Q sv \<Longrightarrow> Q (snd (hcb m sv))" and "Q sv"
    and "resp_step P (lift_host H) hcb st sv x = Some (ret, rest, st', sv', ev)"
  shows "Q sv'"
  using assms(2,3) resp_head_end_keeps [of hcb, OF assms(1) assms(2)]
  by (auto simp: resp_step_def call_parser_cb_def resp_cb_map_def default_parser_def resp_on_start_line_def
      resp_on_head_def resp_on_body_def unfold_calls dest: lift_write_body
      split: if_splits option.splits)

lemma req_step_keeps:
  assumes "\<And>m sv. Q sv \<Longrightarrow> Q (snd (hcb m sv))" and "Q sv"
    and "req_step P (lift_host H) hcb st sv x = Some (ret, rest, st', sv', ev)"
  shows "Q sv'"
  using assms(2,3) assms(1) [OF assms(2)]
  by (auto simp: req_step_def call_parser_cb_def req_cb_map_def default_parser_def req_on_start_line_def
      req_on_head_def req_head_end_def req_on_body_def unfold_calls dest: lift_write_body
      split: if_splits option.splits)

lemma response_head [hinv]: "Q sv \<Longrightarrow> Q (snd (response_head_cb E ecb h m sv))"
  using parser_event [of sv ecb h "RecvResponseHead m"]
  by (auto simp: response_head_cb_def split: prod.splits http_event.splits)

lemma request_head [hinv]: "Q sv \<Longrightarrow> Q (snd (request_head_cb E ecb h m sv))"
  using parser_event [of sv ecb h "RecvRequestHead m"]
  by (auto simp: request_head_cb_def split: prod.splits http_event.splits)

lemma sync_held [hinv]: "Q sv \<Longrightarrow> Q (sync_held h m sv)"
  by (auto simp: sync_held_def intro!: hinv split: option.splits)

lemma response_event [hinv]: "Q sv \<Longrightarrow> Q (response_event E ecb h e sv)"
  by (auto simp: response_event_def Let_def intro!: hinv split: parser_event.splits)

lemma request_event [hinv]: "Q sv \<Longrightarrow> Q (request_event E ecb h e sv)"
  by (auto simp: request_event_def intro!: hinv split: parser_event.splits)

lemma fold_keeps: "(\<And>e sv. Q sv \<Longrightarrow> Q (f e sv)) \<Longrightarrow> Q sv \<Longrightarrow> Q (fold f es sv)"
  by (induction es arbitrary: sv) auto

lemma response_step_keeps:
  assumes "Q sv" and "response_step E ecb h st sv x = Some (ret, rest, st', sv', ev)"
  shows "Q sv'"
proof -
  obtain sv1 where s: "resp_step (env_platform E) (lift_host (env_host E)) (response_head_cb E ecb h) st sv x =
      Some (ret, rest, st', sv1, ev)"
    and sv': "sv' = fold (response_event E ecb h) ev
      (if \<exists>e \<in> set ev. (case e of RecvMessage _ \<Rightarrow> True | _ \<Rightarrow> False) then sv1 else sync_held h (parser_tmp st') sv1)"
    using assms(2) by (auto simp: response_step_def Let_def split: option.splits prod.splits)
  have "Q sv1" by (rule resp_step_keeps [OF response_head assms(1) s])
  then show ?thesis unfolding sv' by (intro fold_keeps response_event) (auto intro: sync_held)
qed

lemma request_step_keeps:
  assumes "Q sv" and "request_step E ecb h st sv x = Some (ret, rest, st', sv', ev)"
  shows "Q sv'"
proof -
  obtain sv1 where s: "req_step (env_platform E) (lift_host (env_host E)) (request_head_cb E ecb h) st sv x =
      Some (ret, rest, st', sv1, ev)" and sv': "sv' = fold (request_event E ecb h) ev sv1"
    using assms(2) by (auto simp: request_step_def Let_def split: option.splits prod.splits)
  have "Q sv1" by (rule req_step_keeps [OF request_head assms(1) s])
  then show ?thesis unfolding sv' by (intro fold_keeps request_event)
qed

lemma response_loop:
  "input_data_loop (response_step E ecb h) p sv d evs = Some (ret, p', sv', evs') \<Longrightarrow> Q sv \<Longrightarrow> Q sv'"
  by (rule input_data_loop_world [where Q = Q]) (rule response_step_keeps)

lemma request_loop:
  "input_data_loop (request_step E ecb h) p sv d evs = Some (ret, p', sv', evs') \<Longrightarrow> Q sv \<Longrightarrow> Q sv'"
  by (rule input_data_loop_world [where Q = Q]) (rule request_step_keeps)

lemma session_recv [hinv]: "Q sv \<Longrightarrow> Q (session_recv E h data sv)"
  by (auto simp: session_recv_def input_data_def intro!: hinv dest: response_loop request_loop
      split: option.splits recv_parser.splits)

lemma event [hinv]: "Q sv \<Longrightarrow> Q (snd (event_cb E ecb h ev sv))"
  unfolding event_cb_def by (rule event_cb_with) (rule session_recv)

lemma step: "http_step E sv sv' \<Longrightarrow> Q sv \<Longrightarrow> Q sv'"
  by (induction rule: http_step.induct) (auto intro: hinv base)

lemma reachable: "(http_step E)\<^sup>*\<^sup>* sv sv' \<Longrightarrow> Q sv \<Longrightarrow> Q sv'"
  by (induction rule: rtranclp_induct) (auto intro: step)

end

subsection \<open>The invariant of the session table\<close>

text \<open>
  A session has the handle it is filed under and the parser of its kind; only a connected session
  sends, nothing is half sent while the sending loop does not run, and a connected session in which it
  does not run has nothing queued.
\<close>

definition session_wf :: "int \<Rightarrow> session \<Rightarrow> bool" where
  "session_wf h se \<longleftrightarrow> se_handle se = h \<and>
     (case se_type se of
        Server \<Rightarrow> (\<exists>p. recv_parser se = ReqParser p) \<and> request_queue se = [] \<and> ss_request (send_status se) = None
      | Client \<Rightarrow> (\<exists>p. recv_parser se = RespParser p) \<and> response_queue se = [] \<and> ss_response (send_status se) = None
      | PeerNone \<Rightarrow> recv_parser se = NoParser \<and> request_queue se = [] \<and> response_queue se = []) \<and>
     (send_flag se \<longrightarrow> connect_flag se) \<and>
     (\<not> send_flag se \<longrightarrow> ss_request (send_status se) = None \<and> ss_response (send_status se) = None) \<and>
     (connect_flag se \<and> \<not> send_flag se \<longrightarrow> request_queue se = [] \<and> response_queue se = [])"

definition http_ok :: "('u, 'w) http_service \<Rightarrow> bool" where
  "http_ok sv \<longleftrightarrow> omap_ok (session_map sv) \<and> service_ok (hs_base sv) \<and>
     (\<forall>h se. get_session sv h = Some se \<longrightarrow> session_wf h se)"

lemma session_generate_wf: "session_wf h (session_generate h type)"
  by (cases type) (simp_all add: session_wf_def session_generate_def add_session_head_def SendStaus_new_def Let_def)

lemma add_session_head_wf: "session_wf h se \<Longrightarrow> session_wf h (add_session_head se k v)"
  by (cases "se_type se") (simp_all add: session_wf_def add_session_head_def)

lemma set_parser_wf: "session_wf h se \<Longrightarrow> session_wf h (set_parser p se)"
  by (cases "se_type se"; cases p; cases "recv_parser se") (simp_all add: session_wf_def set_parser_def)

text \<open>One call of the read callback.\<close>

definition reading :: "int \<Rightarrow> session \<Rightarrow> bool" where
  "reading h se \<longleftrightarrow> session_wf h se \<and> send_flag se"

lemma response_round_wf:
  "response_round P H w se s n = Some r \<Longrightarrow> reading h se \<Longrightarrow> se_type se = Server \<Longrightarrow>
     (case r of Again se' \<Rightarrow> reading h se' \<and> se_type se' = Server
      | Return d se' ef \<Rightarrow> session_wf h se' \<and> ef = [])"
  by (auto simp: response_round_def move_cache_def Let_def reading_def session_wf_def
      split: if_splits option.splits prod.splits)

lemma on_read_response_wf:
  "reading h se \<Longrightarrow> se_type se = Server \<Longrightarrow> on_read_response P H w se n = Some (d, se', ef) \<Longrightarrow>
     session_wf h se' \<and> (\<forall>e \<in> set ef. e = HttpClose h)"
proof (induction P H w se n rule: on_read_response.induct)
  case (1 P H w se n)
  show ?case
  proof (cases "ss_response (send_status se)")
    case None
    show ?thesis
    proof (cases "response_queue se")
      case Nil
      with 1 None show ?thesis
        by (auto simp: on_read_response.simps [of P H w se n] reading_def session_wf_def close_effect_def Let_def)
    next
      case (Cons s rest)
      with None 1(5) obtain se1 where t: "take_response P se s rest = Some se1"
        and r: "on_read_response P H w se1 n = Some (d, se', ef)"
        by (auto simp: on_read_response.simps [of P H w se n] split: option.splits)
      have "reading h se1 \<and> se_type se1 = Server"
        using t 1(3,4) by (auto simp: take_response_def pre_send_response_def Let_def reading_def session_wf_def
            split: option.splits if_splits)
      with 1(1) [OF None Cons t _ _ r] show ?thesis by blast
    qed
  next
    case (Some s)
    with 1(5) obtain r where rr: "response_round P H w se s n = Some r"
      by (auto simp: on_read_response.simps [of P H w se n] split: option.splits)
    note wf = response_round_wf [OF rr 1(3,4)]
    show ?thesis
    proof (cases r)
      case (Return d' se1 ef')
      with wf 1(5) Some rr show ?thesis by (simp add: on_read_response.simps [of P H w se n])
    next
      case (Again se1)
      with wf 1(5) Some rr have "reading h se1" "se_type se1 = Server"
        "on_read_response P H w se1 n = Some (d, se', ef)"
        by (simp_all add: on_read_response.simps [of P H w se n])
      with 1(2) [OF Some rr Again] show ?thesis by blast
    qed
  qed
qed

lemma request_round_wf:
  "request_round P H w se q n = Some (d, se', ef) \<Longrightarrow> reading h se \<Longrightarrow> se_type se = Client \<Longrightarrow>
     session_wf h se' \<and> ef = []"
  by (auto simp: request_round_def move_cache_def Let_def reading_def session_wf_def
      split: if_splits option.splits prod.splits)

lemma take_request_wf:
  "take_request P se q rest = Some se' \<Longrightarrow> reading h se \<Longrightarrow> se_type se = Client \<Longrightarrow>
     reading h se' \<and> se_type se' = Client"
  by (auto simp: take_request_def reading_def session_wf_def)

lemma on_read_request_wf:
  assumes "reading h se" and "se_type se = Client" and rd: "on_read_request P H w se n = Some (d, se', ef)"
  shows "session_wf h se' \<and> (\<forall>e \<in> set ef. e = HttpClose h)"
proof (cases "ss_request (send_status se)")
  case (Some q)
  with rd have "request_round P H w se q n = Some (d, se', ef)" by (simp add: on_read_request_def)
  from request_round_wf [OF this assms(1,2)] show ?thesis by simp
next
  case None
  show ?thesis
  proof (cases "request_queue se")
    case Nil
    with None assms show ?thesis
      by (auto simp: on_read_request_def reading_def session_wf_def close_effect_def Let_def)
  next
    case (Cons q rest)
    with None rd obtain se1 q' where t: "take_request P se q rest = Some se1"
      and r: "request_round P H w se1 q' n = Some (d, se', ef)"
      by (auto simp: on_read_request_def split: option.splits)
    from take_request_wf [OF t assms(1,2)] have "reading h se1" "se_type se1 = Client" by simp_all
    from request_round_wf [OF r this] show ?thesis by simp
  qed
qed

lemma on_read_wf:
  assumes "reading h se" and "on_read P H w se n = Some (d, se', ef)"
  shows "session_wf h se' \<and> (\<forall>e \<in> set ef. e = HttpClose h)"
proof (cases "se_type se")
  case Server
  with assms(2) have "on_read_response P H w se n = Some (d, se', ef)" by (simp add: on_read_def)
  from on_read_response_wf [OF assms(1) Server this] show ?thesis .
next
  case Client
  with assms(2) have "on_read_request P H w se n = Some (d, se', ef)" by (simp add: on_read_def)
  from on_read_request_wf [OF assms(1) Client this] show ?thesis .
next
  case PeerNone
  with assms show ?thesis by (auto simp: on_read_def reading_def)
qed

lemma send_cb_once:
  "service_send_cb N b h (Some f) s = (ret, ef, out, s') \<Longrightarrow> s' = s \<or> (\<exists>n. s' = snd (f s n))"
  by (auto simp: service_send_cb_def async_send_cb_def Let_def split: option.splits if_splits prod.splits)
    (metis snd_conv)+

text \<open>The primitive changes keep \<open>http_ok\<close>.\<close>

lemma http_okD: "http_ok sv \<Longrightarrow> get_session sv h = Some se \<Longrightarrow> session_wf h se"
  by (simp add: http_ok_def)

lemma http_ok_cong:
  "http_ok sv \<Longrightarrow> session_map sv' = session_map sv \<Longrightarrow> service_ok (hs_base sv') \<Longrightarrow> http_ok sv'"
  by (simp add: http_ok_def get_session_def)

lemma http_ok_base:
  assumes "http_ok sv"
  shows "http_ok (log_chan ef sv)" and "http_ok (hs_fail f sv)" and "http_ok (snd (HnwBase_Close E sv h))"
    and "http_ok (snd (snd (HnwBase_Add_Channnel E sv t p h)))" and "http_ok (snd (HnwBase_SetEvntCB sv h ecb))"
    and "http_ok (snd (HnwBase_Config sv h ct data))" and "http_ok (snd (HnwBase_Accept sv h))"
    and "http_ok (snd (HnwBase_Connect E sv h p))"
proof -
  have b: "service_ok (hs_base sv)" using assms by (simp add: http_ok_def)
  show "http_ok (log_chan ef sv)" "http_ok (hs_fail f sv)"
    by (rule http_ok_cong [OF assms]; simp add: log_chan_def hs_fail_def b)+
  show "http_ok (snd (HnwBase_Close E sv h))"
    by (rule http_ok_cong [OF assms])
      (auto simp: HnwBase_Close_def log_chan_def dest: close_ok [OF b] split: prod.splits)
  show "http_ok (snd (snd (HnwBase_Add_Channnel E sv t p h)))"
    by (rule http_ok_cong [OF assms])
      (auto simp: HnwBase_Add_Channnel_def hs_fail_def b dest: add_channel_spec [OF b]
        split: prod.splits option.splits)
  show "http_ok (snd (HnwBase_SetEvntCB sv h ecb))"
    by (rule http_ok_cong [OF assms])
      (auto simp: HnwBase_SetEvntCB_def dest: set_event_cb_ok [OF b] split: prod.splits)
  show "http_ok (snd (HnwBase_Config sv h ct data))"
    by (rule http_ok_cong [OF assms]) (auto simp: HnwBase_Config_def dest: config_ok [OF b] split: prod.splits)
  show "http_ok (snd (HnwBase_Accept sv h))"
    by (rule http_ok_cong [OF assms])
      (auto simp: HnwBase_Accept_def log_chan_def Let_def dest: accept_ok [OF b] split: prod.splits)
  show "http_ok (snd (HnwBase_Connect E sv h p))"
    by (rule http_ok_cong [OF assms])
      (auto simp: HnwBase_Connect_def log_chan_def dest: connect_ok [OF b] split: prod.splits)
qed

lemma http_ok_store:
  "http_ok sv \<Longrightarrow> session_wf h se \<Longrightarrow> http_ok (store_session sv h (se, ecb))"
  by (auto simp: http_ok_def get_session_store sessions.ok_put split: if_splits)

lemma http_ok_update:
  assumes "http_ok sv" and "\<And>se. get_session sv h = Some se \<Longrightarrow> session_wf h (f se)"
  shows "http_ok (update_session sv h f)"
  using assms http_ok_store by (auto simp: update_session_store get_session_def split: option.splits)

lemma http_ok_del: "http_ok sv \<Longrightarrow> http_ok (del_session sv h)"
  by (auto simp: http_ok_def get_session_del sessions.ok_del split: if_splits)

lemma http_ok_add: "http_ok sv \<Longrightarrow> http_ok (snd (add_session E sv h type ecb))"
  by (simp add: add_session_store http_ok_store http_ok_base session_generate_wf)

lemma http_ok_closes: "http_ok sv \<Longrightarrow> http_ok (run_closes E sv efs)"
  unfolding run_closes_def
  by (induction efs arbitrary: sv) (auto intro: http_ok_base split: session_effect.splits)

lemma http_ok_send_cb:
  assumes "http_ok sv" and "reading h se"
  shows "http_ok (snd (HnwBase_Send_Cb E sv h se))"
proof -
  obtain ret ef out s where c: "service_send_cb (env_net E) (hs_base sv) h
      (Some (on_read_cb E (hs_world sv))) (Some (se, [])) = (ret, ef, out, s)"
    by (cases "service_send_cb (env_net E) (hs_base sv) h (Some (on_read_cb E (hs_world sv))) (Some (se, []))")
  have wf: "session_wf h se'" if "s = Some (se', cl)" for se' cl
    using send_cb_once [OF c] that assms(2)
    by (auto simp: on_read_cb_def reading_def dest: on_read_wf [OF assms(2)] split: option.splits)
  show ?thesis
    using wf by (auto simp: HnwBase_Send_Cb_def c intro!: http_ok_base http_ok_closes http_ok_update assms(1)
        split: option.splits)
qed

lemma http_ok_session_call:
  assumes "http_ok sv" and "get_session sv h = Some se"
    and "\<And>ret e se' ef. f ret = (e, se', ef) \<Longrightarrow> session_wf h se' \<and> (ef \<noteq> [] \<longrightarrow> send_flag se')"
  shows "http_ok (snd (session_call E sv h se f))"
proof -
  obtain e se' ef where f: "f HNW_BASE_OK = (e, se', ef)" by (cases "f HNW_BASE_OK")
  have wf: "session_wf h se'" "ef \<noteq> [] \<Longrightarrow> reading h se'"
    using assms(3) [OF f] by (simp_all add: reading_def)
  have h: "se_handle se = h" using http_okD [OF assms(1,2)] by (simp add: session_wf_def)
  have "http_ok (update_session sv h (\<lambda>_. se'))" by (rule http_ok_update) (simp_all add: assms(1) wf)
  with wf http_ok_send_cb [of _ h se' E] show ?thesis
    by (simp add: session_call_def f h case_prod_unfold Let_def)
qed

lemma start_send_wf:
  assumes "start_send ret se = (e, se', ef)" and "connect_flag se \<longrightarrow> session_wf h (se\<lparr>send_flag := True\<rparr>)"
    and "\<not> connect_flag se \<longrightarrow> session_wf h se"
  shows "session_wf h se' \<and> (ef \<noteq> [] \<longrightarrow> send_flag se')"
proof (cases "send_flag se")
  case True
  then have "se\<lparr>send_flag := True\<rparr> = se" by (cases se) simp
  with True assms show ?thesis by (cases "connect_flag se") (auto simp: start_send_def)
next
  case False
  with assms show ?thesis by (auto simp: start_send_def split: if_splits)
qed

lemma send_request_wf:
  assumes "session_wf h se" and "send_request ret se req = (e, se', ef)"
  shows "session_wf h se' \<and> (ef \<noteq> [] \<longrightarrow> send_flag se')"
proof (cases "req = None \<or> se_type se \<noteq> Client")
  case True
  with assms show ?thesis by (auto simp: send_request_def split: option.splits)
next
  case False
  then obtain q where q: "req = Some q" "se_type se = Client" by auto
  with assms(2) have s: "start_send ret (se\<lparr>request_queue := request_queue se @ [q]\<rparr>) = (e, se', ef)"
    by (simp add: send_request_def)
  show ?thesis by (rule start_send_wf [OF s]) (use assms(1) q in \<open>auto simp: session_wf_def\<close>)
qed

lemma send_response_wf:
  assumes "session_wf h se" and "send_response ret se res = (e, se', ef)"
  shows "session_wf h se' \<and> (ef \<noteq> [] \<longrightarrow> send_flag se')"
proof (cases "res = None \<or> se_type se \<noteq> Server")
  case True
  with assms show ?thesis by (auto simp: send_response_def split: option.splits)
next
  case False
  then obtain s where q: "res = Some s" "se_type se = Server" by auto
  with assms(2) have s: "start_send ret (se\<lparr>response_queue := response_queue se @ [s]\<rparr>) = (e, se', ef)"
    by (simp add: send_response_def)
  show ?thesis by (rule start_send_wf [OF s]) (use assms(1) q in \<open>auto simp: session_wf_def\<close>)
qed

lemma on_connect_establish_wf:
  assumes "session_wf h se" and "on_connect_establish ret se = (se', ef)"
  shows "session_wf h se' \<and> (ef \<noteq> [] \<longrightarrow> send_flag se')"
proof -
  obtain e where s: "start_send ret (se\<lparr>connect_flag := True\<rparr>) = (e, se', ef)"
    using assms(2) by (cases "start_send ret (se\<lparr>connect_flag := True\<rparr>)") (simp add: on_connect_establish_def)
  show ?thesis
    by (rule start_send_wf [OF s]) (use assms(1) in \<open>auto simp: session_wf_def split: PeerType.splits\<close>)
qed

subsection \<open>The interpretation\<close>

text \<open>What the application promises: its callbacks keep the invariant, as every operation does.\<close>

definition app_ok :: "('u, 'w) env \<Rightarrow> bool" where
  "app_ok E \<longleftrightarrow> (\<forall>sv. http_ok sv \<longrightarrow>
     (\<forall>u h ev. http_ok (snd (app_event E u h ev sv))) \<and>
     (\<forall>u st err. http_ok (app_status E u st err sv)) \<and>
     (\<forall>u r err. http_ok (app_response E u r err sv)) \<and>
     (\<forall>u url out rg pos err. http_ok (snd (app_download E u url out rg pos err sv))))"

lemma http_invariant_http_ok:
  assumes "app_ok E"
  shows "http_invariant E http_ok"
proof
  fix sv :: "('a, 'b) http_service" and h k v p and cb and type point data t
  assume ok: "http_ok sv"
  note base = http_ok_base [OF ok]
  show "http_ok (hs_fail f sv)" "http_ok (snd (HnwBase_Close E sv h))"
    "http_ok (snd (snd (HnwBase_Add_Channnel E sv type point h)))"
    "http_ok (snd (HnwBase_SetEvntCB sv h cb))" "http_ok (snd (HnwBase_Config sv h t data))"
    "http_ok (snd (HnwBase_Accept sv h))" "http_ok (snd (HnwBase_Connect E sv h point))" for f
    by (rule base)+
  show "http_ok (snd (add_session E sv h peer ecb))" for peer ecb by (rule http_ok_add [OF ok])
  show "http_ok (del_session sv h)" by (rule http_ok_del [OF ok])
  show "http_ok (update_session sv h (\<lambda>se. add_session_head se k v))"
    "http_ok (update_session sv h (set_parser p))"
    by (auto intro!: http_ok_update ok add_session_head_wf set_parser_wf dest: http_okD [OF ok])
  have "del_session (update_session sv h on_disconnect) h = del_session sv h"
  proof -
    have "omap_del (omap_put m h e) h = omap_del m h" for m :: "(int, session \<times> 'a event_callback option) omap" and e
      by (induction m) (auto simp: omap_del_def)
    then show ?thesis by (auto simp: del_session_def update_session_def split: option.splits)
  qed
  with http_ok_del [OF ok] show "http_ok (del_session (update_session sv h on_disconnect) h)" by simp
  show "http_ok (snd (session_call E sv h se (\<lambda>ret. send_request ret se req)))"
    if "get_session sv h = Some se" for se req
    by (rule http_ok_session_call [OF ok that]) (rule send_request_wf [OF http_okD [OF ok that]])
  show "http_ok (snd (session_call E sv h se (\<lambda>ret. send_response ret se res)))"
    if "get_session sv h = Some se" for se res
    by (rule http_ok_session_call [OF ok that]) (rule send_response_wf [OF http_okD [OF ok that]])
  show "http_ok (snd (session_call E sv h se (\<lambda>ret. (ret, on_connect_establish ret se))))"
    if "get_session sv h = Some se" for se
    by (rule http_ok_session_call [OF ok that])
      (use on_connect_establish_wf [OF http_okD [OF ok that]] in auto)
  show "http_ok (snd (HnwBase_Send_Cb E sv h se))" if "get_session sv h = Some se" "send_flag se" for se
    by (rule http_ok_send_cb [OF ok]) (use http_okD [OF ok that(1)] that(2) in \<open>simp add: reading_def\<close>)
  show "http_ok (sv\<lparr>hs_base := b\<rparr>)" if "service_step (env_net E) (hs_base sv) b" for b
    by (rule http_ok_cong [OF ok]) (use service_step_ok [OF that] ok in \<open>auto simp: http_ok_def\<close>)
  show "http_ok (sv\<lparr>hs_tasks := ts\<rparr>)" "http_ok (sv\<lparr>hs_held := hs\<rparr>)" "http_ok (sv\<lparr>hs_world := w\<rparr>)" for ts hs w
    by (rule http_ok_cong [OF ok]; use ok in \<open>simp add: http_ok_def\<close>)+
  show "http_ok (snd (app_event E u h ev sv))" "http_ok (app_status E u st err sv)"
    "http_ok (app_response E u r err sv)" "http_ok (snd (app_download E u url out rg pos err sv))"
    for u ev st err r url out rg pos
    using assms ok by (simp_all add: app_ok_def)
qed

text \<open>
  Under the application's promise \<open>http_ok\<close> is an invariant; without it nothing is claimed, so the
  interpretation needs no hypothesis.
\<close>

interpretation table: http_invariant E "\<lambda>sv. app_ok E \<longrightarrow> http_ok sv"
proof (cases "app_ok E")
  case True
  with http_invariant_http_ok [OF True] show "http_invariant E (\<lambda>sv. app_ok E \<longrightarrow> http_ok sv)" by simp
next
  case False
  then show "http_invariant E (\<lambda>sv. app_ok E \<longrightarrow> http_ok sv)" by unfold_locales simp_all
qed

lemma HttpService_new_ok: "http_ok (HttpService_new w)"
  by (simp add: http_ok_def HttpService_new_def Service_new_ok get_session_def)

lemma http_ok_reachable:
  "app_ok E \<Longrightarrow> (http_step E)\<^sup>*\<^sup>* (HttpService_new w) sv \<Longrightarrow> http_ok sv"
  using table.reachable [of E "HttpService_new w" sv] by (simp add: HttpService_new_ok)

text \<open>
  C10: In every state the HTTP service can reach, with callbacks of the application that use its
  operations: every session is filed under its own handle and has the parser of its kind, only a
  connected session sends, and a session whose send flag is clear has no message half sent and, when it
  is connected, none queued. A flag that is set does not say that the sending loop still runs: C40
  shows a loop that has ended with the flag set and requests queued. The channel table below stays
  well formed.
\<close>

theorem http_service_invariant:
  assumes "app_ok E" and "(http_step E)\<^sup>*\<^sup>* (HttpService_new w) sv" and "get_session sv h = Some se"
  shows "se_handle se = h \<and>
    (se_type se = Server \<longleftrightarrow> (\<exists>p. recv_parser se = ReqParser p)) \<and>
    (se_type se = Client \<longleftrightarrow> (\<exists>p. recv_parser se = RespParser p)) \<and>
    (send_flag se \<longrightarrow> connect_flag se) \<and>
    (\<not> send_flag se \<longrightarrow> ss_request (send_status se) = None \<and> ss_response (send_status se) = None) \<and>
    (connect_flag se \<and> \<not> send_flag se \<longrightarrow> request_queue se = [] \<and> response_queue se = []) \<and>
    service_ok (hs_base sv)"
proof -
  have ok: "http_ok sv" by (rule http_ok_reachable [OF assms(1,2)])
  from http_okD [OF ok assms(3)] ok show ?thesis
    by (cases "se_type se") (auto simp: session_wf_def http_ok_def)
qed

subsection \<open>A server that answers\<close>

text \<open>An application whose callback answers every request, as the examples of the library do.\<close>

definition answering_env :: "(nat, unit) env" where
  "answering_env = silent_env\<lparr>app_event := \<lambda>u h ev sv. case ev of
     RecvRequest q \<Rightarrow> (ev, snd (raw_response silent_env sv h ''200'' ''hi'' None))
   | _ \<Rightarrow> (ev, sv)\<rparr>"

lemma silent_env_ok: "app_ok silent_env"
  by (simp add: app_ok_def silent_env_def)

lemma answering_env_ok: "app_ok answering_env"
proof -
  have "http_ok sv \<Longrightarrow> http_ok (snd (raw_response silent_env sv h code data ext))" for sv h code data ext
    using table.raw_response [of silent_env sv] silent_env_ok by blast
  then show ?thesis
    by (simp add: app_ok_def answering_env_def silent_env_def split: http_event.split)
qed

definition listening :: "(nat, unit) http_service" where
  "listening = snd (snd (http_start answering_env (HttpService_new ())
     (HttpParam_new\<lparr>hp_host := ''http://10.0.0.1:80'', hp_peer_type := Server\<rparr>) (Some (UserEvent 1)) (-1)))"

lemma listening_session: "map_option se_type (get_session listening 0) = Some PeerNone"
  by code_simp

theorem http_service_invariant_witness:
  "\<exists>se. get_session listening 0 = Some se \<and> se_handle se = 0 \<and> se_type se = PeerNone \<and> service_ok (hs_base listening)"
proof -
  obtain se where se: "get_session listening 0 = Some se" "se_type se = PeerNone"
    using listening_session by auto
  have "(http_step answering_env)\<^sup>*\<^sup>* (HttpService_new ()) listening"
    unfolding listening_def by (rule r_into_rtranclp) (rule step_start)
  from http_service_invariant [OF answering_env_ok this se(1)] se show ?thesis by auto
qed

end
