(* ===== verification/Http_Contract.thy ===== *)
theory Http_Contract
  imports Http_Invariant
begin

section \<open>What the operations of the HTTP service promise\<close>

text \<open>
  Starting a client, accepting a connection, the events that end a session, and sending a
  response, each from any state in which the invariant holds.
\<close>

subsection \<open>The base service below\<close>

lemma omap_put_put: "omap_put (omap_put m k v) k w = omap_put m k w"
  by (induction m) auto

lemma add_channel_tcp_client:
  assumes "service_ok b"
  shows "add_channel N b TCP_CLIENT local =
    Some (HNW_BASE_OK, b\<lparr>g_handle := g_handle b + 1,
      channel_map := omap_put (channel_map b) (g_handle b + 1)
        (channel_setup b (Channel_new TCP_CLIENT (g_handle b + 1)))\<rparr>, Some (g_handle b + 1))"
  using assms
  by (auto simp: add_channel_def supported_type_def generate_handle_def channel_setup_eq channel_init_def
      tcp_client_init_def HNW_INVALID_HANDLE_def add_channel_to_map_def service_ok_def Let_def)

text \<open>A connection that can be written to, and one round of the sending loop on it.\<close>

definition ready :: "net \<Rightarrow> 'c service \<Rightarrow> int \<Rightarrow> 'c channel \<Rightarrow> bool" where
  "ready N b h ch \<longleftrightarrow> get_channel b h = Some ch \<and> ch_type ch = TCP_CLIENT \<and> can_send (get_cache N b) ch"

lemma service_send_cb_ready:
  assumes "ready N b h ch" and "f s (unat (ch_send_buff_size ch)) = (d, s')"
    and "length d \<le> unat (ch_send_buff_size ch)"
  shows "\<exists>ef out. service_send_cb N b h (Some f) s = (HNW_BASE_OK, ef, out, s') \<and> written ef = d \<and>
    (d = [] \<longrightarrow> ef = [])"
proof -
  have n: "unat (ch_send_buff_size ch) < 2 ^ 63" using assms(1) by (simp add: ready_def can_send_def)
  have u: "unat (of_nat (length d) :: u64) = length d"
    by (rule unat_of_nat_u64) (use assms(3) n in simp)
  then have z: "(of_nat (length d) :: u64) = 0 \<longleftrightarrow> d = []"
    by (metis length_0_conv unat_0 unat_eq_zero)
  show ?thesis
    using assms z u
    by (auto simp: ready_def can_send_def service_send_cb_def async_send_cb_def async_send_def written_def
        chan_add_timer_def Let_def)
qed

lemma ready_same:
  "channel_map b = channel_map b' \<Longrightarrow> sv_make_shared b = sv_make_shared b' \<Longrightarrow> ready N b h ch = ready N b' h ch"
  by (simp add: ready_def get_channel_def get_cache_def [abs_def])

lemma omap_put_same: "omap_ok m \<Longrightarrow> omap_get m k = Some v \<Longrightarrow> omap_put m k v = m"
  by (rule omap_eqI) (auto simp: omap_put_ok omap_get_put)

text \<open>The selectors a TCP client does not know change nothing.\<close>

lemma config_unknown:
  assumes "service_ok (hs_base sv)" and "get_channel (hs_base sv) h = Some ch" and "ch_type ch = TCP_CLIENT"
  shows "snd (HnwBase_Config sv h SET_SERVER_ACCEPT_NUM data) = sv"
proof -
  have "config_virtual SET_SERVER_ACCEPT_NUM data ch = (HNW_BASE_NO_SUPPORT, ch, data)"
    using assms(3) by (auto simp: config_virtual_def channel_config_def)
  moreover have "h \<noteq> HNW_INVALID_HANDLE"
    using service_okD [OF assms(1,2)] by (simp add: HNW_INVALID_HANDLE_def)
  moreover have "store_channel (hs_base sv) h ch = hs_base sv"
    using assms(1,2) omap_put_same [of "channel_map (hs_base sv)" h ch]
    by (simp add: store_channel_def get_channel_def service_ok_def)
  ultimately show ?thesis using assms(2) by (simp add: HnwBase_Config_def service_config_def)
qed

lemma start_config_client:
  assumes "service_ok (hs_base sv)" and "get_channel (hs_base sv) h = Some ch" and "ch_type ch = TCP_CLIENT"
  shows "start_config E sv param h = sv"
proof -
  have path: "\<exists>err. service_config_path (env_net E) (hs_base sv) h t path = Some err" for t path
    using assms(2,3) by (auto simp: service_config_path_def)
  have "config_path E sv h t path = sv" for t path
    using path [of t path] by (auto simp: config_path_def)
  with config_unknown [OF assms] show ?thesis by (simp add: start_config_def Let_def)
qed

subsection \<open>Starting a client\<close>

definition client_session :: "int \<Rightarrow> string \<Rightarrow> session" where
  "client_session h host = add_session_head (session_generate h Client) HTTP_HOST host"

text \<open>
  C11: Starting an HTTP client makes a channel under a handle no channel has and a client session for it
  that names the host of the URL, and nothing else in the tables changes. When the endpoint
  is usable, the connection is on its way and the events of the channel go to the session's
  callback. When it is not, the call fails and the channel is closed again, but the session
  stays in the table, under a handle no event will come for.
\<close>

theorem start_client:
  assumes "http_ok sv" and "env_alloc E" and "hp_peer_type param = Client"
    and "u = snd (parser_url (hp_host param) UrlParam_empty)" and "url_protocol u = [] \<or> url_protocol u = ''http''"
    and "point = choose_point E u" and "point \<noteq> NET_INVALID_POINT"
    and "h = g_handle (hs_base sv) + 1"
    and "http_start E sv param cb old = (ret, h', sv')"
  shows "h' = h \<and> get_channel (hs_base sv) h = None \<and> get_session sv' h = Some (client_session h (url_host u)) \<and>
    (\<forall>k. k \<noteq> h \<longrightarrow> get_session sv' k = get_session sv k \<and>
       get_channel (hs_base sv') k = get_channel (hs_base sv) k) \<and>
    (if check_endpoint point \<and> net_address (env_net E) (np_ip point)
     then ret = HNW_BASE_OK \<and>
       (\<exists>ch. get_channel (hs_base sv') h = Some ch \<and> ch_event_cb ch = Some (Some (BindSp cb))) \<and>
       hs_log sv' = hs_log sv @ [Chan (AsyncConnect (np_ip point) (word_of_int (np_port point)))]
     else ret \<noteq> HNW_BASE_OK \<and> get_channel (hs_base sv') h = None)"
proof -
  let ?b = "hs_base sv" and ?N = "env_net E"
  define ch where "ch = (channel_setup ?b (Channel_new TCP_CLIENT h))\<lparr>ch_event_cb := Some (Some (BindSp cb))\<rparr>"
  define b where "b = ?b\<lparr>g_handle := h, channel_map := omap_put (channel_map ?b) h ch\<rparr>"
  define sv1 where "sv1 = store_session (sv\<lparr>hs_base := b\<rparr>) h (client_session h (url_host u), cb)"
  have ok: "service_ok ?b" "omap_ok (session_map sv)" using assms(1) by (simp_all add: http_ok_def)
  have chp: "ch_type ch = TCP_CLIENT" "\<not> bconn ch" "connect_time_out_ms ch = 0"
    using ok(1) by (simp_all add: ch_def channel_setup_eq service_ok_def) (simp add: Channel_new_def)
  have add: "HnwBase_Add_Channnel E sv TCP_CLIENT point old = (HNW_BASE_OK, h,
      sv\<lparr>hs_base := ?b\<lparr>g_handle := h, channel_map := omap_put (channel_map ?b) h
        (channel_setup ?b (Channel_new TCP_CLIENT h))\<rparr>\<rparr>)" (is "_ = (_, _, ?s0)")
    by (simp add: HnwBase_Add_Channnel_def add_channel_tcp_client [OF ok(1)] assms(8))
  have gc: "get_channel b k = (if k = h then Some ch else get_channel ?b k)" for k
    by (simp add: b_def get_channel_def omap_get_put)
  have set: "snd (HnwBase_SetEvntCB ?s0 h (Some (BindSp cb))) = sv\<lparr>hs_base := b\<rparr>"
    by (simp add: HnwBase_SetEvntCB_def service_set_event_cb_def get_channel_def omap_get_put store_channel_def
        omap_put_put b_def ch_def)
  then have session: "add_session E ?s0 h Client cb =
      (True, store_session (sv\<lparr>hs_base := b\<rparr>) h (session_generate h Client, cb))"
    using assms(2) by (simp add: add_session_store)
  have head: "update_session (store_session (sv\<lparr>hs_base := b\<rparr>) h (session_generate h Client, cb)) h
      (\<lambda>se. add_session_head se HTTP_HOST (url_host u)) = sv1"
    by (simp add: update_session_def store_session_def omap_get_put omap_put_put sv1_def client_session_def)
  have s0: "http_ok ?s0"
    using http_ok_base(4) [OF assms(1), of E TCP_CLIENT point old] by (simp add: add)
  have b_ok: "service_ok b"
    using http_ok_base(5) [OF s0, of h "Some (BindSp cb)"] by (simp add: set http_ok_def)
  have base1: "hs_base sv1 = b" "hs_log sv1 = hs_log sv" by (simp_all add: sv1_def store_session_def)
  have config: "start_config E sv1 param h = sv1"
    by (rule start_config_client [where ch = ch]) (simp_all add: base1 b_ok gc chp)
  have point: "\<not> NetPoint_eq NET_INVALID_POINT point" using assms(7) by (simp add: NetPoint_eq_iff)
  have type: "get_base_channel_type (url_protocol u) Client TCP_SERVER = (HNW_BASE_OK, TCP_CLIENT)"
    using assms(5) by (auto simp: get_base_channel_type_def)
  have run: "http_start E sv param cb old =
      (let (ret, s) = HnwBase_Connect E sv1 h point
       in if ret \<noteq> HNW_BASE_OK then (ret, h, snd (HnwBase_Close E s h)) else (ret, h, s))"
    by (simp add: http_start_def assms(3) assms(4) [symmetric] assms(6) [symmetric] type point add session
        head config)
  have same: "store_channel b h ch = b"
    using b_ok omap_put_same [of "channel_map b" h ch] gc [of h]
    by (simp add: store_channel_def get_channel_def service_ok_def)
  let ?usable = "check_endpoint point \<and> net_address ?N (np_ip point)"
  have connect: "HnwBase_Connect E sv1 h point =
      (if ?usable then (HNW_BASE_OK, log_chan [AsyncConnect (np_ip point) (word_of_int (np_port point))] sv1)
       else (if check_endpoint point then HNW_BASE_BIND_ADDRESS_FAIL else HNW_BASE_ADDRESS_ENDPOINT_ERROR, sv1))"
    using chp
    by (auto simp: HnwBase_Connect_def base1 service_connect_def gc channel_connect_def tcp_client_connect_def
        chan_add_timer_def same log_chan_def sv1_def store_session_def)
  have closed: "get_channel (hs_base (snd (HnwBase_Close E sv1 h))) k = (if k = h then None else get_channel ?b k)" for k
    using chp by (simp add: HnwBase_Close_def base1 service_close_def gc channel_close_def tcp_client_close_def
        log_chan_def get_channel_del)
  have none: "get_channel ?b h = None"
    using service_okD [OF ok(1), of h] assms(8) by (cases "get_channel ?b h") auto
  have get: "get_session sv1 k = (if k = h then Some (client_session h (url_host u)) else get_session sv k)" for k
    using ok(2) by (simp add: sv1_def get_session_def store_session_def omap_get_put)
  have maps: "get_session (log_chan ef s) k = get_session s k" "get_session (snd (HnwBase_Close E s h)) k = get_session s k"
    for ef s k by (simp_all add: get_session_def)
  show ?thesis
  proof (cases ?usable)
    case True
    with assms(9) have e: "h' = h" "ret = HNW_BASE_OK"
      "sv' = log_chan [AsyncConnect (np_ip point) (word_of_int (np_port point))] sv1"
      by (simp_all add: run connect)
    show ?thesis
      unfolding e using True none by (simp add: maps get) (simp add: log_chan_def base1 gc ch_def)
  next
    case False
    with assms(9) have e: "h' = h" "ret \<noteq> HNW_BASE_OK" "sv' = snd (HnwBase_Close E sv1 h)"
      by (auto simp: run connect split: if_splits)
    show ?thesis unfolding e(1,3) using False none e(2) by (auto simp: maps get closed)
  qed
qed

theorem start_client_witness:
  "\<exists>sv'. http_start silent_env (HttpService_new ())
       (HttpParam_new\<lparr>hp_host := ''http://a/x'', hp_peer_type := Client\<rparr>) (Some (UserEvent 3)) 9 =
       (HNW_BASE_OK, 0, sv') \<and>
     get_session sv' 0 = Some (client_session 0 ''a'') \<and> hs_log sv' = [Chan (AsyncConnect ''10.0.0.1'' 80)]"
proof -
  let ?p = "HttpParam_new\<lparr>hp_host := ''http://a/x'', hp_peer_type := Client\<rparr>"
  let ?u = "\<lparr>url_protocol = ''http'', url_host = ''a'', url_port = [], url_path = ''/x'', url_query_string = []\<rparr>"
  let ?pt = "\<lparr>np_ip = ''10.0.0.1'', np_port = 80\<rparr>"
  obtain ret h' sv' where s: "http_start silent_env (HttpService_new ()) ?p (Some (UserEvent 3)) 9 = (ret, h', sv')"
    by (cases "http_start silent_env (HttpService_new ()) ?p (Some (UserEvent 3)) 9")
  have e: "env_alloc silent_env" "net_address (env_net silent_env) ip" for ip
    by (simp_all add: silent_env_def net1_def)
  have u: "?u = snd (parser_url (hp_host ?p) UrlParam_empty)" by code_simp
  have pt: "?pt = choose_point silent_env ?u" by (simp add: choose_point_def silent_env_def)
  have h: "(0::int) = g_handle (hs_base (HttpService_new ())) + 1"
    by (simp add: HttpService_new_def Service_new_def HNW_INVALID_HANDLE_def)
  have "?pt \<noteq> NET_INVALID_POINT" "hp_peer_type ?p = Client" "url_protocol ?u = [] \<or> url_protocol ?u = ''http''"
    by (simp_all add: NET_INVALID_POINT_def)
  note r = start_client [OF HttpService_new_ok e(1) this(2) u this(3) pt this(1) h s]
  have "check_endpoint ?pt \<and> net_address (env_net silent_env) (np_ip ?pt)"
    by (simp add: check_endpoint_def e)
  with r have "h' = 0 \<and> ret = HNW_BASE_OK \<and> get_session sv' 0 = Some (client_session 0 (url_host ?u)) \<and>
      hs_log sv' = hs_log (HttpService_new () :: (nat, unit) http_service) @
        [Chan (AsyncConnect (np_ip ?pt) (word_of_int (np_port ?pt)))]"
    by presburger
  with s show ?thesis by (simp add: HttpService_new_def)
qed

subsection \<open>Events\<close>

text \<open>
  C13: An event for a handle that has no session closes the channel of that handle and reaches no
  callback; the event that a connection has ended removes its session before the application
  hears of it. Other sessions are not touched.
\<close>

theorem events_end_sessions:
  assumes "http_ok sv"
  shows "(get_session sv h = None \<longrightarrow>
      (\<exists>sv1. event_cb E cb h ev sv = (ev, sv1) \<and> (\<forall>k. get_session sv1 k = get_session sv k) \<and>
        get_channel (hs_base sv1) h = None)) \<and>
    (get_session sv h \<noteq> None \<longrightarrow>
      (\<exists>sv1. event_cb E cb h (BaseEvent EvClosed) sv = call_event_cb E cb h (BaseEvent EvClosed) sv1 \<and>
        (\<forall>k. get_session sv1 k = (if k = h then None else get_session sv k))))"
proof (intro conjI impI)
  have ok: "omap_ok (session_map sv)" using assms by (simp add: http_ok_def)
  assume n: "get_session sv h = None"
  let ?s = "snd (HnwBase_Close E sv h)"
  have "get_channel (hs_base ?s) h = None"
    by (auto simp: HnwBase_Close_def log_chan_def service_close_def get_channel_del split: option.splits prod.splits)
  moreover have "get_session (del_session ?s h) k = get_session sv k" for k
    using ok n by (subst get_session_del) (auto simp: get_session_def)
  ultimately show "\<exists>sv1. event_cb E cb h ev sv = (ev, sv1) \<and> (\<forall>k. get_session sv1 k = get_session sv k) \<and>
      get_channel (hs_base sv1) h = None"
    using n by (simp add: event_cb_def event_cb_with_def)
next
  have ok: "omap_ok (session_map sv)" using assms by (simp add: http_ok_def)
  assume "get_session sv h \<noteq> None"
  then have "event_cb E cb h (BaseEvent EvClosed) sv = call_event_cb E cb h (BaseEvent EvClosed)
      (del_session (update_session sv h on_disconnect) h)"
    by (auto simp: event_cb_def event_cb_with_def)
  moreover have "get_session (del_session (update_session sv h on_disconnect) h) k =
      (if k = h then None else get_session sv k)" for k
    using ok by (simp add: get_session_del update_session_ok get_session_update)
  ultimately show "\<exists>sv1. event_cb E cb h (BaseEvent EvClosed) sv = call_event_cb E cb h (BaseEvent EvClosed) sv1 \<and>
      (\<forall>k. get_session sv1 k = (if k = h then None else get_session sv k))"
    by blast
qed

theorem events_end_sessions_witness:
  "\<exists>sv1. event_cb silent_env None 4 (BaseEvent (EvRecvData ''x'')) (HttpService_new ()) =
     (BaseEvent (EvRecvData ''x''), sv1) \<and> get_channel (hs_base sv1) 4 = None"
  using events_end_sessions [OF HttpService_new_ok [of "()"], of 4 silent_env None "BaseEvent (EvRecvData ''x'')"]
  by (auto simp: get_session_def HttpService_new_def)

text \<open>A session whose loop is started: one round of reading.\<close>

lemma HnwBase_Send_Cb_ready:
  assumes "ready (env_net E) (hs_base sv) h ch"
    and "on_read (env_platform E) (env_host E) (hs_world sv) se (unat (ch_send_buff_size ch)) = Some (d, se', [])"
    and "length d \<le> unat (ch_send_buff_size ch)"
  shows "\<exists>ef. HnwBase_Send_Cb E sv h se = (HNW_BASE_OK, log_chan ef (update_session sv h (\<lambda>_. se'))) \<and>
    written ef = d \<and> (d = [] \<longrightarrow> ef = [])"
proof -
  have "on_read_cb E (hs_world sv) (Some (se, [])) (unat (ch_send_buff_size ch)) = (d, Some (se', []))"
    using assms(2) by (simp add: on_read_cb_def)
  from service_send_cb_ready [where f = "on_read_cb E (hs_world sv)" and s = "Some (se, [])",
      OF assms(1) this assms(3)]
  show ?thesis
    by (auto simp: HnwBase_Send_Cb_def run_closes_def)
qed

text \<open>
  C12: A connection that is accepted gets a server session of its own, connected, with an empty queue
  and idle, and its channel's events and its parser's go to the callback of the server it was
  accepted on, which hears of it when all this is done.
\<close>

theorem accepted_session:
  assumes "http_ok sv" and "get_session sv h \<noteq> None" and "env_alloc E"
    and "ready (env_net E) (hs_base sv) c ch"
  shows "\<exists>sv1. event_cb E cb h (BaseEvent (EvAccept c)) sv = call_event_cb E cb h (BaseEvent (EvAccept c)) sv1 \<and>
    get_session sv1 c = Some ((session_generate c Server)\<lparr>connect_flag := True\<rparr>) \<and>
    (\<forall>k. k \<noteq> c \<longrightarrow> get_session sv1 k = get_session sv k) \<and> session_cb sv1 c = cb \<and>
    get_channel (hs_base sv1) c = Some (ch\<lparr>ch_event_cb := Some (Some (BindSp cb))\<rparr>)"
proof -
  let ?P = "env_platform E" and ?H = "env_host E" and ?w = "hs_world sv"
  let ?se = "session_generate c Server"
  let ?se1 = "?se\<lparr>connect_flag := True, send_flag := True\<rparr>"
  let ?s0 = "snd (HnwBase_SetEvntCB sv c (Some (BindSp cb)))"
  let ?s1 = "store_session ?s0 c (?se, cb)"
  let ?ch = "ch\<lparr>ch_event_cb := Some (Some (BindSp cb))\<rparr>"
  have ok: "omap_ok (session_map sv)" using assms(1) by (simp add: http_ok_def)
  have gc: "get_channel (hs_base sv) c = Some ch" using assms(4) by (simp add: ready_def)
  have b0: "hs_base ?s0 = store_channel (hs_base sv) c ?ch" "hs_world ?s0 = ?w"
    by (simp_all add: HnwBase_SetEvntCB_def service_set_event_cb_def gc)
  have ready: "ready (env_net E) (hs_base (update_session ?s1 c f)) c ?ch" for f
    using assms(4) by (simp add: b0 ready_def get_channel_store can_send_def get_cache_def)
      (simp add: store_channel_def gc)
  have gen: "send_flag ?se = False" "se_type ?se = Server" "se_handle ?se = c" "response_queue ?se = []"
    "ss_response (send_status ?se) = None" "close_after_send_flag ?se = False"
    by (simp_all add: session_generate_def add_session_head_def SendStaus_new_def Let_def)
  have f: "on_connect_establish r ?se = (?se1, [SendCb c])" for r
    by (simp add: on_connect_establish_def start_send_def gen)
  have "on_read ?P ?H ?w ?se1 n = Some ([], ?se1\<lparr>send_flag := False\<rparr>, [])" for n
    by (simp add: on_read_def gen on_read_response.simps [of ?P ?H ?w ?se1 n] close_effect_def Let_def)
  moreover have "?se1\<lparr>send_flag := False\<rparr> = ?se\<lparr>connect_flag := True\<rparr>"
    using gen(1) by (cases ?se) simp
  ultimately have rd: "on_read ?P ?H (hs_world (update_session ?s1 c f)) ?se1 n = Some ([], ?se\<lparr>connect_flag := True\<rparr>, [])" for n f
    by (simp add: b0 store_session_def)
  have se1: "get_session ?s1 c = Some ?se" using ok by (simp add: get_session_store)
  let ?s2 = "update_session (update_session ?s1 c (\<lambda>_. ?se1)) c (\<lambda>_. ?se\<lparr>connect_flag := True\<rparr>)"
  have ok1: "omap_ok (session_map ?s1)" using ok by (simp add: sessions.ok_put)
  have "snd (HnwBase_Send_Cb E (update_session ?s1 c (\<lambda>_. ?se1)) c ?se1) = ?s2"
    using HnwBase_Send_Cb_ready [OF ready rd] by (auto simp: log_chan_def)
  then have est: "session_established E c ?s1 = ?s2"
    by (simp add: session_established_def se1 session_call_def f gen case_prod_unfold Let_def)
  have "event_cb E cb h (BaseEvent (EvAccept c)) sv = call_event_cb E cb h (BaseEvent (EvAccept c)) ?s2"
    using assms(2,3) by (auto simp: event_cb_def event_cb_with_def add_session_store est)
  moreover have "get_session ?s2 k = (if k = c then Some (?se\<lparr>connect_flag := True\<rparr>) else get_session sv k)" for k
    using ok1 ok by (simp add: get_session_update update_session_ok get_session_store) (simp add: get_session_def)
  moreover have "session_cb ?s2 c = cb"
    by (simp add: session_cb_def update_session_def store_session_def omap_get_put)
  moreover have "get_channel (hs_base ?s2) c = Some ?ch"
    by (simp add: b0 get_channel_store gc)
  ultimately show ?thesis by auto
qed

definition sample_http_service :: "PeerType \<Rightarrow> bool \<Rightarrow> (nat, unit) http_service" where
  "sample_http_service type connected = (HttpService_new ())\<lparr>
     hs_base := Service_new\<lparr>channel_map := [(5, (Channel_new TCP_CLIENT 5)\<lparr>ch_make_shared := True, bconn := True\<rparr>)],
       g_handle := 5\<rparr>,
     session_map := [(5, (session_generate 5 type)\<lparr>connect_flag := connected\<rparr>, None)]\<rparr>"

lemma sample_http_service_channel:
  "get_channel (hs_base (sample_http_service type conn)) h =
     (if h = 5 then Some ((Channel_new TCP_CLIENT 5)\<lparr>ch_make_shared := True, bconn := True\<rparr>) else None)"
  by (simp add: sample_http_service_def get_channel_def omap_get_def)

lemma sample_http_service_session:
  "get_session (sample_http_service type conn) h =
     (if h = 5 then Some ((session_generate 5 type)\<lparr>connect_flag := conn\<rparr>) else None)"
  by (simp add: sample_http_service_def get_session_def omap_get_def)

lemma sample_http_service_ok: "http_ok (sample_http_service type conn)"
proof -
  have "service_ok (hs_base (sample_http_service type conn))"
    by (auto simp: service_ok_def sample_http_service_channel chan_ok_def supported_type_def)
      (simp_all add: sample_http_service_def omap_ok_def Channel_new_def Service_new_def
        default_recv_buff_size_def default_send_buff_size_def default_accept_num_def)
  moreover have "session_wf 5 ((session_generate 5 type)\<lparr>connect_flag := conn\<rparr>)"
    by (cases type)
      (simp_all add: session_wf_def session_generate_def add_session_head_def SendStaus_new_def Let_def)
  ultimately show ?thesis
    by (simp add: http_ok_def sample_http_service_session)
      (simp add: sample_http_service_def omap_ok_def)
qed

lemma sample_http_service_ready:
  "ready net1 (hs_base (sample_http_service type conn)) 5
     ((Channel_new TCP_CLIENT 5)\<lparr>ch_make_shared := True, bconn := True\<rparr>)"
  by (simp add: ready_def sample_http_service_channel can_send_def get_cache_def net1_def Channel_new_def
      default_send_buff_size_def)
    (simp add: sample_http_service_def Service_new_def)

theorem accepted_session_witness:
  "\<exists>sv1. event_cb silent_env None 5 (BaseEvent (EvAccept 5)) (sample_http_service PeerNone False) =
      call_event_cb silent_env None 5 (BaseEvent (EvAccept 5)) sv1 \<and>
    get_session sv1 5 = Some ((session_generate 5 Server)\<lparr>connect_flag := True\<rparr>)"
proof -
  have r: "ready (env_net silent_env) (hs_base (sample_http_service PeerNone False)) 5
     ((Channel_new TCP_CLIENT 5)\<lparr>ch_make_shared := True, bconn := True\<rparr>)"
    using sample_http_service_ready by (simp add: silent_env_def)
  have "env_alloc silent_env" by (simp add: silent_env_def)
  from accepted_session [OF sample_http_service_ok _ this r, of 5 None] show ?thesis
    by (auto simp: sample_http_service_session)
qed

subsection \<open>Answering a request\<close>

lemma on_read_response_effects:
  "on_read_response P H w se n = Some (d, se', ef) \<Longrightarrow> d \<noteq> [] \<Longrightarrow> ef = []"
proof (induction P H w se n rule: on_read_response.induct)
  case (1 P H w se n)
  have ret: "response_round P H w se s n = Some (Return d' s' e) \<Longrightarrow> e = []" for s d' s' e
    by (auto simp: response_round_def move_cache_def Let_def split: if_splits option.splits prod.splits)
  show ?case
  proof (cases "ss_response (send_status se)")
    case None
    with 1 show ?thesis
      by (auto simp: on_read_response.simps [of P H w se n] Let_def split: list.splits option.splits)
  next
    case (Some s)
    with 1 ret show ?thesis
      by (auto simp: on_read_response.simps [of P H w se n] split: option.splits read_round.splits)
  qed
qed

text \<open>The message of \<open>raw_response\<close>.\<close>

definition raw_reply :: "platform \<Rightarrow> string \<Rightarrow> string \<Rightarrow> heads option \<Rightarrow> HttpResponse" where
  "raw_reply P code data ext = \<lparr>rs_line = status_code ResponseLine_default code, rs_head = merge P [] ext True,
     rs_body = Some ((raw_body_of \<lparr>raw_body = data, maximum_capacity = 0, increment = True\<rparr>)
       \<lparr>bd_write_pos := of_nat (length data)\<rparr>)\<rparr>"

lemma raw_response_reply:
  "env_alloc E \<Longrightarrow> raw_response E sv h code data ext =
     HnwHttp_Response E sv h (Some (raw_reply (env_platform E) code data ext))"
  by (simp add: raw_response_def HnwHttp_GenerateResponse_def raw_message_body_def write_body_def
      write_body_cb_def raw_body_of_def base_body_def raw_generate_auto_def raw_write_body_cb_def raw_body_size_def
      HttpResponse_new_def raw_reply_def Let_def)

lemma raw_reply_ok: "length data < 2 ^ 63 \<Longrightarrow> response_body_ok H w cont (raw_reply P code data ext)"
  by (simp add: response_body_ok_def raw_reply_def body_ok_def body_content_def raw_body_of_def base_body_def)

lemma get_session_log: "get_session (log_chan ef s) k = get_session s k"
  by (simp add: get_session_def)

text \<open>The first block a server session hands out, when it has anything to hand out.\<close>

lemma response_first_block:
  assumes "session_ok H w cont se" and "0 < n" and "n < 2 ^ 63" and "se_type se = Server"
    and "session_pending P cont se \<noteq> []"
  obtains d se' where "on_read P H w se n = Some (d, se', [])" and "length d \<le> n"
    and "session_ok H w cont se'" and "session_pending P cont se = d @ session_pending P cont se'"
proof -
  from on_read_response_spec [OF assms(1-3), of P] obtain d se' ef where
    r: "on_read_response P H w se n = Some (d, se', ef)" "length d \<le> n" "session_ok H w cont se'"
      "session_pending P cont se = d @ session_pending P cont se'" "d \<noteq> []"
    using assms(5) by blast
  have "ef = []" by (rule on_read_response_effects [OF r(1,5)])
  with r(1) assms(4) have "on_read P H w se n = Some (d, se', [])" by (simp add: on_read_def)
  then show ?thesis by (rule that [OF _ r(2-4)])
qed

text \<open>
  \<open>HnwHttp_Response\<close> on a connected server session. While the sending loop runs, the message is only
  queued; otherwise the call starts the loop, which writes the first block.
\<close>

definition appended :: "session \<Rightarrow> HttpResponse \<Rightarrow> bool \<Rightarrow> session" where
  "appended se m f = se\<lparr>response_queue := response_queue se @ [m], send_flag := f\<rparr>"

lemma appended_simps [simp]:
  "send_flag (appended se m f) = f" "connect_flag (appended se m f) = connect_flag se"
  "se_type (appended se m f) = se_type se" "se_handle (appended se m f) = se_handle se"
  by (simp_all add: appended_def)

lemma appended_pending:
  "session_pending P cont (appended se m f) = session_pending P cont se @ queued_text P cont (session_head se) m"
  by (simp add: appended_def session_pending_def)

lemma appended_ok:
  "session_ok H w cont se \<Longrightarrow> response_body_ok H w cont m \<Longrightarrow> session_ok H w cont (appended se m f)"
  by (auto simp: appended_def session_ok_def)

lemma appended_same: "send_flag se \<Longrightarrow> se\<lparr>response_queue := response_queue se @ [m]\<rparr> = appended se m True"
  by (cases se) (simp add: appended_def)

lemma response_queued:
  assumes "get_session sv h = Some se" and "se_type se = Server" and "send_flag se"
  shows "HnwHttp_Response E sv h (Some m) = (HNW_BASE_OK, update_session sv h (\<lambda>_. appended se m True))"
  using assms by (simp add: HnwHttp_Response_def send_response_def session_call_def start_send_def appended_same)

text \<open>The first round of the sending loop of a session that was idle.\<close>

lemma first_round:
  assumes "http_ok sv" and "get_session sv h = Some se" and "ready (env_net E) (hs_base sv) h ch"
    and "on_read (env_platform E) (env_host E) (hs_world sv) se1 (unat (ch_send_buff_size ch)) = Some (d, se', [])"
    and "length d \<le> unat (ch_send_buff_size ch)"
  shows "\<exists>sv' ef. HnwBase_Send_Cb E (update_session sv h (\<lambda>_. se1)) h se1 = (HNW_BASE_OK, sv') \<and> written ef = d \<and>
    (\<forall>k. get_session sv' k = (if k = h then Some se' else get_session sv k)) \<and>
    hs_world sv' = hs_world sv \<and> hs_log sv' = hs_log sv @ map Chan ef"
proof -
  let ?s1 = "update_session sv h (\<lambda>_. se1)"
  have ok: "omap_ok (session_map sv)" using assms(1) by (simp add: http_ok_def)
  have ready: "ready (env_net E) (hs_base ?s1) h ch" using assms(3) by simp
  have rd: "on_read (env_platform E) (env_host E) (hs_world ?s1) se1 (unat (ch_send_buff_size ch)) = Some (d, se', [])"
    using assms(4) by simp
  from HnwBase_Send_Cb_ready [OF ready rd assms(5)] obtain ef where
    "HnwBase_Send_Cb E ?s1 h se1 = (HNW_BASE_OK, log_chan ef (update_session ?s1 h (\<lambda>_. se')))" "written ef = d"
    by blast
  moreover have "get_session (log_chan ef (update_session ?s1 h (\<lambda>_. se'))) k =
      (if k = h then Some se' else get_session sv k)" for k
    using get_session_update [OF update_session_ok [OF ok]] get_session_update [OF ok] assms(2)
    by (simp add: get_session_log)
  ultimately show ?thesis
    by (intro exI [of _ "log_chan ef (update_session ?s1 h (\<lambda>_. se'))"] exI [of _ ef]) (simp add: log_chan_def)
qed

definition sends_message ::
  "('u, 'w) env \<Rightarrow> (string \<Rightarrow> string) \<Rightarrow> ('u, 'w) http_service \<Rightarrow> int \<Rightarrow> session \<Rightarrow> HttpResponse \<Rightarrow>
     ('u, 'w) http_service \<Rightarrow> session \<Rightarrow> 'u sp_cb chan_effect list \<Rightarrow> bool" where
  "sends_message E cont sv h se m sv' se' ef \<longleftrightarrow>
     get_session sv' h = Some se' \<and> session_ok (env_host E) (hs_world sv') cont se' \<and>
     hs_log sv' = hs_log sv @ map Chan ef \<and>
     written ef @ session_pending (env_platform E) cont se' =
       session_pending (env_platform E) cont se @ queued_text (env_platform E) cont (session_head se) m \<and>
     (\<forall>k. k \<noteq> h \<longrightarrow> get_session sv' k = get_session sv k)"

lemma response_sends:
  assumes "http_ok sv" and "get_session sv h = Some se" and "se_type se = Server" and "connect_flag se"
    and "session_ok (env_host E) (hs_world sv) cont se"
    and "response_body_ok (env_host E) (hs_world sv) cont m" and "ready (env_net E) (hs_base sv) h ch"
  shows "\<exists>sv' se' ef. HnwHttp_Response E sv h (Some m) = (HNW_BASE_OK, sv') \<and>
    sends_message E cont sv h se m sv' se' ef"
proof -
  let ?P = "env_platform E" and ?se1 = "appended se m True"
  let ?s1 = "update_session sv h (\<lambda>_. ?se1)"
  note pend = appended_pending [of ?P cont se m True] and ok1 = appended_ok [OF assms(5,6), of True]
  have ok: "omap_ok (session_map sv)" using assms(1) by (simp add: http_ok_def)
  have g1: "get_session ?s1 k = (if k = h then Some ?se1 else get_session sv k)" for k
    using get_session_update [OF ok] assms(2) by simp
  show ?thesis
  proof (cases "send_flag se")
    case True
    have "sends_message E cont sv h se m ?s1 ?se1 []"
      using pend ok1 g1 by (simp add: sends_message_def written_def)
    with response_queued [OF assms(2,3) True] show ?thesis by blast
  next
    case False
    have n: "0 < unat (ch_send_buff_size ch)" "unat (ch_send_buff_size ch) < 2 ^ 63"
      using assms(7) by (simp_all add: ready_def can_send_def)
    have se1: "se_type ?se1 = Server" "session_pending ?P cont ?se1 \<noteq> []"
      using assms(3) by (simp_all add: pend queued_text_def response_text_def response_line_string_def)
    from response_first_block [OF ok1 n se1] obtain d se3 where
      r: "on_read ?P (env_host E) (hs_world sv) ?se1 (unat (ch_send_buff_size ch)) = Some (d, se3, [])"
        "length d \<le> unat (ch_send_buff_size ch)" "session_ok (env_host E) (hs_world sv) cont se3"
        "session_pending ?P cont ?se1 = d @ session_pending ?P cont se3" by blast
    have h: "se_handle se = h" using http_okD [OF assms(1,2)] by (simp add: session_wf_def)
    from first_round [OF assms(1,2,7) r(1,2)] obtain sv' ef where
      run: "HnwBase_Send_Cb E ?s1 h ?se1 = (HNW_BASE_OK, sv')" and ef: "written ef = d"
      and g: "\<forall>k. get_session sv' k = (if k = h then Some se3 else get_session sv k)"
      and w: "hs_world sv' = hs_world sv" "hs_log sv' = hs_log sv @ map Chan ef" by blast
    have "HnwHttp_Response E sv h (Some m) = (HNW_BASE_OK, sv')"
      using run assms(2-4) False h
      by (simp add: HnwHttp_Response_def send_response_def session_call_def start_send_def appended_def)
    moreover have "sends_message E cont sv h se m sv' se3 ef"
      using r(3,4) g w pend ef by (simp add: sends_message_def)
    ultimately show ?thesis by blast
  qed
qed

lemma raw_response_pending:
  assumes "http_ok sv" and "get_session sv h = Some se" and "se_type se = Server" and "connect_flag se"
    and "session_ok (env_host E) (hs_world sv) cont se" and "env_alloc E" and "length data < 2 ^ 63"
    and "ready (env_net E) (hs_base sv) h ch"
  shows "\<exists>sv' se' ef. raw_response E sv h code data ext = (HNW_BASE_OK, sv') \<and>
    sends_message E cont sv h se (raw_reply (env_platform E) code data ext) sv' se' ef"
  unfolding raw_response_reply [OF assms(6)]
  by (rule response_sends [OF assms(1-5) raw_reply_ok [OF assms(7)] assms(8)])

text \<open>
  A response sent with HnwHttp_RawResponse through a connected server session is neither lost nor
  reordered: what the call writes at once, followed by what the session will still hand out, is
  what it had to hand out before followed by the new message - status line, the given fields
  completed, and the data. The call succeeds, and other sessions are not touched.
\<close>

theorem raw_response_sends:
  assumes "http_ok sv" and "get_session sv h = Some se" and "se_type se = Server" and "connect_flag se"
    and "session_ok (env_host E) (hs_world sv) cont se" and "env_alloc E" and "length data < 2 ^ 63"
    and "ready (env_net E) (hs_base sv) h ch"
    and "m = raw_reply (env_platform E) code data ext"
  shows "\<exists>sv' se' ef. raw_response E sv h code data ext = (HNW_BASE_OK, sv') \<and>
    get_session sv' h = Some se' \<and> session_ok (env_host E) (hs_world sv') cont se' \<and>
    hs_log sv' = hs_log sv @ map Chan ef \<and>
    written ef @ session_pending (env_platform E) cont se' =
      session_pending (env_platform E) cont se @ queued_text (env_platform E) cont (session_head se) m \<and>
    (\<forall>k. k \<noteq> h \<longrightarrow> get_session sv' k = get_session sv k)"
  using raw_response_pending [OF assms(1-8), of code ext] unfolding sends_message_def assms(9) .

theorem raw_response_sends_witness:
  "\<exists>sv' se' ef. raw_response silent_env (sample_http_service Server True) 5 ''200'' ''hi'' None = (HNW_BASE_OK, sv') \<and>
     get_session sv' 5 = Some se' \<and> hs_log sv' = map Chan ef \<and>
     written ef @ session_pending platform0 (\<lambda>_. []) se' =
       queued_text platform0 (\<lambda>_. []) (session_head (session_generate 5 Server)) (raw_reply platform0 ''200'' ''hi'' None)"
proof -
  let ?sv = "sample_http_service Server True" and ?se = "(session_generate 5 Server)\<lparr>connect_flag := True\<rparr>"
  have e: "env_alloc silent_env" "env_platform silent_env = platform0" "env_host silent_env = host1"
    "env_net silent_env = net1"
    by (simp_all add: silent_env_def)
  have s: "session_ok (env_host silent_env) (hs_world ?sv) (\<lambda>_. []) ?se" "se_type ?se = Server" "connect_flag ?se"
    and p: "session_pending platform0 (\<lambda>_. []) ?se = []" "hs_log ?sv = []" "session_head ?se = session_head (session_generate 5 Server)"
    by (simp_all add: session_ok_def session_generate_def add_session_head_def SendStaus_new_def Let_def
        session_pending_def current_text_def sample_http_service_def HttpService_new_def)
  have g: "get_session ?sv 5 = Some ?se" by (simp add: sample_http_service_session)
  from raw_response_sends [OF sample_http_service_ok g s(2,3,1) e(1), of "''hi''", OF _
      sample_http_service_ready [folded e(4)] refl, of "''200''" None]
  show ?thesis by (simp add: e p) metis
qed

subsection \<open>The end of a request\<close>

text \<open>
  C18: A request that was answered leaves its session behind. After the response has been handed to the
  application, the code clears the channel's callback and then closes the channel: the event
  that would remove the session is queued for an empty callback. The channel is gone, the
  session stays in the table for good.
\<close>

theorem answered_request_keeps_session:
  assumes "sv1 = (case cb of None \<Rightarrow> sv | Some u \<Rightarrow> app_response E u (Some r) HNW_BASE_OK sv)"
    and "get_session sv1 h = Some se" and "ready (env_net E) (hs_base sv1) h ch" and "ch_handle ch = h"
    and "net_shutdown (env_net E) h"
    and "sv' = on_request_once E cb method path body ext h (RecvResponse r) sv"
  shows "get_session sv' h = Some se \<and> get_channel (hs_base sv') h = None \<and>
    hs_log sv' = hs_log sv1 @ [Chan (EventCbAsync (Some None) h EvClosed), Chan CloseSocket]"
proof -
  let ?ch = "ch\<lparr>ch_event_cb := Some None\<rparr>"
  have ch: "get_channel (hs_base sv1) h = Some ch" "ch_type ch = TCP_CLIENT" "bconn ch"
    using assms(3) by (simp_all add: ready_def can_send_def)
  let ?b = "store_channel (hs_base sv1) h ?ch"
  have run: "sv' = snd (HnwBase_Close E (sv1\<lparr>hs_base := ?b\<rparr>) h)"
    using assms(1,6) ch(1) by (simp add: on_request_once_def HnwBase_SetEvntCB_def service_set_event_cb_def)
  have "channel_close (env_net E) ?ch = (HNW_BASE_OK, ?ch\<lparr>bconn := False\<rparr>, [EventCbAsync (Some None) h EvClosed, CloseSocket])"
    using ch assms(4,5) by (simp add: channel_close_def tcp_client_close_def EVENT_CB_ASYNC_def Let_def)
  then have "service_close (env_net E) ?b h =
      (HNW_BASE_OK, del_channel ?b h, [EventCbAsync (Some None) h EvClosed, CloseSocket])"
    using ch(1) by (simp add: service_close_def get_channel_store)
  then show ?thesis
    using assms(2) by (simp add: run HnwBase_Close_def log_chan_def get_channel_del get_session_def)
qed

theorem answered_request_keeps_session_witness:
  "get_session (on_request_once silent_env (Some 1) ''GET'' ''/'' [] None 5 (RecvResponse HttpResponse_new)
     (sample_http_service Client True)) 5 \<noteq> None"
proof -
  let ?sv = "sample_http_service Client True"
  have r: "ready (env_net silent_env) (hs_base ?sv) 5 ((Channel_new TCP_CLIENT 5)\<lparr>ch_make_shared := True, bconn := True\<rparr>)"
    using sample_http_service_ready by (simp add: silent_env_def)
  have e: "?sv = (case Some (1::nat) of None \<Rightarrow> ?sv
      | Some u \<Rightarrow> app_response silent_env u (Some HttpResponse_new) HNW_BASE_OK ?sv)"
    by (simp add: silent_env_def)
  have s: "get_session ?sv 5 = Some ((session_generate 5 Client)\<lparr>connect_flag := True\<rparr>)"
    by (simp add: sample_http_service_session)
  have "net_shutdown (env_net silent_env) 5" by (simp add: silent_env_def net1_def)
  from answered_request_keeps_session [OF e s r _ this refl, of "''GET''" "''/''" "[]" None] show ?thesis by simp
qed

end
