(* ===== verification/Http_Delivery.thy ===== *)
theory Http_Delivery
  imports Http_Contract
begin

section \<open>From the connection to the application\<close>

text \<open>
  What the application hears of the messages a peer sends: \<open>event_cb\<close> with a block of data, the
  session's parser behind it, the parser's events back through \<open>event_cb\<close>, and the callback of the
  application. The parser run inside the service is the parser on its own with every event
  delivered where it is raised.
\<close>

subsection \<open>A parser whose events are delivered\<close>

text \<open>
  \<open>step'\<close> is the step of another world, which delivers the events of \<open>step\<close> to a state it keeps: as
  long as no error is reported it does so along the whole input.
\<close>

definition delivers ::
  "('s, 'w, 'e) parser_cb \<Rightarrow> ('s, 'v, 'e) parser_cb \<Rightarrow> (nat \<Rightarrow> 's \<Rightarrow> bool) \<Rightarrow> ('v \<Rightarrow> bool) \<Rightarrow>
     ('e \<Rightarrow> 'v \<Rightarrow> 'v) \<Rightarrow> bool" where
  "delivers step step' ok I deliver \<longleftrightarrow>
     (\<forall>k st x w v rest st' w' ev. ok k st \<and> x \<noteq> [] \<and> length x \<le> k \<and> I v \<and>
        step st w x = Some (HNW_BASE_OK, rest, st', w', ev) \<longrightarrow>
        step' st v x = Some (HNW_BASE_OK, rest, st', fold deliver ev v, ev) \<and> I (fold deliver ev v))"

context piecewise_parser
begin

lemma loop_delivers:
  assumes "delivers step step' ok I deliver"
  shows "ok k st \<Longrightarrow> length x \<le> k \<Longrightarrow> I v \<Longrightarrow>
     input_data_loop step st w x [] = Some (HNW_BASE_OK, st', w', ev) \<Longrightarrow>
     input_data_loop step' st v x evs = Some (HNW_BASE_OK, st', fold deliver ev v, evs @ ev) \<and>
     I (fold deliver ev v)"
proof (induction "length x" arbitrary: x k st w v ev evs rule: less_induct)
  case less
  show ?case
  proof (cases "x = []")
    case True
    with less.prems show ?thesis by (simp add: input_data_loop.simps)
  next
    case False
    from step_some [OF less.prems(1) False less.prems(2), of w]
    obtain ret rest st1 w1 ev1 used where s: "step st w x = Some (ret, rest, st1, w1, ev1)"
      and u: "used \<noteq> []" "x = used @ rest" and ok1: "ret = HNW_BASE_OK \<longrightarrow> ok (k - length used) st1"
      by blast
    have L: "(if ret \<noteq> HNW_BASE_OK then Some (ret, st1, w1, ev1)
        else input_data_loop step st1 w1 rest ev1) = Some (HNW_BASE_OK, st', w', ev)"
      using less.prems(4) False s by (subst (asm) input_data_loop.simps) (auto split: if_splits)
    then have ret: "ret = HNW_BASE_OK" by (auto split: if_splits)
    have len: "length rest < length x" "length rest \<le> k - length used" using u less.prems(2) by simp_all
    have ok': "ok (k - length used) st1" using ok1 ret by simp
    from L ret loop_events [OF ok' len(2), of w1 ev1 "[]"] obtain ev2 where
      r: "input_data_loop step st1 w1 rest [] = Some (HNW_BASE_OK, st', w', ev2)" and e: "ev = ev1 @ ev2"
      by (cases "input_data_loop step st1 w1 rest []") auto
    have s': "step' st v x = Some (HNW_BASE_OK, rest, st1, fold deliver ev1 v, ev1)" "I (fold deliver ev1 v)"
      using assms less.prems(1,2,3) False s ret unfolding delivers_def by blast+
    from less.hyps [OF len(1) ok' len(2) s'(2) r, of "evs @ ev1"] s'(1) e False show ?thesis
      by (subst input_data_loop.simps) simp
  qed
qed

end

subsection \<open>The response parser of a session\<close>

text \<open>
  An application that looks at what it gets and keeps its own account in the world: its callback makes no
  call of the library, and blocks of data, which it gets beside the messages, are nothing to it.
\<close>

definition watches :: "('u, 'w) env \<Rightarrow> 'u \<Rightarrow> (http_event \<Rightarrow> 'w \<Rightarrow> 'w) \<Rightarrow> bool" where
  "watches E u seen \<longleftrightarrow>
     (\<forall>h ev sv. app_event E u h ev sv = (ev, sv\<lparr>hs_world := seen ev (hs_world sv)\<rparr>)) \<and>
     (\<forall>d w. seen (BaseEvent (EvRecvData d)) w = w)"

definition in_service :: "int \<Rightarrow> 'u \<Rightarrow> ('u, 'w) http_service \<Rightarrow> bool" where
  "in_service h u sv \<longleftrightarrow> get_session sv h \<noteq> None \<and> omap_get (hs_held sv) h = None"

definition see :: "(http_event \<Rightarrow> 'w \<Rightarrow> 'w) \<Rightarrow> http_event \<Rightarrow> ('u, 'w) http_service \<Rightarrow> ('u, 'w) http_service" where
  "see seen ev sv = sv\<lparr>hs_world := seen ev (hs_world sv)\<rparr>"

fun response_view :: "resp_event \<Rightarrow> http_event" where
  "response_view (RecvHead m) = RecvResponseHead m"
| "response_view (RecvMessage m) = RecvResponse m"
| "response_view (ParserError e) = BaseEvent (EvError e)"

lemma in_service_see [simp]: "in_service h u (see seen ev sv) = in_service h u sv"
  by (simp add: in_service_def see_def get_session_def)

lemma in_service_fold: "in_service h u sv \<Longrightarrow> in_service h u (fold (\<lambda>e. see seen (f e)) ev sv)"
  by (induction ev arbitrary: sv) simp_all

lemma parser_event_see:
  assumes "watches E u seen" and "in_service h u sv" and "\<forall>e. ev \<noteq> BaseEvent e"
  shows "parser_event_cb E (Some (UserEvent u)) h ev sv = (ev, see seen ev sv)"
  using assms by (auto simp: watches_def in_service_def parser_event_cb_def event_cb_with_def call_event_cb_def
      see_def split: http_event.splits)

lemma sync_held_none [simp]: "omap_get (hs_held sv) h = None \<Longrightarrow> sync_held h m sv = sv"
  by (simp add: sync_held_def)

lemma omap_del_absent: "omap_get m k = None \<Longrightarrow> omap_del m k = m"
  by (auto simp: omap_get_def omap_del_def map_of_eq_None_iff intro!: filter_True)

lemma response_event_head: "response_event E cb h (RecvHead m) sv = sv"
  by (simp add: response_event_def)

lemma response_event_message:
  assumes "watches E u seen" and "in_service h u sv"
  shows "response_event E (Some (UserEvent u)) h (RecvMessage m) sv = see seen (RecvResponse m) sv"
proof -
  have h: "omap_get (hs_held sv) h = None" using assms(2) by (simp add: in_service_def)
  then have "sv\<lparr>hs_held := omap_del (hs_held sv) h\<rparr> = sv" by (simp add: omap_del_absent)
  with h parser_event_see [OF assms] show ?thesis by (simp add: response_event_def)
qed

lemma response_head_see:
  assumes "watches E u seen" and "in_service h u sv"
  shows "response_head_cb E (Some (UserEvent u)) h m sv = (m, see seen (RecvResponseHead m) sv)"
  by (simp add: response_head_cb_def parser_event_see [OF assms])

lemma response_step_plain:
  assumes "in_service h u sv"
    and "resp_step (env_platform E) (lift_host (env_host E)) (response_head_cb E (Some (UserEvent u)) h) st sv x =
      Some (ret, rest, st', sv, [])"
  shows "response_step E (Some (UserEvent u)) h st sv x = Some (ret, rest, st', sv, [])"
  using assms by (simp add: response_step_def in_service_def)

text \<open>A header that is accepted when no temporary file can be made has its body in memory.\<close>

lemma accepted_head_small:
  assumes "no_temp_file H" and "rs_body m = None"
    and "resp_head_end P H Pair st w = Some (HNW_BASE_OK, st', w', ev)" and "parser_tmp st = m"
  shows "get_head_int64 P (rs_head m) HTTP_LEN 0 \<le> 1024 * 1024 * 10"
proof (rule ccontr)
  assume n: "\<not> ?thesis"
  obtain rnd w2 where hr: "host_rand H w = (rnd, w2)" by (cases "host_rand H w")
  obtain b w3 where g: "file_generate H w2 (''./'' @ uuid rnd @ ''.HnwHttpTemp'')
      (HttpRange_default\<lparr>rg_total := of_int (get_head_int64 P (rs_head m) HTTP_LEN 0)\<rparr>)
      (or HTTP_FILE_FLAG_DELETE HTTP_FILE_FLAG_CREATE) = (b, w3)" by fastforce
  from assms(1) have "b = None" unfolding no_temp_file_def using g by (metis fst_conv)
  then have "response_auto_create_body P H w m = (True, w3, m\<lparr>rs_body := None\<rparr>)"
    using n g hr by (simp add: response_auto_create_body_def Let_def)
  with assms(2-4) show False by (simp add: resp_head_end_def Let_def)
qed

lemma response_lines_delivered:
  assumes "watches E u seen" and "in_service h u sv" and "parser_status st = START_LINE \<or> parser_status st = HEAD"
    and "rs_body (parser_tmp st) = None" and "no_temp_file H" and "x \<noteq> []"
    and "resp_step (env_platform E) H Pair st w x = Some (HNW_BASE_OK, rest, st', w', ev)"
  shows "response_step E (Some (UserEvent u)) h st sv x =
    Some (HNW_BASE_OK, rest, st', fold (\<lambda>e. see seen (response_view e)) ev sv, ev)"
proof (cases "parser_status st = HEAD \<and> hd x = LF \<and> parser_cache1 st = []")
  case False
  let ?step = "resp_step (env_platform E) (lift_host (env_host E)) (response_head_cb E (Some (UserEvent u)) h)"
  have "?step st sv x = Some (HNW_BASE_OK, rest, st', sv, []) \<and> ev = []"
    using assms(3,6,7) False
    by (auto simp: resp_step_def call_parser_cb_def resp_cb_map_def resp_on_start_line_def resp_on_head_def Let_def
        split: if_splits)
  with response_step_plain [OF assms(2)] show ?thesis by simp
next
  case True
  let ?cap = "get_head_int64 (env_platform E) (rs_head (parser_tmp st)) HTTP_LEN 0"
  let ?m = "(parser_tmp st)\<lparr>rs_body := Some (raw_body_of (raw_generate (of_int ?cap)))\<rparr>"
  have end1: "resp_head_end (env_platform E) H Pair st w = Some (HNW_BASE_OK, st', w', ev) \<and> rest = tl x"
    using assms(7) True by (auto simp: resp_step_def call_parser_cb_def resp_cb_map_def resp_on_head_def Let_def)
  have small: "?cap \<le> 1024 * 1024 * 10"
    using accepted_head_small [OF assms(5,4) end1 [THEN conjunct1] refl] .
  have ac: "response_auto_create_body (env_platform E) H2 v (parser_tmp st) = (True, v, ?m)" for H2 :: "'z host" and v
    using small by (simp add: response_auto_create_body_def Let_def)
  note held = assms(2) [unfolded in_service_def]
  have in_see: "omap_get (hs_held (see seen e sv)) h = None" for e
    using held by (simp add: see_def)
  show ?thesis
    using end1 True assms(1,4,6) held in_see
    by (auto simp: response_step_def resp_step_def call_parser_cb_def resp_cb_map_def resp_on_head_def
        resp_head_end_def resp_push_def ac response_head_see [OF assms(1,2)]
        response_event_head response_event_message [OF assms(1)] assms(2) Let_def split: if_splits)
qed

lemma response_body_delivered:
  assumes "watches E u seen" and "in_service h u sv" and "parser_status st = BODY"
    and "filling k (rs_body (parser_tmp st))" and "length x \<le> k"
    and "resp_step (env_platform E) H Pair st w x = Some (HNW_BASE_OK, rest, st', w', ev)"
  shows "response_step E (Some (UserEvent u)) h st sv x =
    Some (HNW_BASE_OK, rest, st', fold (\<lambda>e. see seen (response_view e)) ev sv, ev)"
proof -
  from assms(4) obtain cap d where f: "rs_body (parser_tmp st) = Some (raw_filled cap d)" "length d < unat cap"
    "length d + length x < 18446744073709551616"
    using assms(5) by (auto simp: filling_def)
  note body = resp_step_body [OF assms(3)] resp_on_body_write [OF f]
  show ?thesis
    using assms(6) assms(2)
    by (auto simp: response_step_def body response_event_message [OF assms(1,2)] Let_def in_service_def
        split: if_splits)
qed

lemma response_delivers:
  assumes "watches E u seen"
  shows "delivers (resp_step (env_platform E) host1 Pair) (response_step E (Some (UserEvent u)) h)
    (resp_ok host1 Pair) (in_service h u) (\<lambda>e. see seen (response_view e))"
  unfolding delivers_def
  using response_lines_delivered [OF assms] response_body_delivered [OF assms] host1_no_temp
  by (fastforce simp: resp_ok_def in_service_fold)

subsection \<open>The request parser of a session\<close>

fun request_view :: "req_event \<Rightarrow> http_event" where
  "request_view (RecvHead m) = RecvRequestHead m"
| "request_view (RecvMessage m) = RecvRequest m"
| "request_view (ParserError e) = BaseEvent (EvError e)"

text \<open>
  An application at one handle: what it does with an event other than the base library's, in the
  states the predicate holds of, and that it stays in them. One that watches is a case of it.
\<close>

definition hears ::
  "('u, 'w) env \<Rightarrow> 'u \<Rightarrow> int \<Rightarrow> (('u, 'w) http_service \<Rightarrow> bool) \<Rightarrow>
     (http_event \<Rightarrow> ('u, 'w) http_service \<Rightarrow> ('u, 'w) http_service) \<Rightarrow> bool" where
  "hears E u h I deliver \<longleftrightarrow>
     (\<forall>ev sv. I sv \<and> (\<forall>e. ev \<noteq> BaseEvent e) \<longrightarrow>
        parser_event_cb E (Some (UserEvent u)) h ev sv = (ev, deliver ev sv) \<and> I (deliver ev sv))"

lemma watches_hears: "watches E u seen \<Longrightarrow> hears E u h (in_service h u) (see seen)"
  by (simp add: hears_def parser_event_see)

lemma request_event_hears:
  assumes "hears E u h I deliver" and "I sv"
  shows "request_event E (Some (UserEvent u)) h (RecvHead m) sv = sv"
    and "request_event E (Some (UserEvent u)) h (RecvMessage m) sv = deliver (RecvRequest m) sv"
    and "request_head_cb E (Some (UserEvent u)) h m sv = (m, deliver (RecvRequestHead m) sv)"
    and "I (deliver (RecvRequest m) sv)" and "I (deliver (RecvRequestHead m) sv)"
  using assms by (simp_all add: hears_def request_event_def request_head_cb_def)

lemma request_lines_delivered:
  assumes "hears E u h I deliver" and "I sv" and "parser_status st = START_LINE \<or> parser_status st = HEAD"
    and "x \<noteq> []" and "req_step (env_platform E) H Pair st w x = Some (HNW_BASE_OK, rest, st', w', ev)"
  shows "request_step E (Some (UserEvent u)) h st sv x =
    Some (HNW_BASE_OK, rest, st', fold (\<lambda>e. deliver (request_view e)) ev sv, ev) \<and>
    I (fold (\<lambda>e. deliver (request_view e)) ev sv)"
proof (cases "parser_status st = HEAD \<and> hd x = LF \<and> parser_cache1 st = []")
  case False
  let ?step = "req_step (env_platform E) (lift_host (env_host E)) (request_head_cb E (Some (UserEvent u)) h)"
  have "?step st sv x = Some (HNW_BASE_OK, rest, st', sv, []) \<and> ev = []"
    using assms(3-5) False
    by (auto simp: req_step_def call_parser_cb_def req_cb_map_def req_on_start_line_def req_on_head_def Let_def
        split: if_splits)
  with assms(2) show ?thesis by (simp add: request_step_def)
next
  case True
  then show ?thesis
    using assms(4,5)
    by (auto simp: request_step_def req_step_def call_parser_cb_def req_cb_map_def req_on_head_def
        req_head_end_def req_push_def request_auto_create_body_def request_event_hears [OF assms(1,2)]
        request_event_hears [OF assms(1)] assms(2) Let_def split: if_splits option.splits)
qed

lemma request_body_delivered:
  assumes "hears E u h I deliver" and "I sv" and "parser_status st = BODY"
    and "filling k (rq_body (parser_tmp st))" and "length x \<le> k"
    and "req_step (env_platform E) H Pair st w x = Some (HNW_BASE_OK, rest, st', w', ev)"
  shows "request_step E (Some (UserEvent u)) h st sv x =
    Some (HNW_BASE_OK, rest, st', fold (\<lambda>e. deliver (request_view e)) ev sv, ev) \<and>
    I (fold (\<lambda>e. deliver (request_view e)) ev sv)"
proof -
  from assms(4) obtain cap d where f: "rq_body (parser_tmp st) = Some (raw_filled cap d)" "length d < unat cap"
    "length d + length x < 18446744073709551616"
    using assms(5) by (auto simp: filling_def)
  note body = req_step_body [OF assms(3)] req_on_body_write [OF f]
  show ?thesis
    using assms(2,6)
    by (auto simp: request_step_def body request_event_hears [OF assms(1,2)] Let_def split: if_splits)
qed

lemma request_delivers:
  assumes "hears E u h I deliver"
  shows "delivers (req_step (env_platform E) host1 Pair) (request_step E (Some (UserEvent u)) h)
    (req_ok Pair) I (\<lambda>e. deliver (request_view e))"
  unfolding delivers_def
  using request_lines_delivered [OF assms] request_body_delivered [OF assms]
  by (fastforce simp: req_ok_def)

subsection \<open>Blocks of data\<close>

text \<open>The parser of a session on its own: what it becomes and what it raises, if it finds no error.\<close>

definition parser_run :: "platform \<Rightarrow> recv_parser \<Rightarrow> string \<Rightarrow> (recv_parser \<times> http_event list) option" where
  "parser_run P p d =
     (case p of
        NoParser \<Rightarrow> Some (p, [])
      | ReqParser st \<Rightarrow>
          (case input_data (req_step P host1 Pair) st () d of
             Some (HNW_BASE_OK, st, _, ev) \<Rightarrow> Some (ReqParser st, map request_view ev) | _ \<Rightarrow> None)
      | RespParser st \<Rightarrow>
          (case input_data (resp_step P host1 Pair) st () d of
             Some (HNW_BASE_OK, st, _, ev) \<Rightarrow> Some (RespParser st, map response_view ev) | _ \<Rightarrow> None))"

fun parser_runs :: "platform \<Rightarrow> recv_parser \<Rightarrow> string list \<Rightarrow> (recv_parser \<times> http_event list) option" where
  "parser_runs P p [] = Some (p, [])"
| "parser_runs P p (d # ds) =
     (case parser_run P p d of
        None \<Rightarrow> None
      | Some (p, ev) \<Rightarrow> map_option (\<lambda>(p, ev'). (p, ev @ ev')) (parser_runs P p ds))"

definition parser_ok :: "nat \<Rightarrow> recv_parser \<Rightarrow> bool" where
  "parser_ok k p \<longleftrightarrow> (case p of NoParser \<Rightarrow> True | ReqParser st \<Rightarrow> req_ok (Pair :: _ \<Rightarrow> unit \<Rightarrow> _) k st
     | RespParser st \<Rightarrow> resp_ok host1 Pair k st)"

lemma parser_runs_responses:
  "input_pieces (resp_step P host1 Pair) st () ds = Some (HNW_BASE_OK, st', (), ev) \<Longrightarrow>
     parser_runs P (RespParser st) ds = Some (RespParser st', map response_view ev)"
  by (induction ds arbitrary: st ev)
    (auto simp: parser_run_def split: if_splits option.splits)

lemma parser_runs_requests:
  "input_pieces (req_step P host1 Pair) st () ds = Some (HNW_BASE_OK, st', (), ev) \<Longrightarrow>
     parser_runs P (ReqParser st) ds = Some (ReqParser st', map request_view ev)"
  by (induction ds arbitrary: st ev)
    (auto simp: parser_run_def split: if_splits option.splits)

lemma input_data_OK:
  "(case r of Some (HNW_BASE_OK, st, w :: unit, ev) \<Rightarrow> Some (f st, g ev) | _ \<Rightarrow> None) = Some (p, ev') \<longleftrightarrow>
     (\<exists>st ev. r = Some (HNW_BASE_OK, st, (), ev) \<and> p = f st \<and> ev' = g ev)"
  by (auto split: option.splits err_code.splits)

lemma parser_run_ok:
  assumes "parser_ok k p" and "length d \<le> k" and "parser_run P p d = Some (p', ev)"
  shows "parser_ok (k - length d) p'"
proof (cases p)
  case NoParser
  with assms(3) show ?thesis by (simp add: parser_run_def parser_ok_def)
next
  case (ReqParser st)
  with assms req_pieces.loop_returns [of Pair k st d P host1 "()" "[]"] show ?thesis
    by (auto simp: parser_run_def parser_ok_def input_data_OK input_data_def)
next
  case (RespParser st)
  with assms resp_pieces.loop_returns [of host1 Pair k st d P "()" "[]"] show ?thesis
    by (auto simp: parser_run_def parser_ok_def input_data_OK input_data_def)
qed

text \<open>
  A session that receives: its parser, the callback it was made with, no download at work on it. After a
  block the service is the same up to that parser and the account of the application.
\<close>

definition receives :: "('u, 'w) http_service \<Rightarrow> int \<Rightarrow> 'u \<Rightarrow> recv_parser \<Rightarrow> bool" where
  "receives sv h u p \<longleftrightarrow> omap_ok (session_map sv) \<and> omap_get (hs_held sv) h = None \<and>
     (\<exists>se. omap_get (session_map sv) h = Some (se, Some (UserEvent u)) \<and> recv_parser se = p)"

definition received :: "('u, 'w) http_service \<Rightarrow> int \<Rightarrow> recv_parser \<Rightarrow> 'w \<Rightarrow> ('u, 'w) http_service" where
  "received sv h p w = (update_session sv h (\<lambda>se. se\<lparr>recv_parser := p\<rparr>))\<lparr>hs_world := w\<rparr>"

definition recv_blocks ::
  "('u, 'w) env \<Rightarrow> 'u event_callback option \<Rightarrow> int \<Rightarrow> string list \<Rightarrow> ('u, 'w) http_service \<Rightarrow> ('u, 'w) http_service" where
  "recv_blocks E cb h = fold (\<lambda>d sv. snd (event_cb E cb h (BaseEvent (EvRecvData d)) sv))"

lemma fold_see: "fold (\<lambda>e. see seen (f e)) ev sv = sv\<lparr>hs_world := fold seen (map f ev) (hs_world sv)\<rparr>"
  by (induction ev arbitrary: sv) (simp_all add: see_def)

lemma receives_received:
  "receives sv h u p \<Longrightarrow> receives (received sv h p' w) h u p'"
  "receives sv h u p \<Longrightarrow> received (received sv h p' w) h p'' w' = received sv h p'' w'"
  by (auto simp: receives_def received_def update_session_def omap_get_put omap_put_put omap_put_ok)

lemma received_same: "receives sv h u p \<Longrightarrow> received sv h p (hs_world sv) = sv"
  by (auto simp: receives_def received_def update_session_def omap_put_same)

lemma received_world [simp]: "hs_world (received sv h p w) = w"
  by (simp add: received_def)

lemma receives_in_service: "receives sv h u p \<Longrightarrow> in_service h u sv"
  by (auto simp: in_service_def receives_def get_session_def)

lemma fold_map_view: "fold (\<lambda>e. deliver (view e)) ev = fold deliver (map view ev)"
  by (induction ev) simp_all

text \<open>A block at a server's session: the events its parser raises are delivered, then it is kept.\<close>

lemma session_recv_request:
  assumes "hears E u h I deliver" and "I sv" and "get_session sv h = Some se"
    and "session_cb sv h = Some (UserEvent u)" and "recv_parser se = ReqParser st"
    and "req_ok (Pair :: _ \<Rightarrow> unit \<Rightarrow> _) k st" and "length d \<le> k"
    and "parser_run (env_platform E) (ReqParser st) d = Some (p', ev)"
  shows "session_recv E h d sv = update_session (fold deliver ev sv) h (set_parser p') \<and> I (fold deliver ev sv)"
proof -
  from assms(8) obtain st' e where
    r: "input_data (req_step (env_platform E) host1 Pair) st () d = Some (HNW_BASE_OK, st', (), e)"
      "p' = ReqParser st'" "ev = map request_view e"
    by (auto simp: parser_run_def input_data_OK)
  from req_pieces.loop_delivers [where evs = "[]", OF request_delivers [OF assms(1)] assms(6,7,2)
      r(1) [unfolded input_data_def]]
  show ?thesis using r(2,3) by (simp add: session_recv_def assms(3-5) input_data_def fold_map_view)
qed

text \<open>The block goes through the session to its parser, and then to the application itself.\<close>

lemma session_recv_run:
  assumes "watches E u seen" and "receives sv h u p" and "parser_ok k p" and "length d \<le> k"
    and "parser_run (env_platform E) p d = Some (p', ev)"
  shows "session_recv E h d sv = received sv h p' (fold seen ev (hs_world sv))"
proof -
  from assms(2) obtain se where se: "omap_get (session_map sv) h = Some (se, Some (UserEvent u))"
    "recv_parser se = p" by (auto simp: receives_def)
  then have g: "get_session sv h = Some se" "session_cb sv h = Some (UserEvent u)"
    by (simp_all add: get_session_def session_cb_def)
  note I = receives_in_service [OF assms(2)]
  show ?thesis
  proof (cases p)
    case NoParser
    with assms(5) g se received_same [OF assms(2)] show ?thesis by (simp add: session_recv_def parser_run_def)
  next
    case (ReqParser st)
    with assms(5) obtain st' where p': "p' = ReqParser st'" by (auto simp: parser_run_def input_data_OK)
    have "req_ok (Pair :: _ \<Rightarrow> unit \<Rightarrow> _) k st" using assms(3) ReqParser by (simp add: parser_ok_def)
    with session_recv_request [OF watches_hears [OF assms(1)] I g _ _ assms(4)] assms(5) se ReqParser p'
      fold_see [of seen "\<lambda>e. e" ev sv]
    show ?thesis by (simp add: received_def update_session_def set_parser_def)
  next
    case (RespParser st)
    with assms(5) obtain st' e where
      r: "input_data (resp_step (env_platform E) host1 Pair) st () d = Some (HNW_BASE_OK, st', (), e)"
        "p' = RespParser st'" "ev = map response_view e"
      by (auto simp: parser_run_def input_data_OK)
    from resp_pieces.loop_delivers [where evs = "[]", OF response_delivers [OF assms(1)] _ assms(4) I
        r(1) [unfolded input_data_def]] assms(3) RespParser
    show ?thesis using r(2,3) se
      by (simp add: session_recv_def g parser_ok_def input_data_def fold_see received_def update_session_def
          set_parser_def)
  qed
qed

lemma recv_block:
  assumes "watches E u seen" and "receives sv h u p" and "parser_ok k p" and "length d \<le> k"
    and "parser_run (env_platform E) p d = Some (p', ev)"
  shows "snd (event_cb E (Some (UserEvent u)) h (BaseEvent (EvRecvData d)) sv) =
    received sv h p' (fold seen ev (hs_world sv))"
  using receives_in_service [OF assms(2)] assms(1) session_recv_run [OF assms]
  by (auto simp: in_service_def event_cb_def event_cb_with_def call_event_cb_def watches_def)

lemma recv_blocks_received:
  assumes "watches E u seen"
  shows "receives sv h u p \<Longrightarrow> parser_ok k p \<Longrightarrow> length (concat ds) \<le> k \<Longrightarrow>
    parser_runs (env_platform E) p ds = Some (p', ev) \<Longrightarrow>
    recv_blocks E (Some (UserEvent u)) h ds sv = received sv h p' (fold seen ev (hs_world sv))"
proof (induction ds arbitrary: sv p k ev)
  case Nil
  then show ?case by (simp add: recv_blocks_def received_same)
next
  case (Cons d ds)
  then obtain p1 ev1 ev2 where one: "parser_run (env_platform E) p d = Some (p1, ev1)"
    and rest: "parser_runs (env_platform E) p1 ds = Some (p', ev2)" and ev: "ev = ev1 @ ev2"
    by (auto split: option.splits)
  have len: "length d \<le> k" "length (concat ds) \<le> k - length d" using Cons.prems(3) by simp_all
  let ?sv1 = "received sv h p1 (fold seen ev1 (hs_world sv))"
  have "recv_blocks E (Some (UserEvent u)) h ds ?sv1 = received ?sv1 h p' (fold seen ev2 (hs_world ?sv1))"
    by (rule Cons.IH [OF receives_received(1) [OF Cons.prems(1)] parser_run_ok [OF Cons.prems(2) len(1) one]
          len(2) rest])
  then show ?case
    by (simp add: recv_blocks_def recv_block [OF assms Cons.prems(1,2) len(1) one]
        receives_received(2) [OF Cons.prems(1)] ev)
qed

lemma received_world_only: "receives sv h u p \<Longrightarrow> received sv h p w = sv\<lparr>hs_world := w\<rparr>"
  by (auto simp: receives_def received_def update_session_def omap_put_same)

lemma responses_received:
  assumes "watches E u seen" and "receives sv h u (RespParser resp_reset)"
    and "\<forall>(l, ps, d) \<in> set ms. response_ok (env_platform E) l ps d" and "length (responses_text ms) < 2 ^ 64"
    and "concat ds = responses_text ms"
  shows "recv_blocks E (Some (UserEvent u)) h ds sv =
    sv\<lparr>hs_world := fold seen (map response_view (responses_events ms)) (hs_world sv)\<rparr>"
proof -
  let ?P = "env_platform E"
  have ok: "resp_ok host1 Pair (length (concat ds)) resp_reset"
    by (rule resp_reset_ok) (use assms(4,5) host1_no_temp in \<open>auto simp: resp_plain_def plain_body_def\<close>)
  have "input_pieces (resp_step ?P host1 Pair) resp_reset () ds =
      Some (HNW_BASE_OK, resp_reset, (), responses_events ms)"
    using resp_pieces.pieces_concat [OF ok order_refl] resp_loop_messages [OF assms(3), of host1 "()" "[]"] assms(4,5)
    by (simp add: input_data_def)
  from recv_blocks_received [OF assms(1,2) _ order_refl parser_runs_responses [OF this]] ok
  show ?thesis by (simp add: parser_ok_def received_world_only [OF assms(2)])
qed

lemma request_received:
  assumes "watches E u seen" and "receives sv h u (ReqParser req_reset)"
    and "request_text_ok l" and "\<forall>p \<in> set ps. field_ok p" and "plain_text d"
    and "length (request_text l ps d) < 2 ^ 64" and "concat ds = request_text l ps d"
  shows "recv_blocks E (Some (UserEvent u)) h ds sv =
    received sv h (ReqParser (req_reset\<lparr>parser_cache1 := d\<rparr>))
      (fold seen (map request_view (request_events l ps)) (hs_world sv))"
proof -
  let ?P = "env_platform E"
  have ok: "req_ok (Pair :: _ \<Rightarrow> unit \<Rightarrow> _) (length (concat ds)) req_reset"
    by (rule req_reset_ok) (use assms(6,7) in \<open>auto simp: req_plain_def\<close>)
  have "input_pieces (req_step ?P host1 Pair) req_reset () ds =
      Some (HNW_BASE_OK, req_reset\<lparr>parser_cache1 := d\<rparr>, (), request_events l ps)"
    using req_pieces.pieces_concat [OF ok order_refl] req_loop_message [OF assms(3,4), of ?P host1 "()" d "[]"]
      loop_collect [OF collects_steps(2) _ assms(5), of req_reset] assms(7)
    by (simp add: input_data_def in_lines_def req_reset_def)
  from recv_blocks_received [OF assms(1,2) _ order_refl parser_runs_requests [OF this]] ok
  show ?thesis by (simp add: parser_ok_def)
qed

end
