(* ===== verification/Http_Client.thy ===== *)
theory Http_Client
  imports Http_Session
begin

section \<open>A client session that sends its request\<close>

text \<open>
  The sending side of a client session of \<^verbatim>\<open>Src/http/session/http_session.hpp\<close>. It stops at the
  end of its first request (\<open>client_session_stalls\<close>), so what it promises is stated for a session
  with one request: that being sent, or the only one in the queue.
\<close>

definition sent_request_head :: "platform \<Rightarrow> heads \<Rightarrow> HttpRequest \<Rightarrow> heads" where
  "sent_request_head P sh q =
     merge P (if get_head_count (rq_head q) HTTP_LEN = 0
              then add_head_uint64 (rq_head q) HTTP_LEN (case rq_body q of None \<Rightarrow> 0 | Some b \<Rightarrow> body_size b)
              else rq_head q) (Some sh) False"

definition request_body_bytes :: "(string \<Rightarrow> string) \<Rightarrow> HttpRequest \<Rightarrow> string" where
  "request_body_bytes cont q = (case rq_body q of None \<Rightarrow> [] | Some b \<Rightarrow> body_pending cont b)"

definition queued_request_text :: "platform \<Rightarrow> (string \<Rightarrow> string) \<Rightarrow> heads \<Rightarrow> HttpRequest \<Rightarrow> string" where
  "queued_request_text P cont sh q =
     request_text (rq_line q) (umm_iter P (sent_request_head P sh q)) (request_body_bytes cont q)"

definition current_request_text :: "platform \<Rightarrow> (string \<Rightarrow> string) \<Rightarrow> SendStaus \<Rightarrow> string" where
  "current_request_text P cont t =
     (case ss_request t of
        None \<Rightarrow> []
      | Some q \<Rightarrow>
          (case ss_status t of
             EN_SEND_LINE \<Rightarrow> ss_cache t @ head_string P (rq_head q) @ CRLF @ request_body_bytes cont q
           | EN_SEND_HEAD \<Rightarrow> ss_cache t @ request_body_bytes cont q
           | EN_SEND_BODY \<Rightarrow> request_body_bytes cont q))"

definition client_pending :: "platform \<Rightarrow> (string \<Rightarrow> string) \<Rightarrow> session \<Rightarrow> string" where
  "client_pending P cont se = current_request_text P cont (send_status se) @
     concat (map (queued_request_text P cont (session_head se)) (request_queue se))"

definition request_body_ok :: "'w host \<Rightarrow> 'w \<Rightarrow> (string \<Rightarrow> string) \<Rightarrow> HttpRequest \<Rightarrow> bool" where
  "request_body_ok H w cont q \<longleftrightarrow> (case rq_body q of None \<Rightarrow> False | Some b \<Rightarrow> body_ok H w cont b)"

definition client_ok :: "'w host \<Rightarrow> 'w \<Rightarrow> (string \<Rightarrow> string) \<Rightarrow> session \<Rightarrow> bool" where
  "client_ok H w cont se \<longleftrightarrow>
     (\<forall>q \<in> set (request_queue se). request_body_ok H w cont q) \<and>
     (case ss_request (send_status se) of
        None \<Rightarrow> length (request_queue se) \<le> 1
      | Some q \<Rightarrow> request_queue se = [] \<and> request_body_ok H w cont q)"

lemma take_request_spec:
  assumes "client_ok H w cont se" and "ss_request (send_status se) = None" and "request_queue se = q # rest"
  shows "\<exists>se' q'. take_request P se q rest = Some se' \<and> client_ok H w cont se' \<and>
    ss_request (send_status se') = Some q' \<and> client_pending P cont se' = client_pending P cont se"
  using assms
  by (auto simp: take_request_def pre_send_request_def client_ok_def request_body_ok_def client_pending_def
      current_request_text_def queued_request_text_def request_text_def sent_request_head_def head_string_def
      request_body_bytes_def split: option.splits)

text \<open>A round hands out what is in the cache, refilled with the header, or else a block of the body.\<close>

lemma request_round_cases:
  assumes "ss_request (send_status se) = Some q" and "rq_body q = Some b" and "read_body H w b n = (d, b')"
  obtains (cache) t where "request_round P H w se q n =
      Some (take n (ss_cache t), se\<lparr>send_status := t\<lparr>ss_cache := drop n (ss_cache t)\<rparr>\<rparr>, [])"
    and "ss_cache t \<noteq> []" and "ss_request t = Some q" and "ss_status t \<noteq> EN_SEND_BODY"
    and "current_request_text P cont (send_status se) = current_request_text P cont t"
  | (body) t where "request_round P H w se q n = Some (d, se\<lparr>send_status := t\<lparr>ss_request :=
        if d = [] then None else Some (q\<lparr>rq_body := Some b'\<rparr>)\<rparr>\<rparr>, [])"
    and "ss_request t = Some q" and "ss_status t = EN_SEND_BODY"
    and "current_request_text P cont (send_status se) = current_request_text P cont t"
proof -
  let ?t = "send_status se"
  consider (line) "ss_status ?t = EN_SEND_LINE" "ss_cache ?t \<noteq> []"
    | (refill) "ss_status ?t = EN_SEND_LINE" "ss_cache ?t = []"
    | (head) "ss_status ?t = EN_SEND_HEAD" "ss_cache ?t \<noteq> []"
    | (empty) "ss_status ?t = EN_SEND_HEAD" "ss_cache ?t = []"
    | (body) "ss_status ?t = EN_SEND_BODY"
    by (cases "ss_status ?t") auto
  then show thesis
  proof cases
    case line
    then show thesis using assms
      by (intro that(1) [of ?t]) (simp_all add: request_round_def move_cache_eq Let_def)
  next
    case refill
    then show thesis using assms
      by (intro that(1) [of "?t\<lparr>ss_status := EN_SEND_HEAD, ss_cache := head_string P (rq_head q) @ CRLF\<rparr>"])
        (simp_all add: request_round_def move_cache_eq Let_def CRLF_def current_request_text_def)
  next
    case head
    then show thesis using assms
      by (intro that(1) [of ?t]) (simp_all add: request_round_def move_cache_eq Let_def)
  next
    case empty
    then show thesis using assms
      by (intro that(2) [of "?t\<lparr>ss_status := EN_SEND_BODY\<rparr>"])
        (simp_all add: request_round_def Let_def current_request_text_def)
  next
    case body
    then show thesis using assms
      by (intro that(2) [of ?t]) (simp_all add: request_round_def Let_def)
  qed
qed

lemma request_round_spec:
  assumes ok: "client_ok H w cont se" and q: "ss_request (send_status se) = Some q"
    and n: "0 < n" "n < 2 ^ 63"
  shows "\<exists>d se'. request_round P H w se q n = Some (d, se', []) \<and> length d \<le> n \<and> client_ok H w cont se' \<and>
    client_pending P cont se = d @ client_pending P cont se' \<and> (client_pending P cont se \<noteq> [] \<longrightarrow> d \<noteq> [])"
proof -
  obtain b where b: "rq_body q = Some b" and bok: "body_ok H w cont b"
    using ok q by (auto simp: client_ok_def request_body_ok_def split: option.splits)
  obtain d b' where rd: "read_body H w b n = (d, b')" by (cases "read_body H w b n")
  note r = read_body_pull [OF bok n(2) rd]
  have Q: "request_queue se = []" "request_body_ok H w cont q" using ok q by (simp_all add: client_ok_def)
  then have P0: "client_pending P cont se = current_request_text P cont (send_status se)"
    and P1: "client_pending P cont (se\<lparr>send_status := x\<rparr>) = current_request_text P cont x" for x
    by (simp_all add: client_pending_def)
  from q b rd show ?thesis
  proof (cases rule: request_round_cases [where P = P and cont = cont])
    case (cache t)
    then show ?thesis using Q n(1) P0 P1 [of "t\<lparr>ss_cache := drop n (ss_cache t)\<rparr>"]
      by (cases "ss_status t") (auto simp: client_ok_def current_request_text_def)
  next
    case (body t)
    have "body_pending cont b = d @ body_pending cont b'" "length d \<le> n" by (simp_all add: r)
    moreover have "d = [] \<Longrightarrow> body_pending cont b = []" using r(1) n(1) by simp
    ultimately show ?thesis using body Q b r(2) P0
        P1 [of "t\<lparr>ss_request := if d = [] then None else Some (q\<lparr>rq_body := Some b'\<rparr>)\<rparr>"]
      by (cases "d = []") (simp_all add: client_ok_def current_request_text_def request_body_bytes_def request_body_ok_def)
  qed
qed

lemma on_read_request_spec:
  assumes "client_ok H w cont se" and "0 < n" and "n < 2 ^ 63"
  shows "\<exists>d se' ef. on_read_request P H w se n = Some (d, se', ef) \<and> length d \<le> n \<and> client_ok H w cont se' \<and>
    client_pending P cont se = d @ client_pending P cont se' \<and>
    (client_pending P cont se \<noteq> [] \<longrightarrow> d \<noteq> [] \<and> ef = [])"
proof (cases "ss_request (send_status se)")
  case (Some q)
  from request_round_spec [OF assms(1) Some assms(2,3), of P] show ?thesis
    by (auto simp: on_read_request_def Some)
next
  case None
  show ?thesis
  proof (cases "request_queue se")
    case Nil
    with None assms(1) show ?thesis
      by (simp add: on_read_request_def client_ok_def client_pending_def current_request_text_def Let_def)
  next
    case (Cons q rest)
    from take_request_spec [OF assms(1) None Cons, of P] obtain se1 q1 where
      t: "take_request P se q rest = Some se1" "client_ok H w cont se1" "ss_request (send_status se1) = Some q1"
        "client_pending P cont se1 = client_pending P cont se" by blast
    from request_round_spec [OF t(2,3) assms(2,3), of P] show ?thesis
      by (auto simp: on_read_request_def None Cons t(1,3,4))
  qed
qed

definition client_pull :: "platform \<Rightarrow> 'w host \<Rightarrow> 'w \<Rightarrow> session \<Rightarrow> nat \<Rightarrow> string \<times> session" where
  "client_pull P H w se n =
     (case on_read_request P H w se n of None \<Rightarrow> ([], se) | Some (d, se', _) \<Rightarrow> (d, se'))"

interpretation client_src: pull_source "client_pull P H w" "client_pending P cont" "client_ok H w cont"
proof
  fix s n b s' assume ok: "client_ok H w cont s" and n: "0 < n" "n < 2 ^ 63"
    and rd: "client_pull P H w s n = (b, s')"
  from on_read_request_spec [OF ok n, of P] rd show "client_pending P cont s = b @ client_pending P cont s'"
    and "length b \<le> n" and "client_ok H w cont s'"
    by (auto simp: client_pull_def)
  show "b \<noteq> []" if "client_pending P cont s \<noteq> []"
    using on_read_request_spec [OF ok n, of P] rd that by (auto simp: client_pull_def)
qed

end
