(* ===== verification/Http_Exchange.thy ===== *)
theory Http_Exchange
  imports Http_Delivery Http_Client
begin

section \<open>Asking\<close>

text \<open>
  \<open>HnwHttp_RawRequest\<close> on an idle, connected client session: the call writes the first block of the
  request, and the session keeps the rest for the sending loop.
\<close>

definition raw_ask :: "platform \<Rightarrow> string \<Rightarrow> string \<Rightarrow> string \<Rightarrow> heads option \<Rightarrow> HttpRequest" where
  "raw_ask P method uri data ext =
     \<lparr>rq_line = set_url ((rq_line HttpRequest_new)\<lparr>rl_method := method\<rparr>) uri,
      rq_head = merge P (rq_head HttpRequest_new) ext True,
      rq_body = Some ((raw_body_of \<lparr>raw_body = data, maximum_capacity = 0, increment = True\<rparr>)
        \<lparr>bd_write_pos := of_nat (length data)\<rparr>)\<rparr>"

lemma raw_request_ask:
  "env_alloc E \<Longrightarrow> raw_request E sv h method uri data ext =
     HnwHttp_Request E sv h (Some (raw_ask (env_platform E) method uri data ext))"
  by (simp add: raw_request_def HnwHttp_GenerateRequest_def raw_message_body_def write_body_def
      write_body_cb_def raw_body_of_def base_body_def raw_generate_auto_def raw_write_body_cb_def raw_body_size_def
      HttpRequest_new_def raw_ask_def Let_def)

lemma raw_ask_body:
  "rq_body (raw_ask P method uri data ext) = rs_body (raw_reply P code data ext')"
  by (simp add: raw_ask_def raw_reply_def)

lemma raw_ask_ok: "length data < 2 ^ 63 \<Longrightarrow> request_body_ok H w cont (raw_ask P method uri data ext)"
  using raw_reply_ok [of data H w cont P "[]" None]
  by (simp add: request_body_ok_def response_body_ok_def raw_ask_body [where code = "[]" and ext' = None])

definition asked :: "session \<Rightarrow> HttpRequest \<Rightarrow> session" where
  "asked se q = se\<lparr>request_queue := request_queue se @ [q], send_flag := True\<rparr>"

lemma asked_spec:
  assumes "session_wf h se" and "se_type se = Client" and "connect_flag se" and "\<not> send_flag se"
    and "request_body_ok H w cont q"
  shows "client_ok H w cont (asked se q) \<and>
    client_pending P cont (asked se q) = queued_request_text P cont (session_head se) q"
  using assms by (auto simp: session_wf_def asked_def client_ok_def client_pending_def current_request_text_def)

lemma request_sends:
  assumes "http_ok sv" and "get_session sv h = Some se" and "se_type se = Client" and "connect_flag se"
    and "\<not> send_flag se" and "request_body_ok (env_host E) (hs_world sv) cont q"
    and "ready (env_net E) (hs_base sv) h ch"
  shows "\<exists>sv' se' ef. HnwHttp_Request E sv h (Some q) = (HNW_BASE_OK, sv') \<and> get_session sv' h = Some se' \<and>
    client_ok (env_host E) (hs_world sv') cont se' \<and> hs_log sv' = hs_log sv @ map Chan ef \<and>
    written ef @ client_pending (env_platform E) cont se' =
      queued_request_text (env_platform E) cont (session_head se) q \<and>
    (\<forall>k. k \<noteq> h \<longrightarrow> get_session sv' k = get_session sv k)"
proof -
  let ?P = "env_platform E" and ?H = "env_host E" and ?w = "hs_world sv" and ?n = "unat (ch_send_buff_size ch)"
  let ?se1 = "asked se q"
  let ?s1 = "update_session sv h (\<lambda>_. ?se1)"
  have wf: "session_wf h se" by (rule http_okD [OF assms(1,2)])
  note a = asked_spec [OF wf assms(3-6), of ?P]
  have n: "0 < ?n" "?n < 2 ^ 63" using assms(7) by (simp_all add: ready_def can_send_def)
  have ne: "client_pending ?P cont ?se1 \<noteq> []"
    using a by (simp add: queued_request_text_def request_text_def request_line_string_def)
  from on_read_request_spec [OF a [THEN conjunct1] n, of ?P] ne obtain d se3 where
    r: "on_read_request ?P ?H ?w ?se1 ?n = Some (d, se3, [])" "length d \<le> ?n" "client_ok ?H ?w cont se3"
      "client_pending ?P cont ?se1 = d @ client_pending ?P cont se3" by blast
  have rd: "on_read ?P ?H ?w ?se1 ?n = Some (d, se3, [])"
    using r(1) assms(3) by (simp add: on_read_def asked_def)
  have h: "se_handle se = h" using wf by (simp add: session_wf_def)
  from first_round [OF assms(1,2,7) rd r(2)] obtain sv' ef where
    run: "HnwBase_Send_Cb E ?s1 h ?se1 = (HNW_BASE_OK, sv')" and "written ef = d"
    and "\<forall>k. get_session sv' k = (if k = h then Some se3 else get_session sv k)"
    and "hs_world sv' = ?w" "hs_log sv' = hs_log sv @ map Chan ef" by blast
  moreover have "HnwHttp_Request E sv h (Some q) = (HNW_BASE_OK, sv')"
    using run assms(2-5) h
    by (simp add: HnwHttp_Request_def send_request_def session_call_def start_send_def asked_def)
  ultimately show ?thesis using r(3,4) a
    by (intro exI [of _ sv'] exI [of _ se3] exI [of _ ef]) simp
qed

text \<open>What the call writes and what the sending loop hands out later is the text of the request.\<close>

lemma request_asked:
  assumes "http_ok cv" and "get_session cv c = Some ce" and "se_type ce = Client" and "connect_flag ce"
    and "\<not> send_flag ce" and "env_alloc E" and "length data < 2 ^ 63" and "ready (env_net E) (hs_base cv) c ch"
    and "q = raw_ask (env_platform E) method uri data ext"
    and "ps = umm_iter (env_platform E) (sent_request_head (env_platform E) (session_head ce) q)"
  shows "\<exists>cv' ce' ef. raw_request E cv c method uri data ext = (HNW_BASE_OK, cv') \<and> get_session cv' c = Some ce' \<and>
    hs_log cv' = hs_log cv @ map Chan ef \<and>
    (\<forall>ns pieces. (\<forall>n \<in> set ns. 0 < n \<and> n < 2 ^ 63) \<and> length (request_text (rq_line q) ps data) \<le> length ns \<and>
       concat pieces = written ef @
         fst (drain (client_pull (env_platform E) (env_host E) (hs_world cv')) ce' ns) \<longrightarrow>
       concat pieces = request_text (rq_line q) ps data)"
proof -
  let ?P = "env_platform E" and ?t = "request_text (rq_line q) ps data" and ?c = "\<lambda>_::string. []::string"
  have body: "request_body_bytes ?c q = data"
    by (simp add: assms(9) request_body_bytes_def raw_ask_def body_pending_def
        body_content_def raw_body_of_def base_body_def)
  have "request_body_ok (env_host E) (hs_world cv) ?c q" unfolding assms(9) by (rule raw_ask_ok [OF assms(7)])
  from request_sends [OF assms(1-5) this assms(8)] obtain cv' ce' ef where
    run: "raw_request E cv c method uri data ext = (HNW_BASE_OK, cv')" "get_session cv' c = Some ce'"
      "client_ok (env_host E) (hs_world cv') ?c ce'" "hs_log cv' = hs_log cv @ map Chan ef"
    and all: "written ef @ client_pending ?P ?c ce' = ?t"
    using assms(10) body by (auto simp: raw_request_ask [OF assms(6)] assms(9) [symmetric] queued_request_text_def)
  have "concat pieces = ?t"
    if ns: "\<forall>n \<in> set ns. 0 < n \<and> n < 2 ^ 63" "length ?t \<le> length ns"
      and pieces: "concat pieces = written ef @ fst (drain (client_pull ?P (env_host E) (hs_world cv')) ce' ns)"
    for ns pieces
  proof -
    have "length (client_pending ?P ?c ce') \<le> length ns" using ns(2) unfolding all [symmetric] by simp
    with client_src.drain_all [OF run(3) ns(1), where P = ?P]
    show ?thesis using pieces all by (metis prod.collapse)
  qed
  with run show ?thesis by blast
qed

subsection \<open>A response on its way to the client\<close>

text \<open>
  A message a server session has taken, with nothing else to send: the bytes written at once and those the
  sending loop hands out later, cut into any pieces, are heard by the client's application as the
  header and the message.
\<close>

lemma message_delivered:
  assumes "sends_message E cont sv h se r sv' se' ef" and "session_pending (env_platform E) cont se = []"
    and "ps = umm_iter (env_platform E) (sent_head (env_platform E) (session_head se) r)"
    and "response_body_bytes cont r = data"
    and "response_ok (env_platform F) (rs_line r) ps data" and "length (response_text (rs_line r) ps data) < 2 ^ 64"
    and "receives cv c (u :: 'v) (RespParser resp_reset)" and "watches F u seen"
    and "\<forall>n \<in> set ns. 0 < n \<and> n < 2 ^ 63" and "length (response_text (rs_line r) ps data) \<le> length ns"
    and "concat pieces = written ef @
      fst (drain (session_pull (env_platform E) (env_host E) (hs_world sv')) se' ns)"
  shows "recv_blocks F (Some (UserEvent u)) c pieces cv = cv\<lparr>hs_world :=
    seen (RecvResponse (read_response (rs_line r) ps data))
      (seen (RecvResponseHead \<lparr>rs_line = read_line (rs_line r), rs_head = ps, rs_body = None\<rparr>) (hs_world cv))\<rparr>"
proof -
  let ?P = "env_platform E" and ?t = "response_text (rs_line r) ps data"
  have ok: "session_ok (env_host E) (hs_world sv') cont se'"
    and all: "written ef @ session_pending ?P cont se' = ?t"
    using assms(1-4) by (auto simp: sends_message_def queued_text_def)
  have "length (session_pending ?P cont se') \<le> length ns" using assms(10) unfolding all [symmetric] by simp
  with session_src.drain_all [OF ok assms(9), where P = ?P]
  have "concat pieces = ?t" using assms(11) all by (metis prod.collapse)
  with responses_received [OF assms(8,7), of "[(rs_line r, ps, data)]" pieces] assms(5,6)
  show ?thesis by (simp add: responses_text_def responses_events_def response_events_def)
qed

end
