(* ===== verification/File_Contract.thy ===== *)
theory File_Contract
  imports File_Service Http_Exchange
begin

section \<open>What the file server does\<close>

text \<open>
  Which requests are answered with a file, what becomes of the others, and the way of a file from the
  disk to the client's application.
\<close>

subsection \<open>The decisions of the handler\<close>

definition fresh_response :: "platform \<Rightarrow> HttpRequest \<Rightarrow> HttpResponse" where
  "fresh_response P q = HttpResponse_new\<lparr>rs_head :=
     set_keep_alive (rs_head HttpResponse_new) (get_keep_alive P (rq_head q))\<rparr>"

definition authorized :: "platform \<Rightarrow> FileServce \<Rightarrow> HttpRequest \<Rightarrow> bool" where
  "authorized P fs q \<longleftrightarrow> auth_mode fs = NoneAuth \<or>
     check_auth P (get_authorization P (rq_head q)) (fs_password fs) (rl_method (rq_line q))"

lemma fresh_response_body [simp]: "rs_body (fresh_response P q) = None"
  by (simp add: fresh_response_def HttpResponse_new_def)

lemma challenge_body [simp]: "rs_body (auth_challenge E D fs w r) = rs_body r"
  by (simp add: auth_challenge_def Let_def)

text \<open>Both ways into the challenge give the same answer.\<close>

lemma http_event_cb_request:
  assumes "env_alloc E"
  shows "http_event_cb E D fs h (RecvRequest q) sv =
    (if authorized (env_platform E) fs q then file_answer E D fs h q (fresh_response (env_platform E) q) sv
     else send_or_close E h (auth_challenge E D fs (hs_world sv) (fresh_response (env_platform E) q)) sv)"
  using assms
  by (simp add: http_event_cb_def HnwHttp_GenerateResponse_def authorized_def fresh_response_def check_auth_def Let_def)

subsection \<open>The world behind the calls of the library\<close>

lemma close_world [simp]: "hs_world (snd (HnwBase_Close E sv h)) = hs_world sv"
  by (simp add: HnwBase_Close_def log_chan_def split: prod.split)

lemma run_closes_world [simp]: "hs_world (run_closes E sv efs) = hs_world sv"
  by (induction efs arbitrary: sv) (simp_all add: run_closes_def split: session_effect.split)

lemma response_world: "HnwHttp_Response E sv h r = (ret, sv') \<Longrightarrow> hs_world sv' = hs_world sv"
  by (auto simp: HnwHttp_Response_def session_call_def HnwBase_Send_Cb_def log_chan_def hs_fail_def Let_def
      split: option.splits prod.splits if_splits)

lemma send_or_close_world [simp]: "hs_world (send_or_close E h r sv) = hs_world sv"
  using response_world [of E sv h "Some r"]
  by (auto simp: send_or_close_def HnwHttp_Close_def split: prod.split)

text \<open>
  C15: Without the login nothing is served. When the server has a mode of login and the request's
  authorization does not pass the check with the server's password, the answer is a 401 whose challenge
  names the mode; it does not depend on the path asked for, no file is looked at, and the world
  stays as it is.
\<close>

theorem file_login_required:
  assumes "env_alloc E" and "auth_mode fs \<noteq> NoneAuth"
    and "\<not> check_auth (env_platform E) (get_authorization (env_platform E) (rq_head q)) (fs_password fs)
      (rl_method (rq_line q))"
  shows "\<exists>m. (\<forall>l. rl_method l = rl_method (rq_line q) \<longrightarrow>
        http_event_cb E D fs h (RecvRequest (q\<lparr>rq_line := l\<rparr>)) sv = send_or_close E h m sv) \<and>
    sl_status_code (rs_line m) = ''401'' \<and> rs_body m = None \<and>
    get_head (env_platform E) (rs_head m) HTTP_WWW_AUTH [] \<noteq> [] \<and>
    hs_world (http_event_cb E D fs h (RecvRequest q) sv) = hs_world sv"
proof -
  let ?m = "auth_challenge E D fs (hs_world sv) (fresh_response (env_platform E) q)"
  have run: "http_event_cb E D fs h (RecvRequest (q\<lparr>rq_line := l\<rparr>)) sv = send_or_close E h ?m sv"
    if "rl_method l = rl_method (rq_line q)" for l
    using that assms(2,3)
    by (simp add: http_event_cb_request [OF assms(1)] authorized_def fresh_response_def)
  have "sl_status_code (rs_line ?m) = ''401''"
    by (simp add: auth_challenge_def status_code_def Let_def)
  moreover have "get_head (env_platform E) (rs_head ?m) HTTP_WWW_AUTH [] \<noteq> []"
    using assms(2) by (cases "auth_mode fs")
      (simp_all add: auth_challenge_def set_www_authenticate_def get_head_replace Let_def)
  moreover have "hs_world (http_event_cb E D fs h (RecvRequest q) sv) = hs_world sv"
    using run [of "rq_line q"] by simp
  ultimately show ?thesis using run by (intro exI [of _ ?m]) simp
qed

subsection \<open>A file as the body of a response\<close>

text \<open>What the host says of a file that can be shared.\<close>

definition shared_file :: "'w host \<Rightarrow> 'w \<Rightarrow> string \<Rightarrow> string \<Rightarrow> bool" where
  "shared_file H w name content \<longleftrightarrow> file_is_exist H w name \<and> unat (file_size H w name) = length content \<and>
     length content < 2 ^ 63 \<and> file_mapping H w name False \<and> mapped H w name content"

text \<open>The ends of a range in a file of n bytes, and the bytes between them.\<close>

definition range_from :: "HttpRange \<Rightarrow> nat" where
  "range_from rg = (if use_start_endpoint rg then 0 else unat (rg_start rg))"

definition range_to :: "HttpRange \<Rightarrow> nat \<Rightarrow> nat" where
  "range_to rg n = (if use_end_endpoint rg then n - 1 else unat (rg_end rg))"

definition range_fits :: "HttpRange \<Rightarrow> nat \<Rightarrow> bool" where
  "range_fits rg n \<longleftrightarrow> range_from rg \<le> range_to rg n \<and> range_to rg n < n"

definition range_part :: "HttpRange \<Rightarrow> string \<Rightarrow> string" where
  "range_part rg content = take (Suc (range_to rg (length content)) - range_from rg) (drop (range_from rg) content)"

lemma open_flags [simp]:
  "has_flag HTTP_FILE_FLAG_OPEN HTTP_FILE_FLAG_CREATE = False"
  "has_flag HTTP_FILE_FLAG_OPEN HTTP_FILE_FLAG_CREATE_NEW = False"
  "has_flag HTTP_FILE_FLAG_OPEN HTTP_FILE_FLAG_WRITE = False"
  by (simp_all add: has_flag_def HTTP_FILE_FLAG_OPEN_def)

text \<open>Opening a shared file succeeds exactly when the range is in it.\<close>

lemma file_generate_shared:
  assumes "shared_file H w name content"
  shows "if range_fits rg (length content)
    then \<exists>f. file_generate H w name rg HTTP_FILE_FLAG_OPEN = (Some f, w) \<and> file_ok H w content f \<and> fb_name f = name \<and>
      fb_size f = file_size H w name \<and> file_section content f = range_part rg content
    else fst (file_generate H w name rg HTTP_FILE_FLAG_OPEN) = None"
proof -
  let ?sz = "file_size H w name"
  define e where "e = (if use_end_endpoint rg then ?sz - 1 else rg_end rg)"
  define s where "s = (if use_start_endpoint rg then 0 else rg_start rg)"
  define b where "b = FileBody_new\<lparr>fb_name := name, fb_flag := HTTP_FILE_FLAG_OPEN, fb_size := ?sz,
      fb_range := rg\<lparr>rg_total := ?sz, rg_start := s, rg_end := e\<rparr>\<rparr>"
  have sz: "unat ?sz = length content" "length content < 2 ^ 63" and m: "mapped H w name content"
    using assms by (simp_all add: shared_file_def)
  have s: "unat s = range_from rg" by (simp add: s_def range_from_def)
  have e: "unat e = range_to rg (length content)" if "content \<noteq> []"
  proof -
    have "?sz \<noteq> 0" using that sz(1) by auto
    then have "unat (?sz - 1) = unat ?sz - 1" by (simp add: unat_minus_one)
    then show ?thesis by (simp add: e_def range_to_def sz(1))
  qed
  have gen: "file_generate H w name rg HTTP_FILE_FLAG_OPEN =
      (if ?sz \<le> s \<or> ?sz \<le> e \<or> e < s then (None, file_destroy H w b) else (Some b, w))"
    using assms
    by (auto simp: file_generate_def file_init_def file_init_open_def file_init_range_def shared_file_def
        b_def s_def e_def FileBody_new_def Let_def)
  show ?thesis
  proof (cases "content = []")
    case True
    then have "?sz = 0" using sz(1) by (simp add: unat_eq_0)
    with True gen show ?thesis by (simp add: range_fits_def)
  next
    case False
    have fits: "range_fits rg (length content) \<longleftrightarrow> \<not> (?sz \<le> s \<or> ?sz \<le> e \<or> e < s)"
      using s e [OF False] sz(1) by (auto simp: range_fits_def word_le_nat_alt word_less_nat_alt)
    show ?thesis
    proof (cases "range_fits rg (length content)")
      case True
      have "file_ok H w content b"
        using True fits m sz by (simp add: file_ok_def b_def not_le not_less)
      moreover have "file_section content b = range_part rg content"
        using s e [OF False] by (simp add: file_section_def range_part_def b_def)
      ultimately show ?thesis using True fits gen by (auto simp: b_def)
    next
      case False
      with fits gen show ?thesis by simp
    qed
  qed
qed

lemma set_file_body_open:
  "file_generate H w name rg flag = (Some f, w') \<Longrightarrow>
     \<exists>h. set_file_body P H w s name rg flag = (True, w', s\<lparr>rs_head := h, rs_body := Some (file_body_of f)\<rparr>)"
  unfolding set_file_body_def Let_def by (simp only: prod.case option.case) (intro exI, rule refl)

lemma set_file_body_shared:
  assumes "shared_file H w name content"
  shows "if range_fits rg (length content)
    then \<exists>f h. set_file_body P H w s name rg HTTP_FILE_FLAG_OPEN =
        (True, w, s\<lparr>rs_head := h, rs_body := Some (file_body_of f)\<rparr>) \<and>
      file_ok H w content f \<and> fb_name f = name \<and> file_section content f = range_part rg content
    else \<exists>w'. set_file_body P H w s name rg HTTP_FILE_FLAG_OPEN = (False, w', s)"
proof (cases "range_fits rg (length content)")
  case True
  with file_generate_shared [OF assms, of rg] set_file_body_open [of H w name rg HTTP_FILE_FLAG_OPEN _ w P s]
  show ?thesis by fastforce
next
  case False
  with file_generate_shared [OF assms, of rg] show ?thesis
    by (cases "file_generate H w name rg HTTP_FILE_FLAG_OPEN") (simp add: set_file_body_def)
qed

lemma file_response_body:
  assumes "file_ok H w content f" and "cont (fb_name f) = content" and "rs_body r = Some (file_body_of f)"
  shows "response_body_ok H w cont r" and "response_body_bytes cont r = file_section content f"
proof -
  have "length (file_section content f) \<le> length content" by (simp add: file_section_def)
  with assms show "response_body_ok H w cont r" "response_body_bytes cont r = file_section content f"
    by (simp_all add: response_body_ok_def body_ok_def file_body_of_def base_body_def body_content_def
        response_body_bytes_def body_pending_def file_ok_def)
qed

subsection \<open>Which requests are served\<close>

definition wanted_range :: "platform \<Rightarrow> HttpRequest \<Rightarrow> HttpRange" where
  "wanted_range P q = (case get_range P (rq_head q) HttpRange_default of (ok, rg) \<Rightarrow> if ok then rg else HttpRange_default)"

definition wants_file :: "FileServce \<Rightarrow> 'w dir_host \<Rightarrow> HttpRequest \<Rightarrow> string \<Rightarrow> bool" where
  "wants_file fs D q dir \<longleftrightarrow>
     (\<exists>url. HnwUtil_UrlDecode (rl_path (rq_line q)) = Some url \<and> dir = file_dir fs @ utf8_to_ansi D url) \<and>
     (get_query (rq_line q) ''action'' [] = [] \<or> get_query (rq_line q) ''action'' [] = ''donwload'')"

definition numbered :: "platform \<Rightarrow> HttpRequest \<Rightarrow> HttpResponse \<Rightarrow> HttpResponse" where
  "numbered P q r = r\<lparr>rs_line := status_code (rs_line r)
     (if fst (get_range P (rq_head q) HttpRange_default) then ''206'' else ''200'')\<rparr>"

lemma response_html_page_null:
  "rs_body r = None \<Longrightarrow> response_html_page E w r s = (if s = [] then Some (HNW_BASE_NO_SUPPORT, r, w) else None)"
  by (simp add: response_html_page_def)

lemma response_file_split:
  "response_file E D w q r dir =
     (case set_file_body (env_platform E) (env_host E) w (numbered (env_platform E) q r) dir
         (wanted_range (env_platform E) q) HTTP_FILE_FLAG_OPEN of
        (ok, w, r) \<Rightarrow> if ok then Some (HNW_BASE_OK, r, w)
          else response_error E D w q r HNW_BASE_NUKNOW_ERROR set_file_body_msg)"
  by (simp add: response_file_def numbered_def wanted_range_def Let_def split: prod.splits)

lemma on_request_file:
  assumes "wants_file fs D q dir" and "file_is_exist (env_host E) w dir" and "\<not> is_directory D w dir"
  shows "on_request E D fs w q r = response_file E D w q r dir"
  using assms by (auto simp: on_request_def wants_file_def Let_def)

subsection \<open>Answers without a body\<close>

text \<open>A connected server session that is not sending.\<close>

definition idle_server :: "('u, 'w) env \<Rightarrow> ('u, 'w) http_service \<Rightarrow> int \<Rightarrow> session \<Rightarrow> 'u sp_cb channel \<Rightarrow> bool" where
  "idle_server E sv h se ch \<longleftrightarrow> http_ok sv \<and> get_session sv h = Some se \<and> se_type se = Server \<and>
     connect_flag se \<and> \<not> send_flag se \<and> ready (env_net E) (hs_base sv) h ch"

lemma idle_server_pending: "idle_server E sv h se ch \<Longrightarrow> session_pending P cont se = []"
  using http_okD [of sv h se]
  by (auto simp: idle_server_def session_wf_def session_pending_def current_text_def)

lemma idle_server_ok: "idle_server E sv h se ch \<Longrightarrow> session_ok H w cont se"
  using http_okD [of sv h se] by (auto simp: idle_server_def session_wf_def session_ok_def)

text \<open>Sending a message with neither a length nor a body dereferences the null body at once.\<close>

lemma null_body_faults:
  assumes "idle_server E sv h se ch" and "rs_body m = None" and "get_head_count (rs_head m) HTTP_LEN = 0"
    and "hs_fault sv = None"
  shows "hs_fault (snd (HnwHttp_Response E sv h (Some m))) = Some Undefined"
proof -
  let ?se1 = "appended se m True"
  let ?s1 = "update_session sv h (\<lambda>_. ?se1)"
  have se: "get_session sv h = Some se" "se_type se = Server" "connect_flag se" "\<not> send_flag se" "se_handle se = h"
    and idle: "response_queue se = []" "ss_response (send_status se) = None"
    and ready: "ready (env_net E) (hs_base ?s1) h ch"
    using assms(1) http_okD [of sv h se] by (auto simp: idle_server_def session_wf_def)
  have q: "response_queue ?se1 = [m]" "ss_response (send_status ?se1) = None"
    using idle by (simp_all add: appended_def)
  have "take_response (env_platform E) ?se1 m [] = None"
    using assms(2,3) by (simp add: take_response_def pre_send_response_def)
  then have "on_read_response (env_platform E) (env_host E) w ?se1 n = None" for w n
    by (subst on_read_response.simps) (simp add: q)
  then have "on_read (env_platform E) (env_host E) w ?se1 n = None" for w n
    using se(2) by (simp add: on_read_def)
  then have cb: "on_read_cb E (hs_world ?s1) (Some (?se1, [])) n = ([], None)" for n
    by (simp add: on_read_cb_def)
  from service_send_cb_ready [where f = "on_read_cb E (hs_world ?s1)" and s = "Some (?se1, [])", OF ready cb]
  obtain ef out where
    "service_send_cb (env_net E) (hs_base ?s1) h (Some (on_read_cb E (hs_world ?s1))) (Some (?se1, [])) =
      (HNW_BASE_OK, ef, out, None)" by auto
  then have "HnwBase_Send_Cb E ?s1 h ?se1 = (HNW_BASE_OK, hs_fail Undefined ?s1)"
    by (simp add: HnwBase_Send_Cb_def)
  with se assms(4) show ?thesis
    by (simp add: HnwHttp_Response_def send_response_def session_call_def start_send_def hs_fail_def appended_def)
qed

lemma close_fault [simp]: "hs_fault (snd (HnwBase_Close E sv h)) = hs_fault sv"
  by (simp add: HnwBase_Close_def log_chan_def split: prod.split)

lemma send_or_close_fault: "hs_fault (send_or_close E h m sv) = hs_fault (snd (HnwHttp_Response E sv h (Some m)))"
  by (simp add: send_or_close_def HnwHttp_Close_def split: prod.split)

lemma challenge_length:
  "get_head_count (rs_head (auth_challenge E D fs w (fresh_response P q))) HTTP_LEN = 0"
  by (cases "auth_mode fs")
    (simp_all add: auth_challenge_def fresh_response_def set_www_authenticate_def set_keep_alive_def
      HttpResponse_new_def get_head_count_def add_head_def del_head_def HTTP_LEN_def HTTP_CONN_def HTTP_WWW_AUTH_def Let_def)

text \<open>The conversion of a page, which is never empty, is not empty either.\<close>

definition converts :: "'w dir_host \<Rightarrow> bool" where
  "converts D \<longleftrightarrow> (\<forall>s. s \<noteq> [] \<longrightarrow> ansi_to_utf8 D s \<noteq> [])"

lemma pages_null:
  assumes "converts D" and "rs_body r = None"
  shows "response_error E D w q r code msg = None" and "response_dir E D w r dir path = None"
    and "response_video_play_page E D w r path = None"
  using assms
  by (simp_all add: converts_def response_error_def response_dir_def response_video_play_page_def error_html_def
      list_to_html_def video_html_def response_html_page_null Let_def split: option.split)

text \<open>Every file of the host that is no directory can be shared.\<close>

definition regular_host :: "'w host \<Rightarrow> 'w dir_host \<Rightarrow> 'w \<Rightarrow> bool" where
  "regular_host H D w \<longleftrightarrow>
     (\<forall>dir. file_is_exist H w dir \<and> \<not> is_directory D w dir \<longrightarrow> (\<exists>content. shared_file H w dir content))"

definition served :: "platform \<Rightarrow> 'w host \<Rightarrow> 'w dir_host \<Rightarrow> 'w \<Rightarrow> FileServce \<Rightarrow> HttpRequest \<Rightarrow> bool" where
  "served P H D w fs q \<longleftrightarrow> authorized P fs q \<and>
     (\<exists>dir content. wants_file fs D q dir \<and> shared_file H w dir content \<and> \<not> is_directory D w dir \<and>
        range_fits (wanted_range P q) (length content))"

lemma on_request_null:
  assumes "converts D" and "regular_host (env_host E) D w" and "rs_body r = None"
    and "\<not> (\<exists>dir content. wants_file fs D q dir \<and> shared_file (env_host E) w dir content \<and> \<not> is_directory D w dir \<and>
        range_fits (wanted_range (env_platform E) q) (length content))"
  shows "on_request E D fs w q r = None"
proof (cases "HnwUtil_UrlDecode (rl_path (rq_line q))")
  case None
  then show ?thesis by (simp add: on_request_def)
next
  case (Some url)
  let ?dir = "file_dir fs @ utf8_to_ansi D url" and ?P = "env_platform E"
  note null = pages_null [OF assms(1,3)]
  show ?thesis
  proof (cases "wants_file fs D q ?dir \<and> file_is_exist (env_host E) w ?dir \<and> \<not> is_directory D w ?dir")
    case True
    then obtain content where c: "shared_file (env_host E) w ?dir content"
      using assms(2) by (auto simp: regular_host_def)
    have "\<not> range_fits (wanted_range ?P q) (length content)" using True c assms(4) by blast
    with set_file_body_shared [OF c] obtain w' where
      "set_file_body ?P (env_host E) w (numbered ?P q r) ?dir (wanted_range ?P q) HTTP_FILE_FLAG_OPEN =
        (False, w', numbered ?P q r)" by (metis (no_types, lifting))
    moreover have "rs_body (numbered ?P q r) = None" by (simp add: numbered_def assms(3))
    ultimately show ?thesis
      using True on_request_file [of fs D q ?dir E w r] pages_null(1) [OF assms(1)]
      by (simp add: response_file_split)
  next
    case False
    then show ?thesis
      using Some null by (auto simp: on_request_def wants_file_def Let_def)
  qed
qed

text \<open>
  C14: The file server answers nothing but files. A new response has no body, and every answer that
  is not a file is written to it or sent without it: a request that is refused, or for a directory,
  a missing or an empty file, a range outside the file, a page to play a video or an unknown
  action makes the server dereference a null pointer.
\<close>

theorem file_server_faults:
  assumes "idle_server E sv h se ch" and "env_alloc E" and "hs_fault sv = None"
    and "converts D" and "regular_host (env_host E) D (hs_world sv)"
    and "\<not> served (env_platform E) (env_host E) D (hs_world sv) fs q"
  shows "hs_fault (http_event_cb E D fs h (RecvRequest q) sv) = Some Undefined"
proof (cases "authorized (env_platform E) fs q")
  case True
  have "on_request E D fs (hs_world sv) q (fresh_response (env_platform E) q) = None"
    by (rule on_request_null) (use assms(4-6) True in \<open>auto simp: served_def\<close>)
  with True assms(3) show ?thesis
    by (simp add: http_event_cb_request [OF assms(2)] file_answer_def hs_fail_def)
next
  case False
  with null_body_faults [OF assms(1) _ challenge_length assms(3)] show ?thesis
    by (simp add: http_event_cb_request [OF assms(2)] send_or_close_fault)
qed

subsection \<open>Sending a file\<close>

definition file_reply :: "('u, 'w) env \<Rightarrow> 'w \<Rightarrow> HttpRequest \<Rightarrow> string \<Rightarrow> HttpResponse" where
  "file_reply E w q dir =
     snd (snd (set_file_body (env_platform E) (env_host E) w
       (numbered (env_platform E) q (fresh_response (env_platform E) q)) dir
       (wanted_range (env_platform E) q) HTTP_FILE_FLAG_OPEN))"

lemma on_request_shared:
  assumes "wants_file fs D q dir" and "shared_file (env_host E) w dir content" and "\<not> is_directory D w dir"
    and "range_fits (wanted_range (env_platform E) q) (length content)"
  shows "on_request E D fs w q (fresh_response (env_platform E) q) = Some (HNW_BASE_OK, file_reply E w q dir, w)"
    and "response_body_ok (env_host E) w (\<lambda>_. content) (file_reply E w q dir)"
    and "response_body_bytes (\<lambda>_. content) (file_reply E w q dir) =
      range_part (wanted_range (env_platform E) q) content"
    and "rs_line (file_reply E w q dir) = rs_line (numbered (env_platform E) q (fresh_response (env_platform E) q))"
proof -
  let ?s = "numbered (env_platform E) q (fresh_response (env_platform E) q)"
  from set_file_body_shared [OF assms(2), of "wanted_range (env_platform E) q" "env_platform E" ?s] assms(4)
  obtain f hd where b: "set_file_body (env_platform E) (env_host E) w ?s dir (wanted_range (env_platform E) q)
        HTTP_FILE_FLAG_OPEN = (True, w, ?s\<lparr>rs_head := hd, rs_body := Some (file_body_of f)\<rparr>)"
    and f: "file_ok (env_host E) w content f" "file_section content f = range_part (wanted_range (env_platform E) q) content"
    by auto
  have r: "file_reply E w q dir = ?s\<lparr>rs_head := hd, rs_body := Some (file_body_of f)\<rparr>"
    by (simp add: file_reply_def b)
  have "file_is_exist (env_host E) w dir" using assms(2) by (simp add: shared_file_def)
  from on_request_file [OF assms(1) this assms(3), of "fresh_response (env_platform E) q"]
  show "on_request E D fs w q (fresh_response (env_platform E) q) = Some (HNW_BASE_OK, file_reply E w q dir, w)"
    by (simp add: response_file_split b r)
  show "response_body_ok (env_host E) w (\<lambda>_. content) (file_reply E w q dir)"
    "response_body_bytes (\<lambda>_. content) (file_reply E w q dir) = range_part (wanted_range (env_platform E) q) content"
    using file_response_body [OF f(1), of "\<lambda>_. content" "file_reply E w q dir"] f(2) by (simp_all add: r)
  show "rs_line (file_reply E w q dir) = rs_line ?s" by (simp add: r)
qed

lemma file_sent:
  assumes "idle_server E sv h se ch" and "env_alloc E" and "authorized (env_platform E) fs q"
    and "wants_file fs D q dir" and "shared_file (env_host E) (hs_world sv) dir content"
    and "\<not> is_directory D (hs_world sv) dir" and "range_fits (wanted_range (env_platform E) q) (length content)"
  shows "\<exists>sv' se' ef. http_event_cb E D fs h (RecvRequest q) sv = sv' \<and>
    sends_message E (\<lambda>_. content) sv h se (file_reply E (hs_world sv) q dir) sv' se' ef \<and>
    response_body_bytes (\<lambda>_. content) (file_reply E (hs_world sv) q dir) =
      range_part (wanted_range (env_platform E) q) content \<and>
    sl_status_code (rs_line (file_reply E (hs_world sv) q dir)) =
      (if fst (get_range (env_platform E) (rq_head q) HttpRange_default) then ''206'' else ''200'')"
proof -
  note o = on_request_shared [OF assms(4-7)]
  have i: "http_ok sv" "get_session sv h = Some se" "se_type se = Server" "connect_flag se"
    "ready (env_net E) (hs_base sv) h ch" using assms(1) by (simp_all add: idle_server_def)
  from response_sends [OF i(1-4) idle_server_ok [OF assms(1)] o(2) i(5)] obtain sv' se' ef where
    s: "HnwHttp_Response E sv h (Some (file_reply E (hs_world sv) q dir)) = (HNW_BASE_OK, sv')"
      "sends_message E (\<lambda>_. content) sv h se (file_reply E (hs_world sv) q dir) sv' se' ef" by blast
  have "http_event_cb E D fs h (RecvRequest q) sv = sv'"
    using assms(3) s(1) by (simp add: http_event_cb_request [OF assms(2)] file_answer_def o(1) send_or_close_def)
  moreover have "sl_status_code (rs_line (file_reply E (hs_world sv) q dir)) =
      (if fst (get_range (env_platform E) (rq_head q) HttpRange_default) then ''206'' else ''200'')"
    by (simp add: o(4) numbered_def status_code_def)
  ultimately show ?thesis using s(2) o(3) by blast
qed

subsection \<open>Concrete instances\<close>

text \<open>A host whose only file lies beside the directory that is shared.\<close>

definition file_host :: "unit host" where
  "file_host = host1\<lparr>file_is_exist := \<lambda>_ n. n = ''/srv/../key''\<rparr>"

definition file_test_env :: "(nat, unit) env" where
  "file_test_env = silent_env\<lparr>env_host := file_host\<rparr>"

definition plain_dirs :: "unit dir_host" where
  "plain_dirs = \<lparr>is_directory = \<lambda>_ n. n = ''/srv/'', directory_iterator = \<lambda>_ _. [], ansi_to_utf8 = \<lambda>s. s,
     utf8_to_ansi = \<lambda>s. s, time_null = \<lambda>_. 0\<rparr>"

definition open_server :: FileServce where
  "open_server = (FileServce_new NoneAuth)\<lparr>file_dir := ''/srv'', fs_username := ''admin'', fs_password := ''admin''\<rparr>"

definition ask_for :: "string \<Rightarrow> HttpRequest" where
  "ask_for path = HttpRequest_new\<lparr>rq_line := RequestLine_default\<lparr>rl_path := path\<rparr>\<rparr>"

lemma file_test_env_simps [simp]:
  "env_alloc file_test_env" "env_platform file_test_env = platform0" "env_host file_test_env = file_host"
  "env_net file_test_env = net1"
  by (simp_all add: file_test_env_def silent_env_def)

lemma sample_idle:
  "idle_server file_test_env (sample_http_service Server True) 5 ((session_generate 5 Server)\<lparr>connect_flag := True\<rparr>)
     ((Channel_new TCP_CLIENT 5)\<lparr>ch_make_shared := True, bconn := True\<rparr>)"
  using sample_http_service_ok [of Server True] sample_http_service_ready [of Server True]
  by (simp add: idle_server_def sample_http_service_session)
    (simp add: session_generate_def add_session_head_def Let_def)

lemma sample_key: "shared_file file_host () ''/srv/../key'' ''hello''"
  by (simp add: shared_file_def file_host_def host1_def mapped_def)

lemma sample_wants: "wants_file open_server plain_dirs (ask_for ''/../key'') ''/srv/../key''"
  by (simp add: wants_file_def ask_for_def HnwUtil_UrlDecode_def open_server_def plain_dirs_def get_query_def
      RequestLine_default_def omap_get_def)

lemma get_head_Nil: "get_head P [] k nf = nf"
  by (simp add: get_head_def umm_find_def umm_iter_def)

lemma sample_range: "get_range platform0 (rq_head (ask_for path)) HttpRange_default = (False, HttpRange_default)"
  by (simp add: ask_for_def HttpRequest_new_def get_range_def get_head_Nil Let_def)

lemma sample_wanted [simp]: "wanted_range platform0 (ask_for path) = HttpRange_default"
  by (simp add: wanted_range_def sample_range)

lemma open_server_authorized: "authorized P open_server q"
  by (simp add: authorized_def open_server_def FileServce_new_def)

theorem file_login_required_witness:
  "\<exists>m. http_event_cb file_test_env plain_dirs (open_server\<lparr>auth_mode := DigestAuth\<rparr>) 5 (RecvRequest (ask_for ''/../key''))
     (sample_http_service Server True) = send_or_close file_test_env 5 m (sample_http_service Server True) \<and>
     sl_status_code (rs_line m) = ''401''"
proof -
  let ?q = "ask_for ''/../key''" and ?fs = "open_server\<lparr>auth_mode := DigestAuth\<rparr>"
    and ?sv = "sample_http_service Server True" and ?E = "file_test_env"
  have a: "auth_mode ?fs \<noteq> NoneAuth" by simp
  have n: "\<not> check_auth (env_platform ?E) (get_authorization (env_platform ?E) (rq_head ?q)) (fs_password ?fs)
      (rl_method (rq_line ?q))"
    by (simp add: ask_for_def HttpRequest_new_def get_authorization_def get_head_Nil HnwAuthorization_default_def
        check_auth_def Let_def)
  from file_login_required [OF file_test_env_simps(1) a n, of plain_dirs 5 ?sv] obtain m where
    m: "\<forall>l. rl_method l = rl_method (rq_line ?q) \<longrightarrow>
      http_event_cb ?E plain_dirs ?fs 5 (RecvRequest (?q\<lparr>rq_line := l\<rparr>)) ?sv = send_or_close ?E 5 m ?sv"
    "sl_status_code (rs_line m) = ''401''" by blast
  have "?q\<lparr>rq_line := rq_line ?q\<rparr> = ?q" by simp
  with m(1) have "http_event_cb ?E plain_dirs ?fs 5 (RecvRequest ?q) ?sv = send_or_close ?E 5 m ?sv" by metis
  with m(2) show ?thesis by blast
qed

theorem file_server_faults_witness:
  "hs_fault (http_event_cb file_test_env plain_dirs open_server 5 (RecvRequest (ask_for ''/''))
     (sample_http_service Server True)) = Some Undefined"
proof -
  have c: "converts plain_dirs" by (simp add: converts_def plain_dirs_def)
  have r: "regular_host (env_host file_test_env) plain_dirs (hs_world (sample_http_service Server True))"
    using sample_key by (auto simp: regular_host_def file_host_def host1_def)
  have "\<not> wants_file open_server plain_dirs (ask_for ''/'') ''/srv/../key''"
    by (simp add: wants_file_def ask_for_def HnwUtil_UrlDecode_def open_server_def plain_dirs_def)
  then have "\<not> served (env_platform file_test_env) (env_host file_test_env) plain_dirs
      (hs_world (sample_http_service Server True)) open_server (ask_for ''/'')"
    by (auto simp: served_def shared_file_def file_host_def)
  from file_server_faults [OF sample_idle _ _ c r this] show ?thesis
    by (simp add: sample_http_service_def HttpService_new_def)
qed

end
