(* ===== verification/File_Exchange.thy ===== *)
theory File_Exchange
  imports File_Contract
begin

section \<open>The file server behind its parser\<close>

text \<open>
  The callback of the file server runs while the parser of its session is at work: a block of data goes
  through \<open>event_cb\<close> to the session, the session's parser raises the request, the callback answers
  on the very session, and the parser is put back into it.
\<close>

subsection \<open>A server whose callback answers\<close>

text \<open>A server's session with its callback, as \<open>receives\<close>, in a table that has it.\<close>

definition has_session :: "int \<Rightarrow> ('u, 'w) http_service \<Rightarrow> bool" where
  "has_session h sv \<longleftrightarrow> omap_ok (session_map sv) \<and> get_session sv h \<noteq> None"

lemma has_session_update [simp]: "has_session h sv \<Longrightarrow> has_session h (update_session sv k f)"
  by (auto simp: has_session_def update_session_ok get_session_update)

lemma has_session_same [simp]:
  "has_session h (log_chan ef sv) = has_session h sv" "has_session h (hs_fail f sv) = has_session h sv"
  "has_session h (sv\<lparr>hs_world := w\<rparr>) = has_session h sv" "has_session h (sv\<lparr>hs_base := b\<rparr>) = has_session h sv"
  by (simp_all add: has_session_def get_session_def log_chan_def hs_fail_def)

lemma has_session_close [simp]: "has_session h (snd (HnwBase_Close E sv k)) = has_session h sv"
  by (simp add: HnwBase_Close_def split: prod.split)

lemma has_session_closes [simp]: "has_session h (run_closes E sv efs) = has_session h sv"
  by (induction efs arbitrary: sv) (simp_all add: run_closes_def split: session_effect.split)

lemma has_session_response: "has_session h sv \<Longrightarrow> HnwHttp_Response E sv k r = (ret, sv') \<Longrightarrow> has_session h sv'"
  by (auto simp: HnwHttp_Response_def session_call_def HnwBase_Send_Cb_def Let_def
      split: option.splits prod.splits if_splits)

lemma has_session_send_or_close: "has_session h sv \<Longrightarrow> has_session h (send_or_close E k r sv)"
  using has_session_response by (auto simp: send_or_close_def HnwHttp_Close_def split: prod.split)

lemma has_session_http_event_cb: "has_session h sv \<Longrightarrow> has_session h (http_event_cb E D fs k ev sv)"
  by (auto simp: http_event_cb_def file_answer_def HnwHttp_Close_def has_session_send_or_close Let_def
      split: http_event.split option.split prod.split)

text \<open>An event of the parser reaches the callback; a block of data is nothing to it.\<close>

lemma file_parser_event:
  assumes "has_session h sv" and "\<forall>e. ev \<noteq> BaseEvent e"
  shows "parser_event_cb (file_env E D fs) (Some (UserEvent u)) h ev sv = (ev, http_event_cb E D fs h ev sv)"
  using assms
  by (auto simp: parser_event_cb_def event_cb_with_def call_event_cb_def file_env_def has_session_def
      split: http_event.split)

lemma file_hears: "hears (file_env E D fs) u h (has_session h) (http_event_cb E D fs h)"
  unfolding hears_def
  by (intro allI impI conjI) (elim conjE, erule (1) file_parser_event, elim conjE, erule has_session_http_event_cb)

lemma file_env_simps [simp]:
  "env_platform (file_env E D fs) = env_platform E" "env_host (file_env E D fs) = env_host E"
  by (simp_all add: file_env_def)

lemma receives_session:
  "receives sv h u p \<Longrightarrow> has_session h sv \<and> session_cb sv h = Some (UserEvent u) \<and>
     (\<exists>se. get_session sv h = Some se \<and> recv_parser se = p)"
  by (auto simp: receives_def has_session_def get_session_def session_cb_def)

lemma file_block:
  assumes "receives sv h u (ReqParser st)" and "req_ok (Pair :: _ \<Rightarrow> unit \<Rightarrow> _) k st" and "length d \<le> k"
    and "parser_run (env_platform E) (ReqParser st) d = Some (p', ev)"
  shows "snd (event_cb (file_env E D fs) (Some (UserEvent u)) h (BaseEvent (EvRecvData d)) sv) =
    update_session (fold (http_event_cb E D fs h) ev sv) h (set_parser p')"
proof -
  from receives_session [OF assms(1)] obtain se where s: "has_session h sv" "get_session sv h = Some se"
    "session_cb sv h = Some (UserEvent u)" "recv_parser se = ReqParser st" by blast
  have "session_recv (file_env E D fs) h d sv = update_session (fold (http_event_cb E D fs h) ev sv) h (set_parser p')"
    using session_recv_request [where E = "file_env E D fs" and I = "has_session h" and
        deliver = "http_event_cb E D fs h", OF file_hears s assms(2,3)] assms(4) by simp
  with s(2) show ?thesis
    by (simp add: event_cb_def event_cb_with_def call_event_cb_def) (simp add: file_env_def http_event_cb_def)
qed

lemma set_parser_received:
  assumes "receives sv h u (ReqParser st)"
  shows "update_session sv h (set_parser (ReqParser st')) = received sv h (ReqParser st') (hs_world sv)"
  using assms by (auto simp: receives_def received_def update_session_def set_parser_def)

text \<open>Blocks that raise no event only move the parser on.\<close>

lemma parser_runs_ok:
  "parser_ok k p \<Longrightarrow> length (concat ds) \<le> k \<Longrightarrow> parser_runs P p ds = Some (p', ev) \<Longrightarrow>
     parser_ok (k - length (concat ds)) p'"
proof (induction ds arbitrary: k p ev)
  case Nil
  then show ?case by simp
next
  case (Cons d ds)
  then obtain p1 ev1 ev2 where one: "parser_run P p d = Some (p1, ev1)" "parser_runs P p1 ds = Some (p', ev2)"
    by (auto split: option.splits)
  have "length d \<le> k" "length (concat ds) \<le> k - length d" using Cons.prems(2) by simp_all
  with Cons.IH [OF parser_run_ok [OF Cons.prems(1) _ one(1)] _ one(2)] show ?case by simp
qed

lemma parser_run_request: "parser_run P (ReqParser st) d = Some (p', ev) \<Longrightarrow> \<exists>st'. p' = ReqParser st'"
  by (auto simp: parser_run_def input_data_OK)

lemma file_quiet_blocks:
  "receives sv h u (ReqParser st) \<Longrightarrow> req_ok (Pair :: _ \<Rightarrow> unit \<Rightarrow> _) k st \<Longrightarrow> length (concat ds) \<le> k \<Longrightarrow>
     parser_runs (env_platform E) (ReqParser st) ds = Some (ReqParser st', []) \<Longrightarrow>
     recv_blocks (file_env E D fs) (Some (UserEvent u)) h ds sv = received sv h (ReqParser st') (hs_world sv)"
proof (induction ds arbitrary: sv st k)
  case Nil
  then show ?case by (simp add: recv_blocks_def received_same)
next
  case (Cons d ds)
  then obtain p1 where one: "parser_run (env_platform E) (ReqParser st) d = Some (p1, [])"
    "parser_runs (env_platform E) p1 ds = Some (ReqParser st', [])"
    by (auto split: option.splits)
  from parser_run_request [OF one(1)] obtain st1 where p1: "p1 = ReqParser st1" by blast
  have len: "length d \<le> k" "length (concat ds) \<le> k - length d" using Cons.prems(3) by simp_all
  have ok1: "req_ok (Pair :: _ \<Rightarrow> unit \<Rightarrow> _) (k - length d) st1"
    using parser_run_ok [of k "ReqParser st" d "env_platform E" "ReqParser st1" "[]"] Cons.prems(2) len(1) one(1) p1
    by (simp add: parser_ok_def)
  let ?sv1 = "received sv h (ReqParser st1) (hs_world sv)"
  have b: "snd (event_cb (file_env E D fs) (Some (UserEvent u)) h (BaseEvent (EvRecvData d)) sv) = ?sv1"
    using file_block [OF Cons.prems(1,2) len(1) one(1), of D fs] set_parser_received [OF Cons.prems(1)] by (simp add: p1)
  have "recv_blocks (file_env E D fs) (Some (UserEvent u)) h ds ?sv1 = received ?sv1 h (ReqParser st') (hs_world ?sv1)"
    by (rule Cons.IH [OF receives_received(1) [OF Cons.prems(1)] ok1 len(2) one(2) [unfolded p1]])
  then show ?case using b receives_received(2) [OF Cons.prems(1)] by (simp add: recv_blocks_def)
qed

subsection \<open>A request in pieces\<close>

lemma input_pieces_append:
  "input_pieces step st w (xs @ ys) =
     (case input_pieces step st w xs of
        None \<Rightarrow> None
      | Some (ret, st, w, ev) \<Rightarrow>
          if ret \<noteq> HNW_BASE_OK then Some (ret, st, w, ev)
          else map_option (\<lambda>(ret, st, w, ev'). (ret, st, w, ev @ ev')) (input_pieces step st w ys))"
proof (induction xs arbitrary: st w)
  case Nil
  then show ?case by (cases "input_pieces step st w ys") (auto split: prod.split)
next
  case (Cons x xs)
  then show ?case by (auto simp: option.map_comp comp_def split_def split: option.splits)
qed

text \<open>Without its last line feed a request raises nothing.\<close>

lemma request_unfinished:
  assumes "request_text_ok l" and "\<forall>p \<in> set ps. field_ok p"
  shows "input_data (req_step P H Pair) req_reset w (butlast (request_text l ps [])) =
    Some (HNW_BASE_OK, req_at_head l ps, w, [])"
proof -
  have t: "butlast (request_text l ps []) = request_line_string l @ CRLF @ concat (map head_line ps) @ [CR]"
    by (simp add: request_text_def CRLF_def CR_def LF_def butlast_append)
  have "req_step P H Pair (req_at_head l ps) w [CR] = Some (HNW_BASE_OK, [], req_at_head l ps, w, [])"
    by (rule req_step_CR) (simp add: in_lines_def req_at_head_def)
  then have "input_data_loop (req_step P H Pair) (req_at_head l ps) w [CR] [] =
      Some (HNW_BASE_OK, req_at_head l ps, w, [])"
    by (subst input_data_loop.simps) (simp add: input_data_loop.simps [of _ _ _ "[]"])
  then show ?thesis
    unfolding input_data_def t req_loop_start_line [OF assms(1)] req_loop_heads [OF assms(2)] by simp
qed

lemma request_split:
  assumes "request_text_ok l" and "\<forall>p \<in> set ps. field_ok p" and "length (request_text l ps []) < 2 ^ 64"
    and "concat ds @ d = request_text l ps []" and "d \<noteq> []"
  shows "\<exists>st. parser_runs P (ReqParser req_reset) ds = Some (ReqParser st, []) \<and>
    req_ok (Pair :: _ \<Rightarrow> unit \<Rightarrow> _) (length d) st \<and>
    parser_run P (ReqParser st) d = Some (ReqParser req_reset,
      [RecvRequestHead (read_request l ps), RecvRequest (read_request l ps)])"
proof -
  let ?step = "req_step P host1 (Pair :: _ \<Rightarrow> unit \<Rightarrow> _)" and ?n = "length (request_text l ps [])"
  have ok: "req_ok (Pair :: _ \<Rightarrow> unit \<Rightarrow> _) ?n req_reset"
    by (rule req_reset_ok) (use assms(3) in \<open>auto simp: req_plain_def\<close>)
  have cut: "concat (ds @ [butlast d]) = butlast (request_text l ps [])"
    using assms(5) by (simp add: assms(4) [symmetric] butlast_append)
  have "input_pieces ?step req_reset () (ds @ [butlast d]) = Some (HNW_BASE_OK, req_at_head l ps, (), [])"
    using req_pieces.pieces_concat [OF ok, of "ds @ [butlast d]" P host1 "()"] request_unfinished [OF assms(1,2)]
    unfolding cut by simp
  then obtain st where st: "input_pieces ?step req_reset () ds = Some (HNW_BASE_OK, st, (), [])"
    by (auto simp: input_pieces_append split: option.splits if_splits)
  have "input_pieces ?step req_reset () (ds @ [d]) = Some (HNW_BASE_OK, req_reset, (), request_events l ps)"
    using req_pieces.pieces_concat [OF ok, of "ds @ [d]" P host1 "()"] req_loop_message [OF assms(1,2), of P host1 "()" "[]" "[]"]
      assms(4) by (simp add: input_data_def input_data_loop.simps [of _ _ _ "[]"])
  then have "input_data ?step st () d = Some (HNW_BASE_OK, req_reset, (), request_events l ps)"
    by (auto simp: input_pieces_append st split: option.splits if_splits)
  then have run: "parser_run P (ReqParser st) d = Some (ReqParser req_reset,
      [RecvRequestHead (read_request l ps), RecvRequest (read_request l ps)])"
    by (simp add: parser_run_def request_events_def)
  have runs: "parser_runs P (ReqParser req_reset) ds = Some (ReqParser st, [])"
    using parser_runs_requests [OF st] by simp
  have "req_ok (Pair :: _ \<Rightarrow> unit \<Rightarrow> _) (?n - length (concat ds)) st"
    using parser_runs_ok [of ?n "ReqParser req_reset" ds P "ReqParser st" "[]"] ok runs assms(4) [symmetric]
    by (simp add: parser_ok_def)
  moreover have "?n - length (concat ds) = length d" unfolding assms(4) [symmetric] by simp
  ultimately show ?thesis using run runs by auto
qed

text \<open>
  A request in any pieces, the last of them not empty: the callback of the file server runs once, on the
  service as it was but for the parser of the session, and then the parser starts anew.
\<close>

lemma file_request_received:
  assumes "receives sv h u (ReqParser req_reset)" and "request_text_ok l" and "\<forall>p \<in> set ps. field_ok p"
    and "length (request_text l ps []) < 2 ^ 64" and "concat ds @ d = request_text l ps []" and "d \<noteq> []"
  shows "\<exists>st. recv_blocks (file_env E D fs) (Some (UserEvent u)) h (ds @ [d]) sv =
    update_session (http_event_cb E D fs h (RecvRequest (read_request l ps))
      (received sv h (ReqParser st) (hs_world sv))) h (set_parser (ReqParser req_reset))"
proof -
  from request_split [OF assms(2-6), of "env_platform E"] obtain st where
    runs: "parser_runs (env_platform E) (ReqParser req_reset) ds = Some (ReqParser st, [])"
    and ok: "req_ok (Pair :: _ \<Rightarrow> unit \<Rightarrow> _) (length d) st"
    and run: "parser_run (env_platform E) (ReqParser st) d = Some (ReqParser req_reset,
      [RecvRequestHead (read_request l ps), RecvRequest (read_request l ps)])" by blast
  have ok0: "req_ok (Pair :: _ \<Rightarrow> unit \<Rightarrow> _) (length (concat ds)) req_reset"
    by (rule req_reset_ok) (use assms(4) in \<open>auto simp: req_plain_def assms(5) [symmetric]\<close>)
  let ?sv1 = "received sv h (ReqParser st) (hs_world sv)"
  have "recv_blocks (file_env E D fs) (Some (UserEvent u)) h ds sv = ?sv1"
    by (rule file_quiet_blocks [OF assms(1) ok0 order_refl runs])
  moreover have "snd (event_cb (file_env E D fs) (Some (UserEvent u)) h (BaseEvent (EvRecvData d)) ?sv1) =
      update_session (http_event_cb E D fs h (RecvRequest (read_request l ps)) ?sv1) h (set_parser (ReqParser req_reset))"
    using file_block [OF receives_received(1) [OF assms(1)] ok order_refl run, of D fs] by (simp add: http_event_cb_def)
  ultimately show ?thesis by (intro exI [of _ st]) (simp add: recv_blocks_def)
qed

subsection \<open>The answer\<close>

lemma update_session_frame [simp]:
  "hs_world (update_session sv h f) = hs_world sv" "hs_log (update_session sv h f) = hs_log sv"
  "hs_base (update_session sv h f) = hs_base sv"
  by (simp_all add: update_session_def split: option.split prod.split)

lemma received_frame [simp]: "hs_log (received sv h p w) = hs_log sv" "hs_base (received sv h p w) = hs_base sv"
  by (simp_all add: received_def)

lemma set_parser_sending:
  "session_ok H w cont (set_parser p se) = session_ok H w cont se"
  "session_pending P cont (set_parser p se) = session_pending P cont se"
  "session_head (set_parser p se) = session_head se"
  by (cases p; cases "recv_parser se"; simp add: set_parser_def session_ok_def session_pending_def)+

lemma received_get:
  assumes "receives sv h u (ReqParser st)"
  shows "get_session (received sv h (ReqParser st') (hs_world sv)) k =
    (if k = h then map_option (set_parser (ReqParser st')) (get_session sv h) else get_session sv k)"
  using assms get_session_update [of sv h "set_parser (ReqParser st')" k]
  by (simp add: set_parser_received [OF assms, symmetric] receives_def)

lemma idle_received:
  assumes "idle_server E sv h se ch" and "receives sv h u (ReqParser st)"
  shows "idle_server E (received sv h (ReqParser st') (hs_world sv)) h (set_parser (ReqParser st') se) ch"
proof -
  have "http_ok (received sv h (ReqParser st') (hs_world sv))"
    unfolding set_parser_received [OF assms(2), symmetric]
    using assms(1) http_okD [of sv h] set_parser_wf by (intro http_ok_update) (simp_all add: idle_server_def)
  with assms(1) received_get [OF assms(2), of st' h] show ?thesis
    by (simp add: idle_server_def set_parser_def split: recv_parser.split)
qed

lemma sends_message_parser:
  assumes "sends_message E cont (received sv h (ReqParser st') (hs_world sv)) h (set_parser (ReqParser st') se) m sv' se' ef"
    and "receives sv h u (ReqParser st)" and "has_session h sv'"
  shows "sends_message E cont sv h se m (update_session sv' h (set_parser p)) (set_parser p se') ef"
  using assms(1,3) received_get [OF assms(2), of st'] get_session_update [of sv' h "set_parser p"]
  by (simp add: sends_message_def set_parser_sending has_session_def)

text \<open>The request of a file, in pieces, is answered with the file.\<close>

lemma file_served:
  assumes "idle_server E sv h se ch" and "receives sv h u (ReqParser req_reset)" and "env_alloc E"
    and "q = read_request l ps" and "authorized (env_platform E) fs q" and "wants_file fs D q dir"
    and "shared_file (env_host E) (hs_world sv) dir content" and "\<not> is_directory D (hs_world sv) dir"
    and "range_fits (wanted_range (env_platform E) q) (length content)"
    and "request_text_ok l" and "\<forall>p \<in> set ps. field_ok p" and "length (request_text l ps []) < 2 ^ 64"
    and "concat pieces = request_text l ps []" and "pieces \<noteq> []" and "last pieces \<noteq> []"
  shows "\<exists>se' ef. sends_message E (\<lambda>_. content) sv h se (file_reply E (hs_world sv) q dir)
      (recv_blocks (file_env E D fs) (Some (UserEvent u)) h pieces sv) se' ef \<and>
    response_body_bytes (\<lambda>_. content) (file_reply E (hs_world sv) q dir) =
      range_part (wanted_range (env_platform E) q) content \<and>
    sl_status_code (rs_line (file_reply E (hs_world sv) q dir)) =
      (if fst (get_range (env_platform E) (rq_head q) HttpRange_default) then ''206'' else ''200'')"
proof -
  have whole: "butlast pieces @ [last pieces] = pieces" using assms(14) by simp
  then have "concat (butlast pieces) @ last pieces = concat pieces"
    by (metis append_Nil2 concat.simps concat_append)
  note cut = this [unfolded assms(13)] whole
  from file_request_received [OF assms(2,10-12) cut(1) assms(15), of E D fs] obtain st where
    r: "recv_blocks (file_env E D fs) (Some (UserEvent u)) h pieces sv =
      update_session (http_event_cb E D fs h (RecvRequest q) (received sv h (ReqParser st) (hs_world sv))) h
        (set_parser (ReqParser req_reset))"
    unfolding cut(2) assms(4) by blast
  let ?sv1 = "received sv h (ReqParser st) (hs_world sv)"
  have w: "hs_world ?sv1 = hs_world sv" by simp
  from file_sent [where sv = ?sv1, unfolded w, OF idle_received [OF assms(1,2)] assms(3,5-9)] obtain sv' se' ef where
    s: "http_event_cb E D fs h (RecvRequest q) ?sv1 = sv'"
      "sends_message E (\<lambda>_. content) ?sv1 h (set_parser (ReqParser st) se) (file_reply E (hs_world sv) q dir) sv' se' ef"
    and b: "response_body_bytes (\<lambda>_. content) (file_reply E (hs_world sv) q dir) =
        range_part (wanted_range (env_platform E) q) content"
      "sl_status_code (rs_line (file_reply E (hs_world sv) q dir)) =
        (if fst (get_range (env_platform E) (rq_head q) HttpRange_default) then ''206'' else ''200'')" by blast
  have "has_session h ?sv1"
    using receives_session [OF receives_received(1) [OF assms(2), of "ReqParser st" "hs_world sv"]] by simp
  then have "has_session h sv'" using has_session_http_event_cb s(1) by blast
  from sends_message_parser [OF s(2) assms(2) this] b show ?thesis unfolding r s(1) by blast
qed

end
