(* ===== verification/Files_Downloader.thy ===== *)
theory Files_Downloader
  imports Http_Interface
begin

section \<open>The downloader of a list of files\<close>

text \<open>
  \<^verbatim>\<open>Example/FilesDownloader/FilesDownloader.cpp\<close>: a program that reads a file of settings and URLs,
  asks for every URL with \<open>HnwHttp_RequestGet\<close> and saves the answers. Its global variables are a
  record in the world of the HTTP service, beside the disk, because the callback \<open>on_response\<close>
  that the library calls changes them. Printed lines, the pauses between requests and the log
  callback are not modelled; the second copy of \<open>split\<close> (line 60) is never called.
\<close>

record Downloader =
  dl_urls_file :: string
  dl_urls :: "string list"
  dl_out_dir :: string
  dl_request_delay :: u64
  dl_request_timeout :: u64
  dl_head :: "heads option"
  dl_log_output :: bool
  dl_overlay_file :: bool
  dl_exit_flag :: bool
  dl_request_count :: u64
  dl_response_count :: u64
  dl_success_count :: u64
  dl_sigint :: bool

text \<open>
  The initial values; the name of the file of URLs is a parameter. \<open>dl_sigint\<close> says whether the
  program's handler for SIGINT is installed.
\<close>

definition Downloader_init :: "string \<Rightarrow> Downloader" where
  "Downloader_init name = \<lparr>dl_urls_file = name, dl_urls = [], dl_out_dir = ''F:/picture/out'',
     dl_request_delay = 100, dl_request_timeout = 100000, dl_head = None, dl_log_output = False,
     dl_overlay_file = False, dl_exit_flag = False, dl_request_count = 0, dl_response_count = 0,
     dl_success_count = 0, dl_sigint = False\<rparr>"

record 'v dl_world =
  dl_state :: Downloader
  dl_disk :: 'v

text \<open>What the program itself asks of the system.\<close>

record 'v dl_host =
  read_whole_file :: "'v \<Rightarrow> string \<Rightarrow> string option"
  create_directories :: "'v \<Rightarrow> string \<Rightarrow> bool \<times> 'v"

definition disk_host :: "'v host \<Rightarrow> 'v dl_world host" where
  "disk_host H =
     \<lparr>file_is_exist = \<lambda>w n. file_is_exist H (dl_disk w) n,
      file_size = \<lambda>w n. file_size H (dl_disk w) n,
      create_null_file = \<lambda>w n s. (case create_null_file H (dl_disk w) n s of (ok, v) \<Rightarrow> (ok, w\<lparr>dl_disk := v\<rparr>)),
      remove_file = \<lambda>w n. w\<lparr>dl_disk := remove_file H (dl_disk w) n\<rparr>,
      file_mapping = \<lambda>w n m. file_mapping H (dl_disk w) n m,
      region_read = \<lambda>w n p k. region_read H (dl_disk w) n p k,
      region_write = \<lambda>w n p s. w\<lparr>dl_disk := region_write H (dl_disk w) n p s\<rparr>,
      file_output = \<lambda>w n s. map_option (\<lambda>v. w\<lparr>dl_disk := v\<rparr>) (file_output H (dl_disk w) n s),
      host_rand = \<lambda>w. (case host_rand H (dl_disk w) of (r, v) \<Rightarrow> (r, w\<lparr>dl_disk := v\<rparr>))\<rparr>"

subsection \<open>Options and the file of URLs\<close>

text \<open>None: \<open>program_options\<close> has thrown. Otherwise the name it stored, and whether help was asked for.\<close>

definition init_commond :: "(string \<times> bool) option \<Rightarrow> Downloader \<Rightarrow> bool \<times> Downloader" where
  "init_commond opts d =
     (case opts of
        None \<Rightarrow> (False, d)
      | Some (name, help) \<Rightarrow> (\<not> help, d\<lparr>dl_urls_file := name\<rparr>))"

text \<open>\<open>stoi\<close> throws for a text that is no number or does not fit; the exception is caught.\<close>

definition parse_urls_line :: "string \<Rightarrow> Downloader \<Rightarrow> bool \<times> Downloader" where
  "parse_urls_line line d =
     (if line = [] then (False, d)
      else if line ! 0 = CHR ''#''
      then
        (case find0 ''='' line of
           None \<Rightarrow> (False, d)
         | Some pos \<Rightarrow>
             let cmd = take (pos - 1) (drop 1 line); param = drop (pos + 1) line
             in if cmd = ''out_dir'' then (True, d\<lparr>dl_out_dir := param\<rparr>)
                else if cmd = ''request_delay''
                then (case stoi param of
                        None \<Rightarrow> (False, d) | Some i \<Rightarrow> (True, d\<lparr>dl_request_delay := word_of_int i\<rparr>))
                else if cmd = ''request_timeout''
                then (case stoi param of
                        None \<Rightarrow> (False, d) | Some i \<Rightarrow> (True, d\<lparr>dl_request_timeout := word_of_int i\<rparr>))
                else if cmd = ''log_output''
                then (True, if param = ''on'' then d\<lparr>dl_log_output := True\<rparr>
                        else if param = ''off'' then d\<lparr>dl_log_output := False\<rparr> else d)
                else if cmd = ''overlay_file''
                then (True, if param = ''on'' then d\<lparr>dl_overlay_file := True\<rparr>
                        else if param = ''off'' then d\<lparr>dl_overlay_file := False\<rparr> else d)
                else if cmd = ''head''
                then (case dl_head d of
                        None \<Rightarrow> (False, d)
                      | Some head \<Rightarrow>
                          (case find0 '','' param of
                             None \<Rightarrow> (False, d)
                           | Some pos \<Rightarrow>
                               let key = take pos param; value = drop (pos + 1) param
                               in (True, d\<lparr>dl_head := Some (add_head head key value)\<rparr>)))
                else (False, d))
      else (True, d\<lparr>dl_urls := dl_urls d @ [line]\<rparr>))"

definition dl_buff_len :: nat where "dl_buff_len = 4 * 1024 * 1024"

definition url_separator :: "char \<Rightarrow> bool" where
  "url_separator u \<longleftrightarrow> u = CHR '' '' \<or> u = CR \<or> u = LF"

definition parse_urls_char :: "char \<Rightarrow> string \<times> Downloader \<Rightarrow> string \<times> Downloader" where
  "parse_urls_char u st =
     (case st of (temp, d) \<Rightarrow>
        if url_separator u then let (ret, d) = parse_urls_line temp d in ([], d) else (temp @ [u], d))"

text \<open>The reading loop: \<open>rest\<close> is the file from the read position on; a short read sets \<open>eof\<close>.\<close>

function parse_urls_blocks :: "string \<Rightarrow> string \<times> Downloader \<Rightarrow> string \<times> Downloader" where
  "parse_urls_blocks rest st =
     (let url = take dl_buff_len rest; st = (if 0 < length url then fold parse_urls_char url st else st)
      in if length url < dl_buff_len then st else parse_urls_blocks (drop dl_buff_len rest) st)"
  by pat_completeness auto
termination
  by (relation "measure (length \<circ> fst)") (auto simp: dl_buff_len_def)

declare parse_urls_blocks.simps [simp del]

definition parse_urls_txt :: "'v dl_host \<Rightarrow> 'v \<Rightarrow> Downloader \<Rightarrow> Downloader" where
  "parse_urls_txt X v d =
     (case read_whole_file X v (dl_urls_file d) of
        None \<Rightarrow> d
      | Some content \<Rightarrow>
          let (temp, d) = parse_urls_blocks content ([], d); (ret, d) = parse_urls_line temp d in d)"

subsection \<open>Answers\<close>

definition count_response :: "Downloader \<Rightarrow> Downloader" where
  "count_response d =
     (let d = d\<lparr>dl_response_count := dl_response_count d + 1\<rparr>
      in if dl_response_count d \<ge> of_nat (length (dl_urls d)) then d\<lparr>dl_exit_flag := True\<rparr> else d)"

text \<open>None: a null pointer is dereferenced.\<close>

definition on_response ::
  "'v host \<Rightarrow> HttpResponse option \<Rightarrow> err_code \<Rightarrow> string \<Rightarrow> string \<Rightarrow> 'v dl_world \<Rightarrow> 'v dl_world option" where
  "on_response H response err output url w =
     (let counted = (\<lambda>w. Some (w\<lparr>dl_state := count_response (dl_state w)\<rparr>))
      in if err = HNW_BASE_OK
         then
           (case response of
              None \<Rightarrow> None
            | Some response \<Rightarrow>
                if sl_status_code (rs_line response) = ''200''
                then if \<not> dl_overlay_file (dl_state w) \<and> file_is_exist H (dl_disk w) output then Some w
                     else
                       (case rs_body response of
                          None \<Rightarrow> None
                        | Some b \<Rightarrow>
                            if body_size b \<noteq> 0
                            then
                              (case save_body_as_file H (dl_disk w) response output of
                                 None \<Rightarrow> None
                               | Some (ok, v, response) \<Rightarrow>
                                   let w = w\<lparr>dl_disk := v\<rparr>; d = dl_state w
                                   in counted (if ok then w\<lparr>dl_state := d\<lparr>dl_success_count := dl_success_count d + 1\<rparr>\<rparr>
                                        else w))
                            else counted w)
                else counted w)
         else counted w)"

text \<open>The program as the application of the library: a callback is bound to its output and its URL.\<close>

definition downloader_env ::
  "'v host \<Rightarrow> (string \<times> string, 'v dl_world) env \<Rightarrow> (string \<times> string, 'v dl_world) env" where
  "downloader_env H E = E\<lparr>env_host := disk_host H,
     app_response := \<lambda>u response err sv.
       (case on_response H response err (fst u) (snd u) (hs_world sv) of
          None \<Rightarrow> hs_fail Undefined sv
        | Some w \<Rightarrow> sv\<lparr>hs_world := w\<rparr>)\<rparr>"

subsection \<open>The main program\<close>

text \<open>
  A SIGINT: the handler \<open>main\<close> installs sets the exit flag; without it the process ends (None). Nothing
  before the waiting loop reads the flag, so a signal that comes earlier acts like one in the loop.
\<close>

definition sigint :: "Downloader \<Rightarrow> Downloader option" where
  "sigint d = (if dl_sigint d then Some (d\<lparr>dl_exit_flag := True\<rparr>) else None)"

definition main_waits :: "Downloader \<Rightarrow> bool" where
  "main_waits d \<longleftrightarrow> \<not> dl_exit_flag d"

text \<open>One round of the loop over the URLs; \<open>substr(npos)\<close> throws and nothing catches it.\<close>

definition request_url ::
  "(string \<times> string, 'v dl_world) env \<Rightarrow> string \<Rightarrow> (string \<times> string, 'v dl_world) http_service \<Rightarrow>
     (string \<times> string, 'v dl_world) http_service" where
  "request_url E url sv =
     (let w = hs_world sv;
          w = w\<lparr>dl_state := (dl_state w)\<lparr>dl_request_count := dl_request_count (dl_state w) + 1\<rparr>\<rparr>;
          d = dl_state w; sv = sv\<lparr>hs_world := w\<rparr>
      in case rfind1 (CHR ''/'') url of
           None \<Rightarrow> hs_fail Thrown sv
         | Some p \<Rightarrow>
             let output = dl_out_dir d @ drop p url
             in if \<not> dl_overlay_file d \<and> file_is_exist (env_host E) w output then sv
                else snd (HnwHttp_RequestGet E sv url (Some (output, url)) (dl_request_timeout d) (dl_head d)))"

primrec request_urls ::
  "(string \<times> string, 'v dl_world) env \<Rightarrow> string list \<Rightarrow> (string \<times> string, 'v dl_world) http_service \<Rightarrow>
     (string \<times> string, 'v dl_world) http_service" where
  "request_urls E [] sv = sv"
| "request_urls E (url # urls) sv =
     (let sv = request_url E url sv in if hs_fault sv = None then request_urls E urls sv else sv)"

text \<open>
  What \<open>main\<close> does before it waits for the exit flag: the code it returns with, or None and the
  state it waits in.
\<close>

definition downloader_main ::
  "'v dl_host \<Rightarrow> (string \<times> string, 'v dl_world) env \<Rightarrow> (string \<times> bool) option \<Rightarrow>
     (string \<times> string, 'v dl_world) http_service \<Rightarrow> int option \<times> (string \<times> string, 'v dl_world) http_service" where
  "downloader_main X E opts sv =
     (let put = (\<lambda>d sv. sv\<lparr>hs_world := (hs_world sv)\<lparr>dl_state := d\<rparr>\<rparr>);
          d = (dl_state (hs_world sv))\<lparr>dl_sigint := True, dl_head := snd (HnwHttp_GenerateHead E)\<rparr>;
          (ok, d) = init_commond opts d
      in if \<not> ok then (Some (- 1), put d sv)
         else
           let d = parse_urls_txt X (dl_disk (hs_world sv)) d; sv = put d sv
           in if dl_urls d = [] then (Some (- 2), sv)
              else
                let w = hs_world sv;
                    (ok, v) = (if file_is_exist (env_host E) w (dl_out_dir d) then (True, dl_disk w)
                      else create_directories X (dl_disk w) (dl_out_dir d));
                    sv = sv\<lparr>hs_world := w\<lparr>dl_disk := v\<rparr>\<rparr>
                in if \<not> ok then (Some (- 3), sv) else (None, request_urls E (dl_urls d) sv))"

subsection \<open>Facts about reading the file\<close>

lemma parse_urls_blocks_fold: "parse_urls_blocks rest st = fold parse_urls_char rest st"
proof (induction rest st rule: parse_urls_blocks.induct)
  case (1 rest st)
  let ?b = "take dl_buff_len rest"
  have st: "(if 0 < length ?b then fold parse_urls_char ?b st else st) = fold parse_urls_char ?b st" by simp
  show ?case
  proof (cases "length ?b < dl_buff_len")
    case True
    then have "?b = rest" by simp
    with st True show ?thesis by (subst parse_urls_blocks.simps) (simp add: Let_def)
  next
    case False
    have "fold parse_urls_char rest st = fold parse_urls_char (drop dl_buff_len rest) (fold parse_urls_char ?b st)"
      by (metis append_take_drop_id comp_apply fold_append)
    with 1 [OF refl refl False] st False show ?thesis
      by (subst parse_urls_blocks.simps) (simp only: Let_def if_False)
  qed
qed

text \<open>A text cut at its separators, and what the lines do one after the other.\<close>

primrec url_words :: "string \<Rightarrow> string list" where
  "url_words [] = [[]]"
| "url_words (c # s) =
     (if url_separator c then [] # url_words s else (c # hd (url_words s)) # tl (url_words s))"

definition parse_line :: "string \<Rightarrow> Downloader \<Rightarrow> Downloader" where
  "parse_line line d = snd (parse_urls_line line d)"

lemma parse_line_Nil [simp]: "parse_line [] d = d"
  by (simp add: parse_line_def parse_urls_line_def)

lemma url_words_not_Nil [simp]: "url_words s \<noteq> []"
  by (cases s) simp_all

lemma parse_urls_char_words:
  "(case fold parse_urls_char s (temp, d) of (temp, d) \<Rightarrow> parse_line temp d) =
     fold parse_line ((temp @ hd (url_words s)) # tl (url_words s)) d"
proof (induction s arbitrary: temp d)
  case Nil
  then show ?case by simp
next
  case (Cons c s)
  have w: "url_words s = hd (url_words s) # tl (url_words s)" by simp
  show ?case
  proof (cases "url_separator c")
    case True
    then have "fold parse_urls_char (c # s) (temp, d) = fold parse_urls_char s ([], parse_line temp d)"
      by (simp add: parse_urls_char_def parse_line_def split: prod.split)
    with Cons.IH [of "[]" "parse_line temp d"] True show ?thesis
      by (simp only: url_words.simps if_True list.sel append_Nil append_Nil2 fold_simps w [symmetric])
  next
    case False
    with Cons.IH [of "temp @ [c]" d] show ?thesis by (simp add: parse_urls_char_def)
  qed
qed

lemma parse_urls_txt_words:
  assumes "read_whole_file X v (dl_urls_file d) = Some content"
  shows "parse_urls_txt X v d = fold parse_line (url_words content) d"
proof -
  obtain temp d' where f: "fold parse_urls_char content ([], d) = (temp, d')" by (cases "fold parse_urls_char content ([], d)")
  have "parse_urls_txt X v d = parse_line temp d'"
    using assms by (simp add: parse_urls_txt_def parse_urls_blocks_fold f parse_line_def split: prod.split)
  also have "\<dots> = fold parse_line (hd (url_words content) # tl (url_words content)) d"
    using parse_urls_char_words [of content "[]" d] by (simp only: f prod.case append_Nil)
  finally show ?thesis by (simp only: list.collapse [OF url_words_not_Nil])
qed

lemma url_words_word: "\<forall>c \<in> set line. \<not> url_separator c \<Longrightarrow> url_words line = [line]"
  by (induction line) simp_all

lemma url_words_line:
  "\<forall>c \<in> set line. \<not> url_separator c \<Longrightarrow> url_separator e \<Longrightarrow> url_words (line @ e # s) = line # url_words s"
  by (induction line) simp_all

lemma fold_lines_separators:
  "\<forall>c \<in> set eol. url_separator c \<Longrightarrow> fold parse_line (url_words (eol @ s)) d = fold parse_line (url_words s) d"
  by (induction eol) simp_all

lemma fold_lines_step:
  assumes "\<forall>c \<in> set line. \<not> url_separator c" and "\<forall>c \<in> set eol. url_separator c" and "eol \<noteq> []"
  shows "fold parse_line (url_words (line @ eol @ s)) d = fold parse_line (url_words s) (parse_line line d)"
proof -
  obtain e es where e: "eol = e # es" using assms(3) by (cases eol) simp_all
  with assms(2) have "url_separator e" "\<forall>c \<in> set es. url_separator c" by simp_all
  then show ?thesis using url_words_line [OF assms(1), of e "es @ s"] fold_lines_separators [of es]
    by (simp add: e)
qed

subsection \<open>Facts about the items of the file\<close>

datatype dl_item =
    OutDir string
  | RequestDelay int
  | RequestTimeout int
  | LogOutput bool
  | OverlayFile bool
  | ExtraHead string string
  | Url string

definition on_off :: "bool \<Rightarrow> string" where
  "on_off b = (if b then ''on'' else ''off'')"

fun item_line :: "dl_item \<Rightarrow> string" where
  "item_line (OutDir s) = ''#out_dir='' @ s"
| "item_line (RequestDelay i) = ''#request_delay='' @ int64_to_string i"
| "item_line (RequestTimeout i) = ''#request_timeout='' @ int64_to_string i"
| "item_line (LogOutput b) = ''#log_output='' @ on_off b"
| "item_line (OverlayFile b) = ''#overlay_file='' @ on_off b"
| "item_line (ExtraHead k v) = ''#head='' @ k @ '','' @ v"
| "item_line (Url s) = s"

fun item_effect :: "dl_item \<Rightarrow> Downloader \<Rightarrow> Downloader" where
  "item_effect (OutDir s) d = d\<lparr>dl_out_dir := s\<rparr>"
| "item_effect (RequestDelay i) d = d\<lparr>dl_request_delay := word_of_int i\<rparr>"
| "item_effect (RequestTimeout i) d = d\<lparr>dl_request_timeout := word_of_int i\<rparr>"
| "item_effect (LogOutput b) d = d\<lparr>dl_log_output := b\<rparr>"
| "item_effect (OverlayFile b) d = d\<lparr>dl_overlay_file := b\<rparr>"
| "item_effect (ExtraHead k v) d = d\<lparr>dl_head := map_option (\<lambda>h. add_head h k v) (dl_head d)\<rparr>"
| "item_effect (Url s) d = d\<lparr>dl_urls := dl_urls d @ [s]\<rparr>"

definition no_separator :: "string \<Rightarrow> bool" where
  "no_separator s \<longleftrightarrow> (\<forall>c \<in> set s. \<not> url_separator c)"

fun item_ok :: "dl_item \<Rightarrow> bool" where
  "item_ok (OutDir s) = no_separator s"
| "item_ok (RequestDelay i) = (- (2 ^ 31) \<le> i \<and> i < 2 ^ 31)"
| "item_ok (RequestTimeout i) = (- (2 ^ 31) \<le> i \<and> i < 2 ^ 31)"
| "item_ok (LogOutput b) = True"
| "item_ok (OverlayFile b) = True"
| "item_ok (ExtraHead k v) = (no_separator k \<and> no_separator v \<and> CHR '','' \<notin> set k)"
| "item_ok (Url s) = (no_separator s \<and> s \<noteq> [] \<and> hd s \<noteq> CHR ''#'')"

lemma parse_int_minus: "parse_int (CHR ''-'' # show_nat n) = Some (True, n)"
proof -
  have t: "takeWhile isdigit (show_nat n) = show_nat n" using show_nat_digits [of n] by simp
  show ?thesis by (simp add: t parse_int_def isspace_def Let_def)
qed

lemma stoi_int64_to_string: "- (2 ^ 31) \<le> i \<Longrightarrow> i < 2 ^ 31 \<Longrightarrow> stoi (int64_to_string i) = Some i"
  using parse_int_show_nat [of "[]" "nat i"] parse_int_minus [of "nat (- i)"]
  by (auto simp: stoi_def sto_range_def int64_to_string_def Let_def)

lemma separators [simp]: "url_separator (CHR '' '')" "url_separator CR" "url_separator LF"
  by (simp_all add: url_separator_def)

lemma url_separator_not_digit: "url_separator c \<Longrightarrow> \<not> isdigit c \<and> c \<noteq> CHR ''-''"
  by (auto simp: url_separator_def CR_def LF_def isdigit_def)

lemma no_separator_int: "no_separator (int64_to_string i)"
  using show_nat_digits url_separator_not_digit by (fastforce simp: no_separator_def int64_to_string_def)

lemma no_separator_simps [simp]:
  "no_separator []" "no_separator (c # s) \<longleftrightarrow> \<not> url_separator c \<and> no_separator s"
  "no_separator (s @ t) \<longleftrightarrow> no_separator s \<and> no_separator t"
  by (auto simp: no_separator_def)

lemma item_line_separator: "item_ok i \<Longrightarrow> no_separator (item_line i)"
  by (cases i) (simp_all add: no_separator_int url_separator_def CR_def LF_def on_off_def)

lemma parse_line_item:
  assumes "item_ok i" and "dl_head d \<noteq> None"
  shows "parse_line (item_line i) d = item_effect i d" and "dl_head (item_effect i d) \<noteq> None"
proof -
  show "parse_line (item_line i) d = item_effect i d"
  proof (cases i)
    case (ExtraHead k v)
    with assms find0_char_append [of "CHR '',''" k v] show ?thesis
      by (auto simp: parse_line_def parse_urls_line_def)
  next
    case (Url s)
    with assms(1) show ?thesis by (cases s) (simp_all add: parse_line_def parse_urls_line_def)
  qed (use assms in \<open>simp_all add: parse_line_def parse_urls_line_def stoi_int64_to_string on_off_def\<close>)
  show "dl_head (item_effect i d) \<noteq> None" using assms(2) by (cases i) simp_all
qed

lemma items_read_back:
  assumes "\<forall>i \<in> set items. item_ok i" and "\<forall>c \<in> set eol. url_separator c" and "eol \<noteq> []" and "dl_head d \<noteq> None"
  shows "fold parse_line (url_words (concat (map (\<lambda>i. item_line i @ eol) items))) d = fold item_effect items d"
  using assms(1,4)
proof (induction items arbitrary: d)
  case Nil
  then show ?case by simp
next
  case (Cons i items)
  have l: "\<forall>c \<in> set (item_line i). \<not> url_separator c"
    using item_line_separator [of i] Cons.prems(1) by (simp add: no_separator_def)
  have i: "parse_line (item_line i) d = item_effect i d" "dl_head (item_effect i d) \<noteq> None"
    using parse_line_item [of i d] Cons.prems by simp_all
  with Cons.IH [of "item_effect i d"] Cons.prems(1) fold_lines_step [OF l assms(2,3)] show ?case by simp
qed

subsection \<open>Facts about the answers\<close>

text \<open>An answer as the library hands it to the callback, with what the callback was bound to.\<close>

type_synonym dl_answer = "HttpResponse option \<times> err_code \<times> string \<times> string"

primrec run_answers :: "'v host \<Rightarrow> dl_answer list \<Rightarrow> 'v dl_world \<Rightarrow> 'v dl_world option" where
  "run_answers H [] w = Some w"
| "run_answers H (a # as) w =
     (case on_response H (fst a) (fst (snd a)) (fst (snd (snd a))) (snd (snd (snd a))) w of
        None \<Rightarrow> None | Some w \<Rightarrow> run_answers H as w)"

text \<open>An answer is counted, or it finds its file already there and leaves everything as it is.\<close>

lemma count_response_simps [simp]:
  "dl_urls (count_response d) = dl_urls d"
  "dl_response_count (count_response d) = dl_response_count d + 1"
  "dl_success_count (count_response d) = dl_success_count d"
  "dl_exit_flag (count_response d) \<longleftrightarrow>
     dl_exit_flag d \<or> of_nat (length (dl_urls d)) \<le> dl_response_count d + 1"
  by (simp_all add: count_response_def Let_def)

text \<open>After n counted answers for m URLs the exit flag says whether n reached m.\<close>

definition tally :: "nat \<Rightarrow> nat \<Rightarrow> 'v dl_world \<Rightarrow> bool" where
  "tally m n w \<longleftrightarrow> length (dl_urls (dl_state w)) = m \<and> dl_response_count (dl_state w) = of_nat n \<and>
     (dl_exit_flag (dl_state w) \<longleftrightarrow> m \<le> n)"

lemma tally_count:
  assumes "tally m n w" and "m < 2 ^ 64" and "Suc n < 2 ^ 64"
    and "dl_state w' = count_response ((dl_state w)\<lparr>dl_success_count := c\<rparr>)"
  shows "tally m (Suc n) w'"
proof -
  have "(of_nat m :: u64) \<le> of_nat (Suc n) \<longleftrightarrow> m \<le> Suc n"
    using assms(2,3) by (simp add: word_le_nat_alt unat_of_nat_u64 del: of_nat_Suc)
  with assms(1,4) show ?thesis by (auto simp: tally_def add.commute)
qed

lemma on_response_tally:
  assumes "on_response H r e out url w = Some w'" and "tally m n w" and "m < 2 ^ 64" and "Suc n < 2 ^ 64"
  shows "w' = w \<or> tally m (Suc n) w'"
proof -
  have "w' = w \<or> (\<exists>c. dl_state w' = count_response ((dl_state w)\<lparr>dl_success_count := c\<rparr>))"
    using assms(1)
    by (auto simp: on_response_def Let_def split: if_splits option.splits prod.splits)
      (metis Downloader.surjective Downloader.update_convs(12))+
  then show ?thesis using tally_count [OF assms(2-4)] by blast
qed

lemma run_answers_tally:
  assumes "run_answers H as w = Some w'" and "tally m n w" and "m < 2 ^ 64" and "n + length as < 2 ^ 64"
  shows "\<exists>k \<le> length as. tally m (n + k) w'"
  using assms
proof (induction as arbitrary: w n)
  case Nil
  then show ?case by simp
next
  case (Cons a as)
  then obtain w1 where
    a: "on_response H (fst a) (fst (snd a)) (fst (snd (snd a))) (snd (snd (snd a))) w = Some w1"
    and r: "run_answers H as w1 = Some w'" by (simp split: option.splits)
  from Cons.prems(4) have n: "Suc n < 2 ^ 64" "n + length as < 2 ^ 64" "Suc n + length as < 2 ^ 64" by simp_all
  from on_response_tally [OF a Cons.prems(2,3) n(1)] show ?case
  proof
    assume "w1 = w"
    with Cons.IH [OF r _ Cons.prems(3) n(2)] Cons.prems(2) obtain k where "k \<le> length as" "tally m (n + k) w'" by blast
    then show ?thesis by (intro exI [of _ k]) simp
  next
    assume "tally m (Suc n) w1"
    from Cons.IH [OF r this Cons.prems(3) n(3)] obtain k where "k \<le> length as" "tally m (Suc n + k) w'" by blast
    then show ?thesis by (intro exI [of _ "Suc k"]) simp
  qed
qed

subsection \<open>Facts about the requests\<close>

definition finished :: "'v host \<Rightarrow> 'v \<Rightarrow> Downloader \<Rightarrow> string \<Rightarrow> bool" where
  "finished H v d url \<longleftrightarrow>
     (case rfind1 (CHR ''/'') url of None \<Rightarrow> False | Some p \<Rightarrow> file_is_exist H v (dl_out_dir d @ drop p url))"

definition requested :: "nat \<Rightarrow> ('u, 'v dl_world) http_service \<Rightarrow> ('u, 'v dl_world) http_service" where
  "requested n sv = sv\<lparr>hs_world := (hs_world sv)\<lparr>dl_state := (dl_state (hs_world sv))\<lparr>dl_request_count :=
     dl_request_count (dl_state (hs_world sv)) + of_nat n\<rparr>\<rparr>\<rparr>"

lemma downloader_env_host [simp]:
  "file_is_exist (env_host (downloader_env H E)) w n = file_is_exist H (dl_disk w) n"
  by (simp add: downloader_env_def disk_host_def)

lemma request_url_finished:
  assumes "finished H (dl_disk (hs_world sv)) (dl_state (hs_world sv)) url"
    and "\<not> dl_overlay_file (dl_state (hs_world sv))"
  shows "request_url (downloader_env H E) url sv = requested 1 sv"
  using assms by (auto simp: request_url_def requested_def finished_def Let_def split: option.splits)

lemma requested_simps [simp]:
  "dl_disk (hs_world (requested n sv)) = dl_disk (hs_world sv)"
  "finished H v (dl_state (hs_world (requested n sv))) = finished H v (dl_state (hs_world sv))"
  "dl_overlay_file (dl_state (hs_world (requested n sv))) = dl_overlay_file (dl_state (hs_world sv))"
  "hs_fault (requested n sv) = hs_fault sv"
  by (simp_all add: requested_def finished_def fun_eq_iff split: option.split)

lemma requested_requested: "requested m (requested n sv) = requested (n + m) sv"
  by (simp add: requested_def add.assoc)

lemma request_urls_finished:
  assumes "\<forall>url \<in> set us. finished H (dl_disk (hs_world sv)) (dl_state (hs_world sv)) url"
    and "\<not> dl_overlay_file (dl_state (hs_world sv))" and "hs_fault sv = None"
  shows "request_urls (downloader_env H E) us sv = requested (length us) sv"
  using assms
proof (induction us arbitrary: sv)
  case Nil
  then show ?case by (simp add: requested_def)
next
  case (Cons url us)
  with request_url_finished [of H sv url E] Cons.IH [of "requested 1 sv"] show ?case
    by (simp add: requested_requested)
qed

subsection \<open>Properties\<close>

text \<open>
  C20: The file of URLs is read back. A file that holds one setting or URL per line, with any line
  ends made of carriage returns, line feeds and blanks, and of any length, sets exactly these
  settings and lists exactly these URLs in their order; its blocks of four megabytes make no difference. No
  text in it may hold a separator, a blank included.
\<close>

theorem urls_file_read_back:
  assumes "read_whole_file X v (dl_urls_file d) = Some (concat (map (\<lambda>i. item_line i @ eol) items))"
    and "\<forall>i \<in> set items. item_ok i" and "\<forall>c \<in> set eol. url_separator c" and "eol \<noteq> []" and "dl_head d \<noteq> None"
  shows "parse_urls_txt X v d = fold item_effect items d"
  unfolding parse_urls_txt_words [OF assms(1)] by (rule items_read_back [OF assms(2-5)])

text \<open>Reading the file neither sets the exit flag nor touches the handler.\<close>

lemma parse_line_flags:
  "dl_exit_flag (parse_line line d) = dl_exit_flag d" "dl_sigint (parse_line line d) = dl_sigint d"
  by (simp_all add: parse_line_def parse_urls_line_def Let_def split: option.split)

lemma fold_lines_flags:
  "dl_exit_flag (fold parse_line ls d) = dl_exit_flag d" "dl_sigint (fold parse_line ls d) = dl_sigint d"
  by (induction ls arbitrary: d) (simp_all add: parse_line_flags)

lemma parse_urls_txt_flags:
  "dl_exit_flag (parse_urls_txt X v d) = dl_exit_flag d \<and> dl_sigint (parse_urls_txt X v d) = dl_sigint d"
proof (cases "read_whole_file X v (dl_urls_file d)")
  case None
  then show ?thesis by (simp add: parse_urls_txt_def)
next
  case (Some content)
  then show ?thesis by (simp add: parse_urls_txt_words fold_lines_flags)
qed

text \<open>
  C19: A run whose files are all there already waits for ever. When every URL of the list has its file in
  the output directory and files are not overwritten, the program reaches its waiting loop without one call of the
  library that starts a request: nothing but the program's own variables has changed, so no answer can
  come, the exit flag is not set and the loop goes on. It is left to a SIGINT, whose handler is installed, to
  end it.
\<close>

theorem finished_downloads_wait:
  assumes "env_alloc E" and "hs_fault sv = None"
    and "d = parse_urls_txt X (dl_disk (hs_world sv))
      ((dl_state (hs_world sv))\<lparr>dl_sigint := True, dl_head := Some [], dl_urls_file := name\<rparr>)"
    and "\<not> dl_exit_flag (dl_state (hs_world sv))" and "dl_urls d \<noteq> []" and "\<not> dl_overlay_file d"
    and "file_is_exist H (dl_disk (hs_world sv)) (dl_out_dir d)"
    and "\<forall>url \<in> set (dl_urls d). finished H (dl_disk (hs_world sv)) d url"
  shows "\<exists>d'. downloader_main X (downloader_env H E) (Some (name, False)) sv =
      (None, sv\<lparr>hs_world := (hs_world sv)\<lparr>dl_state := d'\<rparr>\<rparr>) \<and>
    d' = d\<lparr>dl_request_count := dl_request_count d + of_nat (length (dl_urls d))\<rparr> \<and>
    main_waits d' \<and> sigint d' = Some (d'\<lparr>dl_exit_flag := True\<rparr>)"
proof -
  let ?sv = "sv\<lparr>hs_world := (hs_world sv)\<lparr>dl_state := d\<rparr>\<rparr>"
  have h: "snd (HnwHttp_GenerateHead (downloader_env H E)) = Some []"
    using assms(1) by (simp add: HnwHttp_GenerateHead_def downloader_env_def)
  have "request_urls (downloader_env H E) (dl_urls d) ?sv = requested (length (dl_urls d)) ?sv"
    using assms(2,6,8) by (intro request_urls_finished) simp_all
  moreover have "\<not> dl_exit_flag d" "dl_sigint d" using assms(4) by (simp_all add: assms(3) parse_urls_txt_flags)
  ultimately show ?thesis
    using assms(5,7) by (simp add: downloader_main_def init_commond_def h Let_def assms(3) [symmetric] requested_def
        main_waits_def sigint_def)
qed

text \<open>
  The program leaves its waiting loop when its answers reach the number of its URLs, and not
  before. Of the answers handed to the callback some are counted, k of them at most, and the exit flag is set
  exactly when as many were counted as there are URLs; so fewer answers than URLs never end the program,
  and a URL that was skipped, whose request could not be started, or whose file appeared in the
  meantime, is an answer that is missing.
\<close>

theorem exit_needs_all_answers:
  assumes "run_answers H as w = Some w'" and "dl_response_count (dl_state w) = 0" and "\<not> dl_exit_flag (dl_state w)"
    and "dl_urls (dl_state w) \<noteq> []" and "length (dl_urls (dl_state w)) < 2 ^ 64" and "length as < 2 ^ 64"
  shows "\<exists>k \<le> length as. dl_response_count (dl_state w') = of_nat k \<and>
    (dl_exit_flag (dl_state w') \<longleftrightarrow> length (dl_urls (dl_state w)) \<le> k)"
proof -
  have "tally (length (dl_urls (dl_state w))) 0 w" using assms(2-4) by (simp add: tally_def)
  from run_answers_tally [OF assms(1) this assms(5)] assms(6)
  obtain k where "k \<le> length as" "tally (length (dl_urls (dl_state w))) k w'" by auto
  then show ?thesis by (auto simp: tally_def)
qed

text \<open>
  C21: A downloaded file is longer than what was downloaded. The answer with 200 and a body of n bytes, n not zero, is
  saved as a file that starts with these bytes and is filled up to whole blocks of 2048 bytes; it
  counts as a success.
\<close>

theorem downloaded_file_padded:
  assumes "sl_status_code (rs_line r) = ''200''" and "rs_body r = Some (raw_filled cap data)"
    and "data \<noteq> []" and "length data < 2 ^ 63" and "file_output H (dl_disk w) output [] = Some v"
    and "dl_overlay_file (dl_state w) \<or> \<not> file_is_exist H (dl_disk w) output"
  shows "\<exists>out w'. on_response H (Some r) HNW_BASE_OK output url w = Some w' \<and>
    dl_disk w' = (case file_output H v output out of None \<Rightarrow> v | Some v \<Rightarrow> v) \<and>
    length out = 2048 * ((length data + 2047) div 2048) \<and> take (length data) out = data \<and>
    dl_success_count (dl_state w') = dl_success_count (dl_state w) + 1 \<and>
    dl_response_count (dl_state w') = dl_response_count (dl_state w) + 1"
proof -
  let ?b = "raw_filled cap data" and ?buff = "replicate save_buff_len (char_of (0::nat))"
  have ok: "body_ok H v (\<lambda>_. []) ?b" by (rule raw_filled_ok) (rule assms(4))
  from save_body_as_file_blocks [OF assms(2) ok assms(5)] obtain out b' where
    l: "save_loop H v ?b ?buff [] = Some (out, b')"
    and out: "length out = 2048 * ((length data + 2047) div 2048)" "take (length data) out = data"
    unfolding raw_filled_content by blast
  have "save_body_as_file H (dl_disk w) r output =
      Some (True, (case file_output H v output out of None \<Rightarrow> v | Some v \<Rightarrow> v), r\<lparr>rs_body := Some b'\<rparr>)"
    by (simp add: save_body_as_file_def assms(2,5) l split: option.split)
  moreover have "body_size ?b \<noteq> 0"
  proof
    assume "body_size ?b = 0"
    then have "unat (of_nat (length data) :: u64) = 0"
      by (simp add: body_size_def raw_filled_def raw_body_of_def base_body_def raw_body_size_def)
    with assms(3,4) show False by (simp add: unat_of_nat_u64)
  qed
  ultimately show ?thesis
    using assms(1,2,6) out by (intro exI [of _ out]) (auto simp: on_response_def Let_def)
qed

subsection \<open>Concrete instances\<close>

text \<open>A disk that holds the output directory, one downloaded file and the file of URLs.\<close>

definition dl_disk1 :: "unit host" where
  "dl_disk1 = host1\<lparr>file_is_exist := \<lambda>_ n. n = ''/out'' \<or> n = ''/out/a.jpg''\<rparr>"

definition dl_items :: "dl_item list" where
  "dl_items = [OutDir ''/out'', RequestDelay 5, ExtraHead ''Referer'' ''x'', Url ''http://h/p/a.jpg'']"

definition dl_text :: string where
  "dl_text = concat (map (\<lambda>i. item_line i @ [CR, LF]) dl_items)"

definition dl_host1 :: "unit dl_host" where
  "dl_host1 = \<lparr>read_whole_file = \<lambda>_ n. if n = ''u.txt'' then Some dl_text else None,
     create_directories = \<lambda>v _. (False, v)\<rparr>"

lemma dl_items_ok: "\<forall>i \<in> set dl_items. item_ok i"
  by (simp add: dl_items_def url_separator_def CR_def LF_def)

theorem urls_file_read_back_witness:
  "dl_urls (parse_urls_txt dl_host1 () ((Downloader_init ''u.txt'')\<lparr>dl_head := Some []\<rparr>)) = [''http://h/p/a.jpg''] \<and>
   dl_head (parse_urls_txt dl_host1 () ((Downloader_init ''u.txt'')\<lparr>dl_head := Some []\<rparr>)) = Some [(''Referer'', ''x'')]"
  using urls_file_read_back [of dl_host1 "()" "(Downloader_init ''u.txt'')\<lparr>dl_head := Some []\<rparr>" "[CR, LF]" dl_items]
    dl_items_ok
  by (simp add: dl_host1_def dl_text_def Downloader_init_def) (simp add: dl_items_def add_head_def)

lemma dl_text_parsed:
  assumes "dl_urls_file d = ''u.txt''" and "dl_head d \<noteq> None"
  shows "parse_urls_txt dl_host1 () d = fold item_effect dl_items d"
  using parse_urls_txt_words [of dl_host1 "()" d dl_text] items_read_back [OF dl_items_ok, of "[CR, LF]" d] assms
  by (simp add: dl_host1_def dl_text_def)

definition dl_world0 :: "unit dl_world" where
  "dl_world0 = \<lparr>dl_state = Downloader_init [], dl_disk = ()\<rparr>"

definition dl_env0 :: "(string \<times> string, unit dl_world) env" where
  "dl_env0 = \<lparr>env_platform = platform0, env_host = disk_host dl_disk1, env_net = net1,
     env_dns = \<lambda>_ _. (HNW_BASE_OK, [\<lparr>np_ip = ''10.0.0.1'', np_port = 80\<rparr>]), env_alloc = True,
     app_event = \<lambda>u h ev sv. (ev, sv), app_status = \<lambda>u st err sv. sv, app_response = \<lambda>u r err sv. sv,
     app_download = \<lambda>u url out rg pos err sv. (True, sv)\<rparr>"

theorem finished_downloads_wait_witness:
  "\<exists>sv'. downloader_main dl_host1 (downloader_env dl_disk1 dl_env0) (Some (''u.txt'', False)) (HttpService_new dl_world0) = (None, sv') \<and>
     session_map sv' = [] \<and> hs_log sv' = [] \<and> dl_request_count (dl_state (hs_world sv')) = 1 \<and>
     main_waits (dl_state (hs_world sv'))"
proof -
  let ?sv = "HttpService_new dl_world0 :: (string \<times> string, unit dl_world) http_service"
  define d where "d = parse_urls_txt dl_host1 (dl_disk (hs_world ?sv)) ((dl_state (hs_world ?sv))\<lparr>dl_sigint := True, dl_head := Some [], dl_urls_file := ''u.txt''\<rparr>)"
  have d: "d = fold item_effect dl_items ((dl_state (hs_world ?sv))\<lparr>dl_sigint := True, dl_head := Some [], dl_urls_file := ''u.txt''\<rparr>)"
    by (simp add: d_def dl_text_parsed)
  have p: "dl_urls d = [''http://h/p/a.jpg'']" "\<not> dl_overlay_file d" "dl_out_dir d = ''/out''"
    "dl_request_count d = 0"
    unfolding d by (simp_all add: dl_items_def HttpService_new_def dl_world0_def Downloader_init_def)
  have f: "\<forall>url \<in> set (dl_urls d). finished dl_disk1 (dl_disk (hs_world ?sv)) d url"
    by (simp add: p finished_def dl_disk1_def)
  have e: "file_is_exist dl_disk1 (dl_disk (hs_world ?sv)) (dl_out_dir d)" by (simp add: p dl_disk1_def)
  have a: "env_alloc dl_env0" "hs_fault ?sv = None" "dl_urls d \<noteq> []"
    by (simp_all add: p dl_env0_def HttpService_new_def)
  have x: "\<not> dl_exit_flag (dl_state (hs_world ?sv))"
    by (simp add: HttpService_new_def dl_world0_def Downloader_init_def)
  show ?thesis
    using finished_downloads_wait [OF a(1,2) d_def x a(3) p(2) e f] p by (auto simp: HttpService_new_def)
qed

text \<open>Two URLs, one of them skipped: the only answer does not end the program.\<close>

theorem exit_needs_all_answers_witness:
  "\<exists>w'. run_answers dl_disk1 [(None, HNW_BASE_ALLOC_FAIL, ''/out/b'', ''http://h/b'')]
     (dl_world0\<lparr>dl_state := (Downloader_init [])\<lparr>dl_urls := [''http://h/a.jpg'', ''http://h/b'']\<rparr>\<rparr>) = Some w' \<and>
   \<not> dl_exit_flag (dl_state w')"
proof -
  let ?w = "dl_world0\<lparr>dl_state := (Downloader_init [])\<lparr>dl_urls := [''http://h/a.jpg'', ''http://h/b'']\<rparr>\<rparr>"
  obtain w' where w': "run_answers dl_disk1 [(None, HNW_BASE_ALLOC_FAIL, ''/out/b'', ''http://h/b'')] ?w = Some w'"
    by (simp add: on_response_def)
  from exit_needs_all_answers [OF w'] have "\<not> dl_exit_flag (dl_state w')" by (auto simp: Downloader_init_def)
  with w' show ?thesis by blast
qed

theorem downloaded_file_padded_witness:
  "\<exists>out w'. on_response dl_disk1 (Some (HttpResponse_new\<lparr>rs_line := ResponseLine_default, rs_body := Some (raw_filled 5 ''hello'')\<rparr>))
     HNW_BASE_OK ''/out/b'' ''http://h/b'' dl_world0 = Some w' \<and> length out = 2048 \<and> take 5 out = ''hello'' \<and>
     dl_success_count (dl_state w') = 1"
proof -
  let ?r = "HttpResponse_new\<lparr>rs_line := ResponseLine_default, rs_body := Some (raw_filled 5 ''hello'')\<rparr>"
  have "sl_status_code (rs_line ?r) = ''200''" "rs_body ?r = Some (raw_filled 5 ''hello'')" "''hello'' \<noteq> []"
    "length ''hello'' < 2 ^ 63" "file_output dl_disk1 (dl_disk dl_world0) ''/out/b'' [] = Some ()"
    "dl_overlay_file (dl_state dl_world0) \<or> \<not> file_is_exist dl_disk1 (dl_disk dl_world0) ''/out/b''"
    by (simp_all add: ResponseLine_default_def dl_disk1_def host1_def dl_world0_def)
  from downloaded_file_padded [OF this, of "''http://h/b''"] obtain out w' where
    r: "on_response dl_disk1 (Some ?r) HNW_BASE_OK ''/out/b'' ''http://h/b'' dl_world0 = Some w'"
    and out: "length out = 2048 * ((length ''hello'' + 2047) div 2048)" "take (length ''hello'') out = ''hello''"
    and c: "dl_success_count (dl_state w') = dl_success_count (dl_state dl_world0) + 1" by blast
  have n: "length ''hello'' = 5" by simp
  show ?thesis
    using r out c unfolding n by (intro exI [of _ out] exI [of _ w']) (simp add: dl_world0_def Downloader_init_def)
qed

end
