(* ===== verification/Http_Kinds.thy ===== *)
theory Http_Kinds
  imports Http_Contract
begin

section \<open>What a callback can be given\<close>

text \<open>
  The library hands the data of an event to the application as a pointer without a type, which the
  application casts by the event's number. Which messages can reach the callback of a session is
  fixed by the kind of the session.
\<close>

definition event_fits :: "PeerType \<Rightarrow> http_event \<Rightarrow> bool" where
  "event_fits type ev \<longleftrightarrow>
     (case ev of
        BaseEvent _ \<Rightarrow> True
      | RecvRequestHead _ \<Rightarrow> type = Server
      | RecvRequest _ \<Rightarrow> type = Server
      | RecvResponseHead _ \<Rightarrow> type = Client
      | RecvResponse _ \<Rightarrow> type = Client)"

text \<open>Two applications that agree on the events that fit a kind of session.\<close>

definition agree_on :: "PeerType \<Rightarrow> 'u \<Rightarrow> ('u, 'w) env \<Rightarrow>
     ('u \<Rightarrow> int \<Rightarrow> http_event \<Rightarrow> ('u, 'w) http_service \<Rightarrow> http_event \<times> ('u, 'w) http_service) \<Rightarrow> bool" where
  "agree_on type u E f \<longleftrightarrow> (\<forall>h ev sv. event_fits type ev \<longrightarrow> f u h ev sv = app_event E u h ev sv)"

lemmas branches = option.case_cong prod.case_cong http_event.case_cong chan_event.case_cong parser_event.case_cong
  if_cong 

lemma app_event_frame [simp]:
  "HnwBase_Close (E\<lparr>app_event := f\<rparr>) = HnwBase_Close E"
  "run_closes (E\<lparr>app_event := f\<rparr>) = run_closes E"
  "HnwBase_Send_Cb (E\<lparr>app_event := f\<rparr>) = HnwBase_Send_Cb E"
  "session_call (E\<lparr>app_event := f\<rparr>) = session_call E"
  "add_session (E\<lparr>app_event := f\<rparr>) = add_session E"
  "session_established (E\<lparr>app_event := f\<rparr>) = session_established E"
proof -
  show c: "HnwBase_Close (E\<lparr>app_event := f\<rparr>) = HnwBase_Close E"
    by (intro ext) (simp add: HnwBase_Close_def)
  show r: "run_closes (E\<lparr>app_event := f\<rparr>) = run_closes E"
    by (intro ext) (simp add: run_closes_def c cong: branches)
  have o: "on_read_cb (E\<lparr>app_event := f\<rparr>) = on_read_cb E"
    by (intro ext) (simp add: on_read_cb_def cong: branches)
  show s: "HnwBase_Send_Cb (E\<lparr>app_event := f\<rparr>) = HnwBase_Send_Cb E"
    by (intro ext) (simp add: HnwBase_Send_Cb_def r o cong: branches)
  show k: "session_call (E\<lparr>app_event := f\<rparr>) = session_call E"
    by (intro ext) (simp add: session_call_def s cong: branches)
  show "add_session (E\<lparr>app_event := f\<rparr>) = add_session E"
    by (intro ext) (simp add: add_session_def)
  show "session_established (E\<lparr>app_event := f\<rparr>) = session_established E"
    by (intro ext) (simp add: session_established_def k cong: branches)
qed

lemma parser_event_agree:
  assumes "agree_on type u E f" and "event_fits type ev"
  shows "parser_event_cb (E\<lparr>app_event := f\<rparr>) (Some (UserEvent u)) h ev sv = parser_event_cb E (Some (UserEvent u)) h ev sv"
  using assms
  by (simp add: parser_event_cb_def event_cb_with_def call_event_cb_def agree_on_def cong: branches)

lemma request_step_agree:
  assumes "agree_on Server u E f"
  shows "request_step (E\<lparr>app_event := f\<rparr>) (Some (UserEvent u)) h = request_step E (Some (UserEvent u)) h"
proof -
  note p = parser_event_agree [OF assms]
  have h: "request_head_cb (E\<lparr>app_event := f\<rparr>) (Some (UserEvent u)) h = request_head_cb E (Some (UserEvent u)) h"
    by (intro ext) (simp add: request_head_cb_def p event_fits_def)
  have e: "request_event (E\<lparr>app_event := f\<rparr>) (Some (UserEvent u)) h = request_event E (Some (UserEvent u)) h"
    by (intro ext) (simp add: request_event_def p event_fits_def cong: branches)
  show ?thesis by (intro ext) (simp add: request_step_def h e cong: branches)
qed

lemma response_step_agree:
  assumes "agree_on Client u E f"
  shows "response_step (E\<lparr>app_event := f\<rparr>) (Some (UserEvent u)) h = response_step E (Some (UserEvent u)) h"
proof -
  note p = parser_event_agree [OF assms]
  have h: "response_head_cb (E\<lparr>app_event := f\<rparr>) (Some (UserEvent u)) h = response_head_cb E (Some (UserEvent u)) h"
    by (intro ext) (simp add: response_head_cb_def p event_fits_def)
  have e: "response_event (E\<lparr>app_event := f\<rparr>) (Some (UserEvent u)) h = response_event E (Some (UserEvent u)) h"
    by (intro ext) (simp add: response_event_def p event_fits_def cong: branches)
  show ?thesis by (intro ext) (simp add: response_step_def h e cong: branches)
qed

lemma session_recv_agree:
  assumes "session_wf h se" and "get_session sv h = Some se" and "session_cb sv h = Some (UserEvent u)"
    and "agree_on (se_type se) u E f"
  shows "session_recv (E\<lparr>app_event := f\<rparr>) h d sv = session_recv E h d sv"
  using assms request_step_agree [of u E f h] response_step_agree [of u E f h]
  by (auto simp: session_recv_def session_wf_def split: PeerType.splits)

text \<open>
  C22: An application is given only events of the kind of its session. In every reachable state of the
  HTTP service, whatever the base library reports to a session and whatever bytes it brings, a
  server's callback hears of requests and of the base library's own events and a client's of
  responses and of those: a callback that does anything else on the others, a cast of the event's
  data to a message of the wrong kind included, makes no difference.
\<close>

theorem callbacks_get_their_kind:
  assumes "app_ok E" and "(http_step E)\<^sup>*\<^sup>* (HttpService_new w) sv" and "get_session sv h = Some se"
    and "session_cb sv h = Some (UserEvent u)"
    and "\<forall>k ev s. event_fits (se_type se) ev \<longrightarrow> f u k ev s = app_event E u k ev s"
  shows "event_cb (E\<lparr>app_event := f\<rparr>) (Some (UserEvent u)) h (BaseEvent e) sv =
    event_cb E (Some (UserEvent u)) h (BaseEvent e) sv"
proof -
  have a: "agree_on (se_type se) u E f" using assms(5) by (simp add: agree_on_def)
  have "session_wf h se" by (rule http_okD [OF http_ok_reachable [OF assms(1,2)] assms(3)])
  from session_recv_agree [OF this assms(3,4) a] a show ?thesis
    by (simp add: event_cb_def event_cb_with_def call_event_cb_def agree_on_def event_fits_def cong: branches)
qed

subsection \<open>An accepted connection\<close>

text \<open>An application that takes every message for a request, and comes to grief on a response.\<close>

definition casting ::
  "nat \<Rightarrow> int \<Rightarrow> http_event \<Rightarrow> (nat, unit) http_service \<Rightarrow> http_event \<times> (nat, unit) http_service" where
  "casting u h ev sv =
     (case ev of
        RecvResponseHead _ \<Rightarrow> (ev, hs_fail Undefined sv)
      | RecvResponse _ \<Rightarrow> (ev, hs_fail Undefined sv)
      | _ \<Rightarrow> app_event answering_env u h ev sv)"

definition accepting :: "(nat, unit) http_service" where
  "accepting = snd (event_cb answering_env (Some (UserEvent 1)) 0 (BaseEvent (EvAccept 5)) listening)"

lemma accepting_session:
  "map_option se_type (get_session accepting 5) = Some Server" "session_cb accepting 5 = Some (UserEvent 1)"
  by code_simp+

theorem callbacks_get_their_kind_witness:
  "event_cb (answering_env\<lparr>app_event := casting\<rparr>) (Some (UserEvent 1)) 5 (BaseEvent (EvRecvData ''HTTP/1.1 200 OK'')) accepting =
   event_cb answering_env (Some (UserEvent 1)) 5 (BaseEvent (EvRecvData ''HTTP/1.1 200 OK'')) accepting"
proof -
  obtain se where se: "get_session accepting 5 = Some se" "se_type se = Server"
    using accepting_session(1) by auto
  have "(http_step answering_env)\<^sup>*\<^sup>* (HttpService_new ()) listening"
    unfolding listening_def by (rule r_into_rtranclp) (rule step_start)
  moreover have "http_step answering_env listening accepting" unfolding accepting_def by (rule step_event)
  ultimately have "(http_step answering_env)\<^sup>*\<^sup>* (HttpService_new ()) accepting"
    by (rule rtranclp.rtrancl_into_rtrancl)
  moreover have "\<forall>k ev s. event_fits (se_type se) ev \<longrightarrow> casting 1 k ev s = app_event answering_env 1 k ev s"
    by (simp add: se(2) event_fits_def casting_def split: http_event.split)
  ultimately show ?thesis by (rule callbacks_get_their_kind [OF answering_env_ok _ se(1) accepting_session(2)])
qed

end
