(* ===== verification/Example_Programs.thy ===== *)
theory Example_Programs
  imports File_Contract Http_Kinds
begin

section \<open>Five programs on the HTTP library\<close>

text \<open>
  The callbacks and main programs of \<^verbatim>\<open>Example/HttpDownload\<close>, \<^verbatim>\<open>Example/HttpCookie\<close>,
  \<^verbatim>\<open>Example/httpserver\<close>, \<^verbatim>\<open>Example/httpclient\<close> and \<^verbatim>\<open>Example/HttpResourceStatus\<close>. What a program keeps in global variables is in the
  world of the service. Printed lines, clocks and the threads that print are not modelled.
\<close>

subsection \<open>HttpDownload\<close>

record DownloadStaus =
  ds_range :: HttpRange
  ds_pos :: u64
  ds_last_pos :: u64
  ds_status :: err_code

record Downloads =
  DownloadStausMap :: "(u64, DownloadStaus) omap"
  re_try :: "32 word"

record 'v download_world =
  dw_downloads :: Downloads
  dw_disk :: 'v

definition update_status :: "HttpRange \<Rightarrow> u64 \<Rightarrow> err_code \<Rightarrow> Downloads \<Rightarrow> Downloads" where
  "update_status rg pos status g =
     (if status \<noteq> HNW_BASE_OK then g
      else g\<lparr>DownloadStausMap := omap_put (DownloadStausMap g) (section_start rg)
        (case omap_get (DownloadStausMap g) (section_start rg) of
           Some d \<Rightarrow> d\<lparr>ds_range := rg, ds_pos := pos, ds_status := status\<rparr>
         | None \<Rightarrow> \<lparr>ds_range = rg, ds_pos = pos, ds_last_pos = 0, ds_status = status\<rparr>)\<rparr>)"

text \<open>\<open>u\<close> names the callback \<open>down\<close> itself.\<close>

definition down ::
  "('u, 'v download_world) env \<Rightarrow> 'u \<Rightarrow> string \<Rightarrow> string \<Rightarrow> HttpRange \<Rightarrow> u64 \<Rightarrow> err_code \<Rightarrow>
     ('u, 'v download_world) http_service \<Rightarrow> bool \<times> ('u, 'v download_world) http_service" where
  "down E u url output rg pos status sv =
     (let put = (\<lambda>g sv. sv\<lparr>hs_world := (hs_world sv)\<lparr>dw_downloads := g\<rparr>\<rparr>);
          sv = put (update_status rg pos status (dw_downloads (hs_world sv))) sv
      in if status \<noteq> HNW_BASE_OK
         then
           let now = rg\<lparr>rg_start := rg_start rg + pos\<rparr>;
               g = dw_downloads (hs_world sv); sv = put (g\<lparr>re_try := re_try g + 1\<rparr>) sv;
               (ret, sv) = HnwHttp_DownLoad E sv url output (Some u) 1 now HTTP_FILE_FLAG_OPEN
           in (True, sv)
         else (True, sv))"

text \<open>The main program up to its pause.\<close>

definition download_main ::
  "('u, 'v download_world) env \<Rightarrow> 'u \<Rightarrow> string \<Rightarrow> string \<Rightarrow> 32 word \<Rightarrow>
     ('u, 'v download_world) http_service \<Rightarrow> ('u, 'v download_world) http_service" where
  "download_main E u url output connnum sv =
     (let connnum = (if connnum <=s 0 then 1 else connnum)
      in snd (HnwHttp_DownLoad E sv url output (Some u) (scast connnum) HttpRange_default HTTP_FILE_FLAG_CREATE_NEW))"

text \<open>
  The program as the application of the library. The callback that \<open>down\<close> hands on is itself: the library
  only keeps it, so the environment inside does not matter (\<open>download_env_down\<close>).
\<close>

definition download_env :: "('u, 'v download_world) env \<Rightarrow> ('u, 'v download_world) env" where
  "download_env E = E\<lparr>app_download := down E\<rparr>"

subsection \<open>HttpCookie and httpserver\<close>

definition cookie1 :: HnwSetCookie where
  "cookie1 = HnwSetCookie_default\<lparr>sc_domain := ''127.0.0.1'', sc_value := \<lparr>ck_key = ''k1'', ck_value = ''v1''\<rparr>,
     sc_path := ''/'', sc_expires := ''-1''\<rparr>"

definition cookie_event_cb ::
  "('u, 'w) env \<Rightarrow> int \<Rightarrow> http_event \<Rightarrow> ('u, 'w) http_service \<Rightarrow> ('u, 'w) http_service" where
  "cookie_event_cb E handle ev sv =
     (case ev of
        RecvRequest request \<Rightarrow>
          (case snd (HnwHttp_GenerateResponse E) of
             None \<Rightarrow> hs_fail Undefined sv
           | Some resp \<Rightarrow>
               let resp = resp\<lparr>rs_head := snd (set_setcookie (rs_head resp) cookie1)\<rparr>
               in snd (HnwHttp_Response E sv handle (Some resp)))
      | _ \<Rightarrow> sv)"

definition backup_dir :: string where "backup_dir = ''F:/backup''"

definition server_event_cb ::
  "('u, 'w) env \<Rightarrow> int \<Rightarrow> http_event \<Rightarrow> ('u, 'w) http_service \<Rightarrow> ('u, 'w) http_service" where
  "server_event_cb E handle ev sv =
     (case ev of
        RecvRequest request \<Rightarrow>
          snd (HnwHttp_FileResponse E sv handle ''200'' (backup_dir @ get_url (rq_line request)) None)
      | _ \<Rightarrow> sv)"

text \<open>Both main programs up to their pause: the code they return with, or the handle they wait with.\<close>

definition server_param :: HttpParam where
  "server_param = HttpParam_new\<lparr>hp_host := ''http://127.0.0.1:8081/'', hp_peer_type := Server,
     cert_file := ''D:'' @ [CHR 92] @ ''lib'' @ [CHR 92] @ ''cert'' @ [CHR 92] @ ''server-cert.pem'',
     pri_key_file := ''D:'' @ [CHR 92] @ ''lib'' @ [CHR 92] @ ''cert'' @ [CHR 92] @ ''server-key.pem'',
     temp_dh_file := ''D:'' @ [CHR 92] @ ''lib'' @ [CHR 92] @ ''cert'' @ [CHR 92] @ ''dh1024.pem'', hp_accept_num := 10\<rparr>"

definition server_main ::
  "('u, 'w) env \<Rightarrow> 'u \<Rightarrow> ('u, 'w) http_service \<Rightarrow> (int + int) \<times> ('u, 'w) http_service" where
  "server_main E u sv =
     (let (ret, handle, sv) = HnwHttp_Start E sv server_param (Some (UserEvent u)) (- 1)
      in (if ret = HNW_BASE_OK then Inr handle else Inl (err_code_int ret), sv))"

text \<open>The main program of \<^verbatim>\<open>httpserver\<close> has the same parameters and steps.\<close>

definition httpserver_main ::
  "('u, 'w) env \<Rightarrow> 'u \<Rightarrow> ('u, 'w) http_service \<Rightarrow> (int + int) \<times> ('u, 'w) http_service" where
  "httpserver_main E u sv = server_main E u sv"

text \<open>\<^verbatim>\<open>HttpResourceStatus\<close>, whose callback only prints.\<close>

definition status_main ::
  "('u, 'w) env \<Rightarrow> 'u \<Rightarrow> string \<Rightarrow> ('u, 'w) http_service \<Rightarrow> ('u, 'w) http_service" where
  "status_main E u url sv = snd (HnwHttp_GetResourceStatus E sv url (Some (UserStatus u)))"

subsection \<open>httpclient\<close>

text \<open>Removing the old file is taken not to throw.\<close>

record 'v client_world =
  req_num :: u64
  con_num :: u64
  client_disk :: 'v

definition client_url :: string where "client_url = ''/win10_202004202345.gho''"

definition client_dst :: string where "client_dst = ''F:/backup/win10_202004202345.gho.bak''"

definition client_event_cb ::
  "('u, 'v client_world) env \<Rightarrow> int \<Rightarrow> http_event \<Rightarrow> ('u, 'v client_world) http_service \<Rightarrow>
     http_event \<times> ('u, 'v client_world) http_service" where
  "client_event_cb E handle ev sv =
     (case ev of
        BaseEvent EvConnectEstablish \<Rightarrow>
          (case snd (HnwHttp_GenerateRequest E) of
             None \<Rightarrow> (ev, hs_fail Undefined sv)
           | Some request \<Rightarrow>
               let request = request\<lparr>rq_head := add_head (rq_head request) ''Connection'' ''Close'',
                     rq_line := set_url (rq_line request) client_url\<rparr>;
                   sv = sv\<lparr>hs_world := (hs_world sv)\<lparr>req_num := 0\<rparr>\<rparr>;
                   (ret, sv) = HnwHttp_Request E sv handle (Some request)
               in (ev, sv\<lparr>hs_world := (hs_world sv)\<lparr>con_num := con_num (hs_world sv) + 1\<rparr>\<rparr>))
      | RecvResponseHead response \<Rightarrow>
          let w = remove_file (env_host E) (hs_world sv) client_dst;
              (ret, w, res) = HnwHttp_RecvFileResponse (env_platform E) (env_host E) w (Some response) client_dst
                HTTP_FILE_FLAG_CREATE
          in (RecvResponseHead (case res of None \<Rightarrow> response | Some r \<Rightarrow> r), sv\<lparr>hs_world := w\<rparr>)
      | RecvResponse response \<Rightarrow>
          (case rs_body response of
             None \<Rightarrow> (ev, hs_fail Undefined sv)
           | Some b \<Rightarrow>
               let sv = sv\<lparr>hs_world := (hs_world sv)\<lparr>req_num := req_num (hs_world sv) + body_size b\<rparr>\<rparr>
               in (ev, snd (HnwHttp_Close E sv handle)))
      | _ \<Rightarrow> (ev, sv))"

definition client_main ::
  "('u, 'w) env \<Rightarrow> 'u \<Rightarrow> ('u, 'w) http_service \<Rightarrow> (int + int) \<times> ('u, 'w) http_service" where
  "client_main E u sv =
     (let param = HttpParam_new\<lparr>hp_host := ''http://127.0.0.1:8081'', hp_peer_type := Client\<rparr>;
          (ret, handle, sv) = HnwHttp_Start E sv param (Some (UserEvent u)) (- 1)
      in (if ret = HNW_BASE_OK then Inr handle else Inl (err_code_int ret), sv))"

subsection \<open>Facts\<close>

lemma app_download_frame [simp]:
  "HnwBase_Close (E\<lparr>app_download := f\<rparr>) = HnwBase_Close E"
  "HnwBase_Add_Channnel (E\<lparr>app_download := f\<rparr>) = HnwBase_Add_Channnel E"
  "HnwBase_Connect (E\<lparr>app_download := f\<rparr>) = HnwBase_Connect E"
  "add_session (E\<lparr>app_download := f\<rparr>) = add_session E"
  "choose_point (E\<lparr>app_download := f\<rparr>) = choose_point E"
  "start_config (E\<lparr>app_download := f\<rparr>) = start_config E"
  by (intro ext; simp add: HnwBase_Close_def HnwBase_Add_Channnel_def HnwBase_Connect_def add_session_def
      choose_point_def start_config_def config_path_def cong: branches)+

lemma HnwHttp_DownLoad_frame: "HnwHttp_DownLoad (E\<lparr>app_download := f\<rparr>) = HnwHttp_DownLoad E"
proof -
  have s: "http_start (E\<lparr>app_download := f\<rparr>) = http_start E"
    by (intro ext) (simp add: http_start_def cong: branches)
  have r: "get_resource_status (E\<lparr>app_download := f\<rparr>) = get_resource_status E"
    by (intro ext) (simp add: get_resource_status_def s Let_def)
  have d: "download (E\<lparr>app_download := f\<rparr>) = download E"
    by (intro ext) (simp add: download_def s r Let_def cong: branches)
  show ?thesis by (intro ext) (simp add: HnwHttp_DownLoad_def download_url_def d cong: branches)
qed

lemma download_env_down: "down (download_env E) = down E"
  by (intro ext) (simp add: down_def download_env_def HnwHttp_DownLoad_frame Let_def)

text \<open>
  The table of the parts is keyed by their starts and holds none that failed: the list of failed parts that
  is printed is always empty.
\<close>

definition downloads_ok :: "Downloads \<Rightarrow> bool" where
  "downloads_ok g \<longleftrightarrow> omap_ok (DownloadStausMap g) \<and>
     (\<forall>k d. omap_get (DownloadStausMap g) k = Some d \<longrightarrow> ds_status d = HNW_BASE_OK \<and> section_start (ds_range d) = k)"

theorem update_status_ok: "downloads_ok g \<Longrightarrow> downloads_ok (update_status rg pos status g)"
  by (auto simp: downloads_ok_def update_status_def omap_get_put omap_put_ok split: option.splits if_splits)

text \<open>
  A failed part is asked for again at once and for ever, opened without the right to write, and from where it
  stopped only when its range has a start of its own: a range from the start of the file starts over.
\<close>

theorem failed_part_restarts:
  assumes "status \<noteq> HNW_BASE_OK"
  shows "\<exists>now sv1. down E u url output rg pos status sv =
      (True, snd (HnwHttp_DownLoad E sv1 url output (Some u) 1 now HTTP_FILE_FLAG_OPEN)) \<and>
    section_start now = (if use_start_endpoint rg then 0 else section_start rg + pos) \<and>
    DownloadStausMap (dw_downloads (hs_world sv1)) = DownloadStausMap (dw_downloads (hs_world sv))"
  using assms
  by (intro exI [of _ "rg\<lparr>rg_start := rg_start rg + pos\<rparr>"] exI [of _ "sv\<lparr>hs_world := (hs_world sv)
      \<lparr>dw_downloads := (dw_downloads (hs_world sv))\<lparr>re_try := re_try (dw_downloads (hs_world sv)) + 1\<rparr>\<rparr>\<rparr>"])
    (auto simp: down_def update_status_def section_start_def Let_def split: prod.split)

text \<open>Every request at an idle connection makes the cookie server dereference the null body of its answer.\<close>

theorem cookie_server_faults:
  assumes "idle_server E sv h se ch" and "env_alloc E" and "hs_fault sv = None"
  shows "hs_fault (cookie_event_cb E h (RecvRequest q) sv) = Some Undefined"
proof -
  let ?m = "HttpResponse_new\<lparr>rs_head := snd (set_setcookie (rs_head HttpResponse_new) cookie1)\<rparr>"
  have "get_head_count (rs_head ?m) HTTP_LEN = 0" "rs_body ?m = None"
    by (simp_all add: set_setcookie_def HttpResponse_new_def get_head_count_def add_head_def HTTP_LEN_def HTTP_SET_COOKIE_def)
  with null_body_faults [OF assms(1) _ _ assms(3), of ?m] assms(2) show ?thesis
    by (simp add: cookie_event_cb_def HnwHttp_GenerateResponse_def)
qed

theorem cookie_server_faults_witness:
  "hs_fault (cookie_event_cb file_test_env 5 (RecvRequest (ask_for ''/'')) (sample_http_service Server True)) = Some Undefined"
  by (rule cookie_server_faults [OF sample_idle file_test_env_simps(1)]) (simp add: sample_http_service_def HttpService_new_def)

end
