(* ===== verification/Base_Programs.thy ===== *)
theory Base_Programs
  imports Hnw_Service
begin

section \<open>Programs on the base library\<close>

text \<open>
  The rest of \<^verbatim>\<open>Src/base/hnw_base.cpp\<close> and of \<^verbatim>\<open>Src/base/asio/service/asio_service.hpp\<close>, and the
  programs \<^verbatim>\<open>tcpserver\<close>, \<^verbatim>\<open>tcpclient\<close>, \<^verbatim>\<open>tcpsendfile\<close>, \<^verbatim>\<open>udp\<close>, \<^verbatim>\<open>UdpBroadCast\<close> and
  \<^verbatim>\<open>dns\<close> of \<^verbatim>\<open>Example\<close>. A callback returns what it asks of boost.asio and what is left to send;
  printed lines are not modelled.
\<close>

subsection \<open>The rest of the C interface\<close>

definition HnwBase_Send ::
  "'c service \<Rightarrow> int \<Rightarrow> string option \<Rightarrow> u64 \<Rightarrow> err_code \<times> 'c chan_effect list \<times> send_outcome" where
  "HnwBase_Send sv handle message message_size = service_send sv handle message message_size"

definition HnwBase_Send_String ::
  "net \<Rightarrow> 'c service \<Rightarrow> int \<Rightarrow> string \<Rightarrow> err_code \<times> 'c chan_effect list \<times> send_outcome" where
  "HnwBase_Send_String N sv handle message = send_string N sv handle message"

definition HnwBase_SetMakeSharedCB :: "'c service \<Rightarrow> bool \<Rightarrow> err_code \<times> 'c service" where
  "HnwBase_SetMakeSharedCB sv cb = set_make_shared_cb sv cb"

definition HnwBase_GetUserData :: "'c service \<Rightarrow> int \<Rightarrow> int" where
  "HnwBase_GetUserData sv handle = get_userdata sv handle"

definition HnwBase_SetUserData :: "'c service \<Rightarrow> int \<Rightarrow> int \<Rightarrow> err_code \<times> 'c service" where
  "HnwBase_SetUserData sv handle p = set_userdata sv handle p"

definition HnwBase_AddTimer ::
  "net \<Rightarrow> 'c service \<Rightarrow> u64 \<Rightarrow> 'c option \<Rightarrow>
     (err_code \<times> 'c service \<times> int option \<times> 'c chan_effect list) option" where
  "HnwBase_AddTimer N sv time_out call = add_timer N sv time_out call"

text \<open>
  The resolver of boost.asio is an argument: the end points of a name and a service, None when it throws.
  So are its reading and printing of addresses and its broadcast address. A text that is no address
  reads as 0.0.0.0, and the caller's text is replaced before the error is looked at.
\<close>

definition query_dns ::
  "(string \<Rightarrow> string \<Rightarrow> NetPoint list option) \<Rightarrow> string \<Rightarrow> NetPoint list \<Rightarrow> string \<Rightarrow> err_code \<times> NetPoint list"
  where
  "query_dns resolve host addrs service_d =
     (case resolve host service_d of
        None \<Rightarrow> (HNW_BASE_PARAMS_IS_INVALID, addrs)
      | Some points \<Rightarrow> (HNW_BASE_OK, addrs @ points))"

record addresses =
  from_string :: "string \<Rightarrow> 32 word option"
  to_text :: "32 word \<Rightarrow> string"
  broadcast_of :: "32 word \<Rightarrow> 32 word"

definition broad_cast :: "addresses \<Rightarrow> string \<Rightarrow> err_code \<times> string" where
  "broad_cast A ip =
     (let ec = from_string A ip = None; bc = (case from_string A ip of None \<Rightarrow> 0 | Some a \<Rightarrow> a);
          ip = to_text A (broadcast_of A bc)
      in if ec then (HNW_BASE_PARAMS_IS_INVALID, ip) else (HNW_BASE_OK, ip))"

text \<open>\<^verbatim>\<open>dns/main.cpp\<close>: what it prints, the end points or the error.\<close>

definition dns_main ::
  "(string \<Rightarrow> string \<Rightarrow> NetPoint list option) \<Rightarrow> string \<Rightarrow> string \<Rightarrow> int + NetPoint list" where
  "dns_main resolve host p =
     (let (ret, addrs) = query_dns resolve host [] p
      in if ret = HNW_BASE_OK then Inr addrs else Inl (err_code_int ret))"

subsection \<open>Callbacks\<close>

text \<open>\<^verbatim>\<open>tcpserver/main.cpp\<close> and \<^verbatim>\<open>udp/main.cpp\<close>: what is received is sent back.\<close>

definition echo_event_cb ::
  "net \<Rightarrow> 'c service \<Rightarrow> int \<Rightarrow> chan_event \<Rightarrow> 'c chan_effect list \<times> send_outcome" where
  "echo_event_cb N sv handle ev =
     (case ev of
        EvRecvData data \<Rightarrow> snd (HnwBase_Send_String N sv handle data)
      | _ \<Rightarrow> ([], SendStopped))"

definition broadcast_event_cb ::
  "net \<Rightarrow> 'c service \<Rightarrow> int \<Rightarrow> chan_event \<Rightarrow> 'c chan_effect list \<times> send_outcome" where
  "broadcast_event_cb N sv handle ev =
     (case ev of
        EvConnectEstablish \<Rightarrow> snd (HnwBase_Send_String N sv handle ''broad cast : ok'')
      | EvRecvData data \<Rightarrow> snd (HnwBase_Send_String N sv handle data)
      | _ \<Rightarrow> ([], SendStopped))"

text \<open>
  \<^verbatim>\<open>tcpsendfile/main.cpp\<close>: the global \<^verbatim>\<open>FILE *\<close> is null, open at a position, or closed and not null;
  reading a closed file is undefined. \<open>disk\<close> is what \<^verbatim>\<open>fopen\<close> finds.
\<close>

datatype send_file = SfNull | SfOpen nat | SfClosed | SfUndefined

definition file_name :: string where
  "file_name = ''C:'' @ [CHR 92] @ ''Users'' @ [CHR 92] @ ''hanquan lian'' @ [CHR 92] @ ''Desktop'' @ [CHR 92] @
     ''env'' @ [CHR 92] @ ''gcc'' @ [CHR 92] @ ''gcc-debuginfo-8.2.0-1.el7.x86_64.rpm''"

definition data_read :: "(string \<Rightarrow> string option) \<Rightarrow> send_file \<Rightarrow> nat \<Rightarrow> string \<times> send_file" where
  "data_read disk file buff_size =
     (case (if file = SfNull then (case disk file_name of None \<Rightarrow> SfNull | Some _ \<Rightarrow> SfOpen 0) else file) of
        SfNull \<Rightarrow> ([], SfNull)
      | SfOpen pos \<Rightarrow>
          let data = (case disk file_name of None \<Rightarrow> [] | Some c \<Rightarrow> take buff_size (drop pos c))
          in if length data = 0 then ([], SfClosed) else (data, SfOpen (pos + length data))
      | _ \<Rightarrow> ([], SfUndefined))"

definition sendfile_event_cb ::
  "net \<Rightarrow> (string \<Rightarrow> string option) \<Rightarrow> int \<Rightarrow> chan_event \<Rightarrow> 'c service \<Rightarrow> send_file \<Rightarrow>
     'c service \<times> 'c chan_effect list \<times> send_outcome \<times> send_file" where
  "sendfile_event_cb N disk handle ev sv file =
     (case ev of
        EvConnectEstablish \<Rightarrow>
          let (_, sv, _) = service_config sv handle SET_SEND_BUFF_SIZE (Some (1024 * 1024 * 50));
              (_, ef, out, file) = service_send_cb N sv handle (Some (data_read disk)) file
          in (sv, ef, out, file)
      | _ \<Rightarrow> (sv, [], SendStopped, file))"

subsection \<open>Main programs\<close>

text \<open>
  The main programs up to their pause: the code they return with or the handle they wait with, the
  service, the clients that wait to be accepted, and the events and calls of boost.asio that follow.
  None: the process ends while the channel is added.
\<close>

type_synonym 'c program = "((int + int) \<times> 'c service \<times> 'c channel list \<times> 'c chan_effect list) option"

definition server_program ::
  "net \<Rightarrow> 'c service \<Rightarrow> NetPoint \<Rightarrow> 'c \<Rightarrow> 'c program" where
  "server_program N sv local cb =
     (case add_channel N sv TCP_SERVER local of
        None \<Rightarrow> None
      | Some (ret, sv, handle) \<Rightarrow>
          if ret \<noteq> HNW_BASE_OK then Some (Inl (err_code_int ret), sv, [], [])
          else
            let handle = (case handle of None \<Rightarrow> - 1 | Some h \<Rightarrow> h);
                (_, sv) = service_set_event_cb sv handle (Some cb);
                (ret, sv, clis, ef) = service_accept sv handle
            in Some (if ret = HNW_BASE_OK then Inr handle else Inl (err_code_int ret), sv, clis, ef))"

definition client_program ::
  "net \<Rightarrow> 'c service \<Rightarrow> channel_type \<Rightarrow> NetPoint \<Rightarrow> NetPoint \<Rightarrow> 'c \<Rightarrow> 'c program" where
  "client_program N sv type local dst cb =
     (case add_channel N sv type local of
        None \<Rightarrow> None
      | Some (ret, sv, handle) \<Rightarrow>
          if ret \<noteq> HNW_BASE_OK then Some (Inl (err_code_int ret), sv, [], [])
          else
            let handle = (case handle of None \<Rightarrow> - 1 | Some h \<Rightarrow> h);
                (_, sv) = service_set_event_cb sv handle (Some cb);
                (ret, sv, ef) = service_connect N sv handle dst
            in Some (if ret = HNW_BASE_OK then Inr handle else Inl (err_code_int ret), sv, [], ef))"

definition tcpserver_main :: "net \<Rightarrow> 'c service \<Rightarrow> 'c \<Rightarrow> 'c program" where
  "tcpserver_main N sv cb =
     server_program N sv \<lparr>np_ip = ''fe80::9040:84d6:bd13:2b96%7'', np_port = 8081\<rparr> cb"

definition tcpclient_main :: "net \<Rightarrow> 'c service \<Rightarrow> 'c \<Rightarrow> 'c program" where
  "tcpclient_main N sv cb =
     client_program N sv TCP_CLIENT NET_INVALID_POINT \<lparr>np_ip = ''127.0.0.1'', np_port = 8081\<rparr> cb"

definition tcpsendfile_main :: "net \<Rightarrow> 'c service \<Rightarrow> 'c \<Rightarrow> 'c program" where
  "tcpsendfile_main N sv cb =
     client_program N sv TCP_CLIENT NET_INVALID_POINT \<lparr>np_ip = ''127.0.0.1'', np_port = 8080\<rparr> cb"

definition udp_main :: "net \<Rightarrow> 'c service \<Rightarrow> 'c \<Rightarrow> 'c program" where
  "udp_main N sv cb =
     client_program N sv UDP \<lparr>np_ip = ''0.0.0.0'', np_port = 8081\<rparr> \<lparr>np_ip = ''192.168.1.100'', np_port = 8082\<rparr> cb"

definition broadcast_main :: "net \<Rightarrow> addresses \<Rightarrow> 'c service \<Rightarrow> 'c \<Rightarrow> 'c program" where
  "broadcast_main N A sv cb =
     (let (_, ip) = broad_cast A ''192.168.1.100''
      in client_program N sv UDP \<lparr>np_ip = ''0.0.0.0'', np_port = 8082\<rparr> \<lparr>np_ip = ip, np_port = 8082\<rparr> cb)"

subsection \<open>The echo server\<close>

text \<open>What the callback asks of boost.asio for the events a channel raises.\<close>

definition echoed :: "net \<Rightarrow> 'c service \<Rightarrow> 'c chan_effect list \<Rightarrow> 'c chan_effect list" where
  "echoed N sv es =
     concat (map (\<lambda>e. case e of EventCb _ h ev \<Rightarrow> fst (echo_event_cb N sv h ev) | _ \<Rightarrow> []) es)"

text \<open>A channel a program can answer on: connected, without a time limit, with an allocator that works.\<close>

definition answering :: "net \<Rightarrow> 'c service \<Rightarrow> int \<Rightarrow> 'c channel \<Rightarrow> bool" where
  "answering N sv h ch \<longleftrightarrow> 0 \<le> h \<and> get_channel sv h = Some ch \<and> ch_handle ch = h \<and> ch_type ch \<in> {TCP_CLIENT, SSL_CLIENT} \<and>
     bconn ch \<and> recv_time_out_ms ch = 0 \<and> send_time_out_ms ch = 0 \<and> sv_make_shared sv \<and> (\<forall>n. net_alloc N n)"

lemma unat_of_length:
  "length d < 2 ^ 31 \<Longrightarrow> unat (of_nat (length d) :: u64) = length d"
  by (rule unat_of_nat_u64) simp

lemma echo_writes:
  assumes "answering N sv h ch" and "d \<noteq> []" and "length d < 2 ^ 31"
  shows "echo_event_cb N sv h (EvRecvData d) =
    ([AsyncWrite d], SendPending \<lparr>op_buff = d, op_len = of_nat (length d), op_beg = 0, op_timer = False\<rparr>)"
proof -
  have "(of_nat (length d) :: u64) \<noteq> 0"
    using unat_of_length [OF assms(3)] assms(2) by (metis length_0_conv unat_0)
  with assms unat_of_length [OF assms(3)] show ?thesis
    by (auto simp: answering_def echo_event_cb_def HnwBase_Send_String_def send_string_def get_cache_def
        service_send_def async_send_def chan_add_timer_def Let_def)
qed

text \<open>
  C34: The echo server writes back every block it reads, in the order of the reads and with its length. A
  block that the socket takes whole is sent back as it was; one that is written in several pieces
  comes back as the prefixes of these sizes, because a further write starts at the front again.
\<close>

theorem echo_server_echoes:
  assumes "answering N sv h ch" and "ch_event_cb ch = Some (Some cb)"
    and "ro_len op = ch_recv_buff_size ch" and "\<not> ro_timer op"
    and "\<forall>d \<in> set ds. d \<noteq> [] \<and> length d < 2 ^ 31"
  shows "echoed N sv (fst (recv_all alloc ch (Some op) (map Some ds))) = map AsyncWrite ds \<and>
    (\<forall>d \<in> set ds. \<forall>ss. (\<forall>s \<in> set ss. 0 < s) \<and> sum_list ss = length d \<longrightarrow>
       (let (ef, out) = echo_event_cb N sv h (EvRecvData d)
        in fst (send_all ch (written ef) out (map (\<lambda>s. Wrote (of_nat s)) ss))) =
         (if length ss = 1 then d else concat (map (\<lambda>s. take s d) ss)))"
proof (intro conjI ballI allI impI)
  have "recv_all alloc ch (Some op) (map Some ds) =
      (concat (map (\<lambda>d. [EventCb (Some cb) h (EvRecvData d), AsyncRead (ch_recv_buff_size ch)]) ds), Some op)"
    using recv_all_data [of ch "Some cb" op alloc ds] assms by (simp add: answering_def)
  moreover have "echoed N sv (concat (map (\<lambda>d. [EventCb (Some cb) h (EvRecvData d), AsyncRead n]) ds)) =
      map AsyncWrite ds" for n
    using assms(5) by (induction ds) (simp_all add: echoed_def echo_writes [OF assms(1)])
  ultimately show "echoed N sv (fst (recv_all alloc ch (Some op) (map Some ds))) = map AsyncWrite ds" by simp
next
  fix d ss assume d: "d \<in> set ds" and ss: "(\<forall>s \<in> set ss. 0 < s) \<and> sum_list ss = length d"
  have len: "d \<noteq> []" "length d < 2 ^ 31" using d assms(5) by blast+
  have ne: "ss \<noteq> []" using ss len(1) by auto
  have b: "bconn ch" using assms(1) by (simp add: answering_def)
  have one: "length ss = 1 \<Longrightarrow> concat (map (\<lambda>s. take s d) ss) = d" using ss by (auto simp: length_Suc_conv)
  let ?op = "\<lparr>op_buff = d, op_len = of_nat (length d), op_beg = 0, op_timer = False\<rparr>"
  have "\<exists>ef. send_all ch d (SendPending ?op) (map (\<lambda>s. Wrote (of_nat s)) ss) =
      (concat (map (\<lambda>s. take s d) ss), ef, SendDone)"
    using send_all_sizes [OF b _ ne, of ?op] ss len unat_of_length [OF len(2)] by auto
  with one show "(let (ef, out) = echo_event_cb N sv h (EvRecvData d)
      in fst (send_all ch (written ef) out (map (\<lambda>s. Wrote (of_nat s)) ss))) =
      (if length ss = 1 then d else concat (map (\<lambda>s. take s d) ss))"
    by (auto simp: echo_writes [OF assms(1) len])
qed

definition echo_channel :: "int channel" where
  "echo_channel = sample_channel\<lparr>ch_event_cb := Some (Some 1)\<rparr>"

definition echo_service :: "int service" where
  "echo_service = sample_service\<lparr>channel_map := [(3, echo_channel)], sv_make_shared := True\<rparr>"

lemma echo_answering: "answering net1 echo_service 3 echo_channel"
  by (simp add: answering_def echo_service_def echo_channel_def sample_channel_def sample_service_def get_channel_def
      omap_get_def net1_def Channel_new_def)

theorem echo_server_echoes_witness:
  "echoed net1 echo_service (fst (recv_all (\<lambda>_. True) echo_channel
      (Some \<lparr>ro_len = ch_recv_buff_size echo_channel, ro_timer = False\<rparr>) (map Some [''ab'', ''c'']))) =
    [AsyncWrite ''ab'', AsyncWrite ''c''] \<and>
   (let (ef, out) = echo_event_cb net1 echo_service 3 (EvRecvData ''ab'')
    in fst (send_all echo_channel (written ef) out (map (\<lambda>s. Wrote (of_nat s)) [1, 1]))) = ''aa''"
  using echo_server_echoes [OF echo_answering, of 1 "\<lparr>ro_len = ch_recv_buff_size echo_channel, ro_timer = False\<rparr>"
      "[''ab'', ''c'']" "\<lambda>_. True"]
  by (auto simp: echo_channel_def dest: spec [of _ "[1, 1]"])

subsection \<open>The sender of a file\<close>

text \<open>What is still to be sent.\<close>

definition unsent :: "(string \<Rightarrow> string option) \<Rightarrow> send_file \<Rightarrow> string" where
  "unsent disk file =
     (case file of
        SfNull \<Rightarrow> (case disk file_name of None \<Rightarrow> [] | Some c \<Rightarrow> c)
      | SfOpen pos \<Rightarrow> (case disk file_name of None \<Rightarrow> [] | Some c \<Rightarrow> drop pos c)
      | _ \<Rightarrow> [])"

lemma take_drop_rest: "take n (drop p xs) @ drop (p + min (length xs - p) n) xs = drop p xs"
proof -
  have "drop (p + min (length xs - p) n) xs = drop (min (length xs - p) n) (drop p xs)" by (simp add: add.commute)
  moreover have "take n ys @ drop (min (length ys) n) ys = ys" for ys :: "'a list"
    by (cases "n \<le> length ys") (simp_all add: min_absorb1 min_absorb2)
  ultimately show ?thesis by (metis length_drop)
qed

interpretation sent_file: pull_source "data_read disk" "unsent disk" "\<lambda>_. True"
proof (unfold_locales, goal_cases)
  case (1 s n b s')
  then show ?case using take_drop_rest [of n 0, symmetric]
    by (auto simp: data_read_def unsent_def Let_def take_drop_rest split: send_file.splits option.splits if_splits)
next
  case (2 s n b s')
  then show ?case by (auto simp: data_read_def Let_def split: send_file.splits option.splits if_splits)
next
  case (3 s n b s')
  then show ?case by (auto simp: data_read_def unsent_def Let_def split: send_file.splits option.splits if_splits)
qed simp

text \<open>
  The loop of a callback that is a source comes to its end: when every write takes all it was given, there is
  a run that stops, and only the source decides how long it is.
\<close>

context pull_source
begin

lemma send_run_stops:
  assumes "can_send alloc ch" and "ok s"
  shows "\<exists>st. send_run True pull alloc ch (send_start pull alloc ch s) st \<and> st_out st = SendStopped"
proof -
  let ?s0 = "send_start pull alloc ch s"
  have "send_run True pull alloc ch ?s0 st \<Longrightarrow>
      \<exists>st'. send_run True pull alloc ch ?s0 st' \<and> st_out st' = SendStopped" for st
  proof (induction "length (pending (st_src st))" arbitrary: st rule: less_induct)
    case less
    have I: "send_inv ch s st" by (rule send_run_inv [OF less.prems assms(1) send_start_inv [OF assms]])
    show ?case
    proof (cases "st_out st")
      case (SendPending op)
      let ?st = "send_written pull alloc ch st op (Wrote (op_len op))"
      from I SendPending have w: "whole_op op" and o: "ok (st_src st)" by (simp_all add: send_inv_def)
      then have "op_len op \<noteq> 0" by (auto simp: whole_op_def)
      then have run: "send_run True pull alloc ch ?s0 ?st"
        by (intro run_step [OF less.prems SendPending]) (simp add: word_neq_0_conv)
      obtain ret ef out buff' s' where
        a: "async_send_cb (Some pull) alloc ch (st_buff st) (st_src st) = (ret, ef, out, buff', s')"
        by (cases "async_send_cb (Some pull) alloc ch (st_buff st) (st_src st)")
      have st: "st_out ?st = out" "st_src ?st = s'" by (simp_all add: send_written_def send_handler_def a)
      from async_send_cb_round [OF assms(1) o a] have
        r: "pending (st_src st) = out_text out @ pending s'"
          "case out of SendPending op \<Rightarrow> whole_op op | SendStopped \<Rightarrow> pending s' = [] | SendDone \<Rightarrow> False" by blast+
      show ?thesis
      proof (cases out)
        case (SendPending op')
        with r have "length (pending (st_src ?st)) < length (pending (st_src st))"
          by (simp add: st out_text_def whole_op_def)
        with less.hyps run show ?thesis by blast
      qed (use r run st in auto)
    qed (use I less.prems in \<open>auto simp: send_inv_def\<close>)
  qed
  from this [OF run_start] show ?thesis .
qed

end

lemma data_read_end:
  assumes "data_read disk file n = (d, file')" and "disk file_name \<noteq> None" and "file \<notin> {SfClosed, SfUndefined}"
  shows "if d = [] then file' = SfClosed else (\<exists>pos. file' = SfOpen pos)"
  using assms by (auto simp: data_read_def Let_def split: send_file.splits option.splits if_splits)

text \<open>While a write is in flight the file is open; when the loop has stopped it is closed.\<close>

lemma file_round:
  assumes "can_send alloc ch" and "disk file_name \<noteq> None" and "file \<notin> {SfClosed, SfUndefined}"
    and "async_send_cb (Some (data_read disk)) alloc ch buff file = (ret, ef, out, buff', file')"
  shows "case out of SendPending op \<Rightarrow> \<exists>pos. file' = SfOpen pos | SendStopped \<Rightarrow> file' = SfClosed | SendDone \<Rightarrow> False"
proof -
  obtain d f where p: "data_read disk file (unat (ch_send_buff_size ch)) = (d, f)"
    by (cases "data_read disk file (unat (ch_send_buff_size ch))")
  note q = sent_file.async_send_cb_round [OF assms(1) TrueI assms(4)]
  have "(d = [] \<longrightarrow> f = SfClosed \<and> out = SendStopped) \<and> (d \<noteq> [] \<longrightarrow> (\<exists>pos. f = SfOpen pos) \<and> out \<noteq> SendStopped) \<and> file' = f"
    using data_read_end [OF p assms(2,3)] assms(1,4) p
    by (auto simp: async_send_cb_def async_send_def can_send_def split: if_splits prod.splits)
  with q show ?thesis by (auto split: send_outcome.splits)
qed

lemma file_run_inv:
  assumes "send_run True (data_read disk) alloc ch (send_start (data_read disk) alloc ch SfNull) st"
    and "can_send alloc ch" and "disk file_name \<noteq> None"
  shows "case st_out st of
     SendPending op \<Rightarrow> \<exists>pos. st_src st = SfOpen pos | SendStopped \<Rightarrow> st_src st = SfClosed | SendDone \<Rightarrow> False"
  using assms
proof (induction "send_start (data_read disk) alloc ch SfNull" st rule: send_run.induct)
  case run_start
  obtain ret ef out buff' f where a: "async_send_cb (Some (data_read disk)) alloc ch None SfNull = (ret, ef, out, buff', f)"
    by (cases "async_send_cb (Some (data_read disk)) alloc ch None SfNull")
  from file_round [OF run_start.prems(1,2) _ a] show ?case by (simp add: send_start_def a split: send_outcome.splits)
next
  case (run_step st op r)
  then obtain pos where pos: "st_src st = SfOpen pos" by auto
  have h: "send_handler ch op r = (chan_del_timer (op_timer op), SendDone)"
    using run_step.hyps(4) by (cases r) (simp_all add: send_handler_def)
  obtain ret ef out buff' f where a: "async_send_cb (Some (data_read disk)) alloc ch (st_buff st) (st_src st) =
      (ret, ef, out, buff', f)"
    by (cases "async_send_cb (Some (data_read disk)) alloc ch (st_buff st) (st_src st)")
  from file_round [OF run_step.prems(1,2) _ a] pos show ?case by (simp add: send_written_def h pos a [unfolded pos] split: send_outcome.splits)
qed

text \<open>
  C31: The sender of a file: when its connection is established it takes a buffer of 50 MB and starts to
  send. As long as every write takes all it was given, what has been written, what is in flight and what
  is still to be read are the file; the loop can end, and when it has ended the file has been written
  as it is, and closed, without a read of the closed file on the way. The first write that takes
  only a part ends this: the front of the buffer is given to the socket once more.
\<close>

theorem file_sent_whole:
  assumes "answering N sv h ch" and "ch_make_shared ch" and "disk file_name = Some c"
    and "sendfile_event_cb N disk h EvConnectEstablish sv SfNull = (sv', ef, out, file)"
  shows "\<exists>ch'. get_channel sv' h = Some ch' \<and> ch_send_buff_size ch' = 1024 * 1024 * 50 \<and>
    (let start = send_start (data_read disk) (get_cache N sv') ch' SfNull;
         runs = send_run True (data_read disk) (get_cache N sv') ch' start
     in out = st_out start \<and> file = st_src start \<and> (\<exists>st. runs st \<and> st_out st = SendStopped) \<and>
       (\<forall>st. runs st \<longrightarrow> st_wire st @ out_text (st_out st) @ unsent disk (st_src st) = c \<and>
          st_src st \<noteq> SfUndefined \<and> (st_out st = SendStopped \<longrightarrow> st_wire st = c \<and> st_src st = SfClosed) \<and>
          (\<forall>op s. st_out st = SendPending op \<and> 0 < s \<and> s < op_len op \<longrightarrow>
             (let st' = send_written (data_read disk) (get_cache N sv') ch' st op (Wrote s)
              in st_wire st' = st_wire st @ take (unat s) (op_buff op) \<and>
                 st_asked st' = take (length (op_buff op) - unat s) (op_buff op)))))"
proof -
  let ?ch = "ch\<lparr>ch_send_buff_size := 52428800\<rparr>"
  let ?sv = "store_channel sv h ?ch"
  have g: "get_channel sv h = Some ch" and t: "ch_type ch \<in> {TCP_CLIENT, SSL_CLIENT}"
    using assms(1) by (simp_all add: answering_def)
  let ?buff = "52428800 :: u64"
  let ?alloc = "get_cache N ?sv"
  let ?start = "send_start (data_read disk) ?alloc ?ch SfNull"
  have c: "service_config sv h SET_SEND_BUFF_SIZE (Some ?buff) = (HNW_BASE_OK, ?sv, Some ?buff)"
    using assms(1) t by (auto simp: service_config_def answering_def HNW_INVALID_HANDLE_def config_virtual_def
        channel_config_def config_set_nonzero_def config_set_def)
  have g': "get_channel ?sv h = Some ?ch" using g by (simp add: get_channel_store)
  have send: "can_send ?alloc ?ch"
    using assms(1,2) by (simp add: can_send_def answering_def get_cache_def store_channel_def)
  have r: "sv' = ?sv" "out = st_out ?start" "file = st_src ?start"
    using assms(4) t g' by (auto simp: sendfile_event_cb_def c service_send_cb_def send_start_def Let_def split: prod.splits)
  have runs: "st_wire st @ out_text (st_out st) @ unsent disk (st_src st) = c \<and> st_src st \<noteq> SfUndefined \<and>
      (st_out st = SendStopped \<longrightarrow> st_wire st = c \<and> st_src st = SfClosed)"
    if "send_run True (data_read disk) ?alloc ?ch ?start st" for st
  proof -
    have e: "unsent disk SfNull = c" by (simp add: unsent_def assms(3))
    note q = sent_file.send_run_content [OF send TrueI that, unfolded e]
    have "st_src st \<noteq> SfUndefined \<and> (st_out st = SendStopped \<longrightarrow> st_src st = SfClosed)"
      using file_run_inv [OF that send] assms(3) by (auto split: send_outcome.splits)
    with q [THEN conjunct1, symmetric] q [THEN conjunct2] show ?thesis by iprover
  qed
  have part: "st_wire (send_written (data_read disk) ?alloc ?ch st op (Wrote s)) = st_wire st @ take (unat s) (op_buff op) \<and>
      st_asked (send_written (data_read disk) ?alloc ?ch st op (Wrote s)) = take (length (op_buff op) - unat s) (op_buff op)"
    if "send_run True (data_read disk) ?alloc ?ch ?start st" and "st_out st = SendPending op" and "s < op_len op"
    for st op s
  proof -
    have "whole_op op" "st_asked st = op_buff op" "length (op_buff op) \<le> unat (ch_send_buff_size ?ch)"
      using sent_file.send_run_inv [OF that(1) send sent_file.send_start_inv [OF send TrueI]] that(2)
      by (simp_all add: sent_file.send_inv_def)
    moreover have "bconn ?ch" using assms(1) by (simp add: answering_def)
    ultimately show ?thesis using that(3) by (intro send_written_part) (simp_all add: whole_op_def)
  qed
  have big: "(1024 * 1024 * 50 :: u64) = ?buff" by simp
  show ?thesis
    unfolding r(1) big Let_def
  proof (intro exI [of _ ?ch] conjI)
    show "\<forall>st. send_run True (data_read disk) ?alloc ?ch ?start st \<longrightarrow>
        st_wire st @ out_text (st_out st) @ unsent disk (st_src st) = c \<and> st_src st \<noteq> SfUndefined \<and>
        (st_out st = SendStopped \<longrightarrow> st_wire st = c \<and> st_src st = SfClosed) \<and>
        (\<forall>op s. st_out st = SendPending op \<and> 0 < s \<and> s < op_len op \<longrightarrow>
           st_wire (send_written (data_read disk) ?alloc ?ch st op (Wrote s)) = st_wire st @ take (unat s) (op_buff op) \<and>
           st_asked (send_written (data_read disk) ?alloc ?ch st op (Wrote s)) =
             take (length (op_buff op) - unat s) (op_buff op))"
      using runs part by blast
  qed (rule g' r(2,3) sent_file.send_run_stops [OF send TrueI] | simp)+
qed

theorem file_sent_whole_witness:
  "\<exists>(sv' :: int service) ch' st. get_channel sv' 3 = Some ch' \<and>
     send_run True (data_read (\<lambda>_. Some ''rpm'')) (get_cache net1 sv') ch'
       (send_start (data_read (\<lambda>_. Some ''rpm'')) (get_cache net1 sv') ch' SfNull) st \<and>
     st_wire st = ''rpm'' \<and> st_src st = SfClosed"
proof -
  obtain sv' ef out f where e: "sendfile_event_cb net1 (\<lambda>_. Some ''rpm'') 3 EvConnectEstablish echo_service SfNull =
      (sv', ef, out, f)"
    by (cases "sendfile_event_cb net1 (\<lambda>_. Some ''rpm'') 3 EvConnectEstablish echo_service SfNull")
  have m: "ch_make_shared echo_channel" by (simp add: echo_channel_def sample_channel_def)
  from file_sent_whole [OF echo_answering m refl e, unfolded Let_def] obtain ch' st where
    "get_channel sv' 3 = Some ch'"
    "send_run True (data_read (\<lambda>_. Some ''rpm'')) (get_cache net1 sv') ch'
       (send_start (data_read (\<lambda>_. Some ''rpm'')) (get_cache net1 sv') ch' SfNull) st"
    "st_wire st = ''rpm''" "st_src st = SfClosed" by (elim exE conjE) (erule allE, drule mp, assumption, blast)
  then show ?thesis by iprover
qed

subsection \<open>The programs on UDP\<close>

text \<open>
  Neither UDP program gets as far as its pause: \<open>connect\<close> of a UDP channel never succeeds, so the
  program returns with an error whatever the operating system answers. Its channel stays in the table until
  the error event is handled. The TCP client waits with a new handle as soon as the address reads as one.
\<close>

lemma add_channel_handle: "add_channel N sv type local = Some (ret, sv', h) \<Longrightarrow> ret = HNW_BASE_OK \<Longrightarrow> \<exists>k. h = Some k"
  by (auto simp: add_channel_def Let_def split: if_splits prod.splits)

lemma udp_program_ends:
  assumes "service_ok sv" and "client_program N sv UDP local dst cb = Some (r, sv', clis, ef)"
  shows "\<exists>c. r = Inl c \<and> c \<noteq> 0"
proof -
  obtain ret sv1 handle where a: "add_channel N sv UDP local = Some (ret, sv1, handle)"
    using assms(2) by (cases "add_channel N sv UDP local") (auto simp: client_program_def)
  show ?thesis
  proof (cases "ret = HNW_BASE_OK")
    case False
    with assms(2) a show ?thesis by (intro exI [of _ "err_code_int ret"]) (simp add: client_program_def)
  next
    case True
    with add_channel_handle [OF a] obtain h where h: "handle = Some h" by blast
    from add_channel_spec [OF assms(1) a] h obtain ch where
      ch: "get_channel sv1 h = Some ch" "ch_type ch = UDP" "\<not> bconn ch" by auto
    let ?sv = "store_channel sv1 h (ch\<lparr>ch_event_cb := Some (Some cb)\<rparr>)"
    have e: "service_set_event_cb sv1 h (Some cb) = (HNW_BASE_OK, ?sv)" using ch by (simp add: service_set_event_cb_def)
    have g: "get_channel ?sv h = Some (ch\<lparr>ch_event_cb := Some (Some cb)\<rparr>)" using ch by (simp add: get_channel_store)
    obtain ret2 sv2 ef2 where c: "service_connect N ?sv h dst = (ret2, sv2, ef2)"
      by (cases "service_connect N ?sv h dst")
    have "fst (service_connect N ?sv h dst) \<noteq> HNW_BASE_OK"
      using g ch by (simp add: service_connect_def channel_connect_def udp_connect_def async_recv_def Let_def
          split: prod.split)
    then have "client_program N sv UDP local dst cb = Some (Inl (err_code_int ret2), sv2, [], ef2)" and "ret2 \<noteq> HNW_BASE_OK"
      by (simp_all add: client_program_def a True h e c)
    with assms(2) show ?thesis by (intro exI [of _ "err_code_int ret2"]) simp
  qed
qed

theorem udp_programs_end:
  assumes "service_ok sv"
  shows "(\<forall>r sv' clis ef. udp_main N sv cb = Some (r, sv', clis, ef) \<longrightarrow> (\<exists>c. r = Inl c \<and> c \<noteq> 0)) \<and>
    (\<forall>r sv' clis ef. broadcast_main N A sv cb = Some (r, sv', clis, ef) \<longrightarrow> (\<exists>c. r = Inl c \<and> c \<noteq> 0))"
  using udp_program_ends [OF assms] by (auto simp: udp_main_def broadcast_main_def split: prod.splits)

theorem udp_programs_end_witness:
  "\<exists>sv' clis ef c. udp_main net1 (Service_new :: int service) 1 = Some (Inl c, sv', clis, ef) \<and> c \<noteq> 0"
proof -
  obtain r sv' clis ef where m: "udp_main net1 (Service_new :: int service) 1 = Some (r, sv', clis, ef)"
    by (cases "udp_main net1 (Service_new :: int service) 1")
      (auto simp: udp_main_def client_program_def add_channel_def supported_type_def net1_def channel_init_def udp_init_def
        channel_setup_eq Service_new_def check_endpoint_def default_recv_buff_size_def default_send_buff_size_def
        default_accept_num_def add_channel_to_map_def generate_handle_def Let_def split: option.splits prod.splits if_splits)
  with udp_programs_end [OF Service_new_ok, of net1 1 undefined] show ?thesis by blast
qed

end
