(* ===== verification/Tls_Echo.thy ===== *)
theory Tls_Echo
  imports Hnw_Prelude "HOL-Library.Sublist"
begin

section \<open>A TLS echo server on boost.asio\<close>

text \<open>
  \<^verbatim>\<open>Example/SSLTest/main.cpp\<close>, which uses boost.asio and none of the library. A session is the
  operation it waits for and its buffer; the completion handlers return the operation they start, None
  when they delete the session. The server is a step relation: an accept, or the completion of what a
  session waits for. \<open>heard\<close> and \<open>said\<close> record the bytes of each connection and are not read by the
  program. The certificates and the TLS options of the server are boost.asio's.
\<close>

subsection \<open>Sessions\<close>

definition max_length :: nat where "max_length = 1024"

datatype session_op = AsyncHandshake | AsyncReadSome nat | AsyncWriteAll string

text \<open>A read of \<open>d\<close> into the array \<^verbatim>\<open>data_\<close>.\<close>

definition fill_data :: "string \<Rightarrow> string \<Rightarrow> string" where
  "fill_data d data = d @ drop (length d) data"

definition echo_start :: session_op where
  "echo_start = AsyncHandshake"

definition handle_handshake :: "bool \<Rightarrow> session_op option" where
  "handle_handshake error = (if \<not> error then Some (AsyncReadSome max_length) else None)"

definition handle_read :: "bool \<Rightarrow> nat \<Rightarrow> string \<Rightarrow> session_op option" where
  "handle_read error bytes_transferred data =
     (if \<not> error then Some (AsyncWriteAll (take bytes_transferred data)) else None)"

definition handle_write :: "bool \<Rightarrow> session_op option" where
  "handle_write error = (if \<not> error then Some (AsyncReadSome max_length) else None)"

subsection \<open>The server\<close>

text \<open>
  Sessions are numbered in the order they are made. \<open>accepting\<close> is the accept under way, if there is one: the
  session that is bound to its handler.
\<close>

record tls_server =
  next_session :: nat
  accepting :: "nat option"
  live :: "nat \<Rightarrow> (session_op \<times> string) option"
  heard :: "nat \<Rightarrow> string"
  said :: "nat \<Rightarrow> string"

definition start_accept :: "tls_server \<Rightarrow> tls_server" where
  "start_accept s = s\<lparr>next_session := next_session s + 1, accepting := Some (next_session s)\<rparr>"

text \<open>The array of a new session is not initialised: \<open>junk\<close>. After an error the session is deleted.\<close>

definition handle_accept :: "nat \<Rightarrow> string \<Rightarrow> bool \<Rightarrow> tls_server \<Rightarrow> tls_server" where
  "handle_accept new_session junk error s =
     (let s = (if \<not> error then s\<lparr>live := (live s)(new_session \<mapsto> (echo_start, junk))\<rparr> else s)
      in start_accept s)"

definition server_new :: tls_server where
  "server_new = start_accept \<lparr>next_session = 0, accepting = None, live = \<lambda>_. None, heard = \<lambda>_. [], said = \<lambda>_. []\<rparr>"

text \<open>Session \<open>i\<close> waits for what its handler has started, or is gone.\<close>

definition resume :: "nat \<Rightarrow> session_op option \<Rightarrow> string \<Rightarrow> tls_server \<Rightarrow> tls_server" where
  "resume i op data s = s\<lparr>live := (live s)(i := map_option (\<lambda>op. (op, data)) op)\<rparr>"

definition hear :: "nat \<Rightarrow> string \<Rightarrow> tls_server \<Rightarrow> tls_server" where
  "hear i d s = s\<lparr>heard := (heard s)(i := heard s i @ d)\<rparr>"

definition say :: "nat \<Rightarrow> string \<Rightarrow> tls_server \<Rightarrow> tls_server" where
  "say i d s = s\<lparr>said := (said s)(i := said s i @ d)\<rparr>"

text \<open>
  What boost.asio may report. An accept completes only when one is under way, and is under way no longer when
  its handler runs: the next one is the handler's to start. A read brings at least one byte and no more than there is room for, a
  composed write puts all its bytes on the connection or fails after some of them.
\<close>

inductive tls_step :: "tls_server \<Rightarrow> tls_server \<Rightarrow> bool" where
  accepted: "accepting s = Some i \<Longrightarrow> length junk = max_length \<Longrightarrow>
     tls_step s (handle_accept i junk error (s\<lparr>accepting := None\<rparr>))"
| handshaken: "live s i = Some (AsyncHandshake, data) \<Longrightarrow> tls_step s (resume i (handle_handshake error) data s)"
| read_done: "live s i = Some (AsyncReadSome n, data) \<Longrightarrow> d \<noteq> [] \<Longrightarrow> length d \<le> n \<Longrightarrow> new = fill_data d data \<Longrightarrow>
     tls_step s (resume i (handle_read False (length d) new) new (hear i d s))"
| read_failed: "live s i = Some (AsyncReadSome n, data) \<Longrightarrow> tls_step s (resume i (handle_read True 0 data) data s)"
| write_done: "live s i = Some (AsyncWriteAll d, data) \<Longrightarrow>
     tls_step s (resume i (handle_write False) data (say i d s))"
| write_failed: "live s i = Some (AsyncWriteAll d, data) \<Longrightarrow>
     tls_step s (resume i (handle_write True) data (say i (take k d) s))"

inductive tls_reach :: "tls_server \<Rightarrow> bool" where
  reach_new: "tls_reach server_new"
| reach_step: "tls_reach s \<Longrightarrow> tls_step s s' \<Longrightarrow> tls_reach s'"

inductive_cases tls_stepE: "tls_step s s'"

subsection \<open>What is said is what was heard\<close>

definition echo_session_ok :: "nat \<Rightarrow> tls_server \<Rightarrow> bool" where
  "echo_session_ok i s \<longleftrightarrow>
     (case live s i of
        None \<Rightarrow> prefix (said s i) (heard s i)
      | Some (op, data) \<Rightarrow> i < next_session s \<and> accepting s \<noteq> Some i \<and> length data = max_length \<and>
          (case op of
             AsyncHandshake \<Rightarrow> heard s i = [] \<and> said s i = []
           | AsyncReadSome n \<Rightarrow> n = max_length \<and> said s i = heard s i
           | AsyncWriteAll d \<Rightarrow> d \<noteq> [] \<and> heard s i = said s i @ d)) \<and>
     (next_session s \<le> i \<or> accepting s = Some i \<longrightarrow> live s i = None \<and> heard s i = [] \<and> said s i = []) \<and>
     (accepting s = Some i \<longrightarrow> i < next_session s)"

lemma echo_session_ok_cong:
  "live t k = live s k \<Longrightarrow> next_session t = next_session s \<Longrightarrow> accepting t = accepting s \<Longrightarrow> heard t k = heard s k \<Longrightarrow> said t k = said s k \<Longrightarrow>
     echo_session_ok k t = echo_session_ok k s"
  unfolding echo_session_ok_def by (simp only:)

lemma resume_simps [simp]:
  "live (resume i op data s) k = (if k = i then map_option (\<lambda>op. (op, data)) op else live s k)"
  "accepting (resume i op data s) = accepting s" "next_session (resume i op data s) = next_session s"
  "heard (resume i op data s) = heard s"
  "said (resume i op data s) = said s"
  by (simp_all add: resume_def)

lemma hear_say_simps [simp]:
  "next_session (hear i d s) = next_session s" "next_session (say i d s) = next_session s"
  "live (hear i d s) = live s" "accepting (hear i d s) = accepting s" "said (hear i d s) = said s"
  "heard (hear i d s) k = (if k = i then heard s i @ d else heard s k)"
  "live (say i d s) = live s" "accepting (say i d s) = accepting s" "heard (say i d s) = heard s"
  "said (say i d s) k = (if k = i then said s i @ d else said s k)"
  by (simp_all add: hear_def say_def)

lemma echo_session_ok_resume:
  assumes "\<And>k. echo_session_ok k s" and "\<And>k. k \<noteq> i \<Longrightarrow> heard t k = heard s k \<and> said t k = said s k"
    and "live t = live s" and "next_session t = next_session s \<and> accepting t = accepting s" and "echo_session_ok i (resume i op data t)"
  shows "echo_session_ok k (resume i op data t)"
proof (cases "k = i")
  case False
  then have "echo_session_ok k (resume i op data t) = echo_session_ok k s"
    by (intro echo_session_ok_cong) (simp_all add: assms(2-4))
  with assms(1) show ?thesis by simp
qed (use assms(5) in simp)

lemma tls_step_ok: "tls_step s s' \<Longrightarrow> (\<And>k. echo_session_ok k s) \<Longrightarrow> echo_session_ok k s'"
proof (induction arbitrary: k rule: tls_step.induct)
  case (accepted s i junk error)
  from accepted.prems [of k] accepted.prems [of i] accepted.prems [of "next_session s"] accepted.hyps show ?case
    by (auto simp: echo_session_ok_def handle_accept_def start_accept_def echo_start_def Let_def split: option.splits session_op.splits)
next
  case (handshaken s i data error)
  from handshaken.prems [of i] handshaken.hyps have "echo_session_ok i (resume i (handle_handshake error) data s)"
    by (auto simp: echo_session_ok_def handle_handshake_def)
  then show ?case by (rule echo_session_ok_resume [OF handshaken.prems, rotated -1]) simp_all
next
  case (read_done s i n data d new)
  have "echo_session_ok i (resume i (handle_read False (length d) new) new (hear i d s))"
    using read_done.prems [of i] read_done.hyps
    by (auto simp: echo_session_ok_def handle_read_def fill_data_def)
  then show ?case by (rule echo_session_ok_resume [OF read_done.prems, rotated -1]) simp_all
next
  case (read_failed s i n data)
  from read_failed.prems [of i] read_failed.hyps have "echo_session_ok i (resume i (handle_read True 0 data) data s)"
    by (auto simp: echo_session_ok_def handle_read_def)
  then show ?case by (rule echo_session_ok_resume [OF read_failed.prems, rotated -1]) simp_all
next
  case (write_done s i d data)
  have "echo_session_ok i (resume i (handle_write False) data (say i d s))"
    using write_done.prems [of i] write_done.hyps by (auto simp: echo_session_ok_def handle_write_def)
  then show ?case by (rule echo_session_ok_resume [OF write_done.prems, rotated -1]) simp_all
next
  case (write_failed s i d data k')
  have "echo_session_ok i (resume i (handle_write True) data (say i (take k' d) s))"
    using write_failed.prems [of i] write_failed.hyps
    by (auto simp: echo_session_ok_def handle_write_def take_is_prefix)
  then show ?case by (rule echo_session_ok_resume [OF write_failed.prems, rotated -1]) simp_all
qed

lemma tls_reach_ok: "tls_reach s \<Longrightarrow> echo_session_ok k s"
proof (induction arbitrary: k rule: tls_reach.induct)
  case reach_new
  show ?case by (simp add: echo_session_ok_def server_new_def start_accept_def)
next
  case (reach_step s s')
  from tls_step_ok [OF reach_step.hyps(2) reach_step.IH] show ?case .
qed

text \<open>Every handler of an accept starts the next one.\<close>

lemma tls_reach_accepting: "tls_reach s \<Longrightarrow> \<exists>j. accepting s = Some j"
proof (induction rule: tls_reach.induct)
  case reach_new
  show ?case by (simp add: server_new_def start_accept_def)
next
  case (reach_step s s')
  from reach_step.hyps(2) reach_step.IH show ?case
    by (cases rule: tls_step.cases) (simp_all add: handle_accept_def start_accept_def Let_def)
qed

text \<open>
  C35: At every moment and on every connection the server has said a prefix of what it has heard; a session
  that waits for data has said all of it, one that writes lacks exactly the bytes it is writing. An accept is
  always under way, for a session that is not live.
\<close>

theorem tls_echo_invariant:
  assumes "tls_reach s"
  shows "prefix (said s i) (heard s i) \<and> (\<exists>j. accepting s = Some j \<and> live s j = None) \<and>
    (\<forall>n data. live s i = Some (AsyncReadSome n, data) \<longrightarrow> said s i = heard s i) \<and>
    (\<forall>d data. live s i = Some (AsyncWriteAll d, data) \<longrightarrow> heard s i = said s i @ d \<and> 0 < length d)"
proof -
  obtain j where j: "accepting s = Some j" using tls_reach_accepting [OF assms] by blast
  have "live s j = None" using tls_reach_ok [OF assms, of j] j by (simp add: echo_session_ok_def)
  with j tls_reach_ok [OF assms, of i] show ?thesis
    by (auto simp: echo_session_ok_def split: option.splits session_op.splits)
qed

theorem tls_echo_invariant_witness:
  "\<exists>s data. tls_reach s \<and> live s 0 = Some (AsyncWriteAll ''hi'', data) \<and> heard s 0 = said s 0 @ ''hi''"
proof -
  let ?j = "replicate max_length (CHR ''x'')"
  let ?a = "handle_accept 0 ?j False (server_new\<lparr>accepting := None\<rparr>)"
  let ?b = "resume 0 (handle_handshake False) ?j ?a"
  let ?new = "fill_data ''hi'' ?j"
  let ?c = "resume 0 (handle_read False 2 ?new) ?new (hear 0 ''hi'' ?b)"
  have a: "tls_reach ?a" by (rule reach_step [OF reach_new accepted]) (simp_all add: server_new_def start_accept_def)
  have "live ?a 0 = Some (AsyncHandshake, ?j)"
    by (simp add: handle_accept_def server_new_def start_accept_def echo_start_def)
  then have b: "tls_reach ?b" by (rule reach_step [OF a handshaken])
  have "live ?b 0 = Some (AsyncReadSome max_length, ?j)" by (simp add: handle_handshake_def)
  from read_done [OF this, of "''hi''" ?new] have "tls_step ?b ?c" by (simp add: max_length_def numeral_2_eq_2)
  then have c: "tls_reach ?c" by (rule reach_step [OF b])
  have l: "live ?c 0 = Some (AsyncWriteAll ''hi'', ?new)"
    by (simp add: handle_read_def fill_data_def numeral_2_eq_2)
  from tls_echo_invariant [OF c, of 0] l c show ?thesis by blast
qed

end
