(* ===== verification/Ssh_Session.thy ===== *)
theory Ssh_Session
  imports Hnw_Prelude
begin

unbundle bit_operations_syntax

section \<open>The SSH library\<close>

text \<open>
  \<^verbatim>\<open>Src/ssh/ssh_session.hpp\<close> and \<^verbatim>\<open>Src/ssh/ssh_channel.hpp\<close>, a wrapper around libssh2, and its
  client \<^verbatim>\<open>Example/sshclient\<close>. The answers of libssh2 and of the socket calls are the argument \<open>L\<close>; what
  they have allocated is the world: the open sockets, the libssh2 sessions, and the channels with the
  session each belongs to. A call with a null pointer or on something that has been freed is undefined.
\<close>

record libssh2 =
  lib_socket :: int
  lib_connect :: "int \<Rightarrow> string \<Rightarrow> 16 word \<Rightarrow> bool"
  lib_session_init :: "nat option"
  lib_handshake :: "nat \<Rightarrow> int \<Rightarrow> int"
  lib_hostkey_hash :: "nat \<Rightarrow> string option"
  lib_userauth_list :: "nat \<Rightarrow> string \<Rightarrow> string option"
  lib_userauth_password :: "nat \<Rightarrow> string \<Rightarrow> string \<Rightarrow> int"
  lib_channel_open :: "nat \<Rightarrow> nat option"
  lib_request_pty :: "nat \<Rightarrow> string \<Rightarrow> int"
  lib_shell :: "nat \<Rightarrow> int"
  lib_write :: "nat \<Rightarrow> string \<Rightarrow> int"
  lib_block_directions :: "nat \<Rightarrow> 32 word"
  lib_select :: "int \<Rightarrow> bool \<Rightarrow> bool \<Rightarrow> int"

record ssh_world =
  open_sockets :: "int set"
  live_sessions :: "nat set"
  live_channels :: "nat \<Rightarrow> nat option"

datatype ssh_stop = SshUndefined | SshExit int

definition c_str :: "string \<Rightarrow> string" where
  "c_str s = takeWhile (\<lambda>c. c \<noteq> CHR 0x00) s"

subsection \<open>Channels\<close>

text \<open>\<^verbatim>\<open>~Channel\<close>: None for freeing a channel that is gone.\<close>

definition ssh_channel_free :: "nat \<Rightarrow> ssh_world \<Rightarrow> ssh_world option" where
  "ssh_channel_free channel w =
     (if live_channels w channel = None then None
      else Some (w\<lparr>live_channels := (live_channels w)(channel := None)\<rparr>))"

text \<open>
  One round of \<open>Read\<close>: what \<^verbatim>\<open>libssh2_poll\<close> returns, whether there is something to read, and what
  \<^verbatim>\<open>libssh2_channel_read\<close> then yields: bytes or a negative code. The buffer is filled with zeros before.
\<close>

datatype read_result = ReadBytes string | ReadError int

record ssh_poll =
  poll_rc :: int
  poll_in :: bool
  poll_read :: read_result

datatype read_outcome = ReadReturns string | StillReading | ReadUndefined

definition LIBSSH2_ERROR_EAGAIN :: int where "LIBSSH2_ERROR_EAGAIN = - 37"

definition CHANNEL_READ_TIMEOUT :: int where "CHANNEL_READ_TIMEOUT = 3000"

definition ssh_buffer_size :: nat where "ssh_buffer_size = 64 * 1024"

definition read_size :: "read_result \<Rightarrow> u64" where
  "read_size r = (case r of ReadBytes b \<Rightarrow> of_nat (length b) | ReadError e \<Rightarrow> word_of_int e)"

definition ssh_buffer :: "read_result \<Rightarrow> string" where
  "ssh_buffer r =
     (case r of
        ReadBytes b \<Rightarrow> b @ replicate (ssh_buffer_size - length b) (CHR 0x00)
      | ReadError e \<Rightarrow> replicate ssh_buffer_size (CHR 0x00))"

text \<open>The loop for the rounds that follow; StillReading when it has not ended with them.\<close>

fun read_loop :: "ssh_poll list \<Rightarrow> int \<Rightarrow> string \<Rightarrow> read_outcome" where
  "read_loop ps timeout data =
     (if timeout \<le> 0 then ReadReturns data
      else
        case ps of
          [] \<Rightarrow> StillReading
        | p # ps \<Rightarrow>
            if poll_rc p < 1 then read_loop ps (timeout - 50) data
            else if poll_in p
            then
              (let n = read_size (poll_read p); buffer = ssh_buffer (poll_read p)
               in if n = word_of_int LIBSSH2_ERROR_EAGAIN then read_loop ps timeout data
                  else if n \<le> 0 then ReadReturns data
                  else if CHR 0x00 \<notin> set buffer then ReadUndefined
                  else read_loop ps (timeout - 50) (data @ c_str buffer))
            else read_loop ps (timeout - 50) data)"

declare read_loop.simps [simp del]

definition ssh_Read :: "ssh_world \<Rightarrow> nat option \<Rightarrow> ssh_poll list \<Rightarrow> int \<Rightarrow> read_outcome" where
  "ssh_Read w channel ps timeout =
     (case channel of
        None \<Rightarrow> ReadReturns []
      | Some c \<Rightarrow> if live_channels w c = None then ReadUndefined else read_loop ps timeout [])"

definition ssh_Write :: "libssh2 \<Rightarrow> ssh_world \<Rightarrow> nat option \<Rightarrow> string \<Rightarrow> ssh_stop + bool" where
  "ssh_Write L w channel data =
     (case channel of
        None \<Rightarrow> Inr False
      | Some c \<Rightarrow>
          if live_channels w c = None then Inl SshUndefined
          else let send_data = data @ [CHR 0x0A]
               in Inr ((word_of_int (lib_write L c send_data) :: u64) = of_nat (length data)))"

subsection \<open>Sessions\<close>

record ssh_session =
  ss_ip :: string
  ss_port :: int
  ss_sock :: int
  ss_session :: "nat option"

definition ssh_session_new :: "string \<Rightarrow> int \<Rightarrow> ssh_session" where
  "ssh_session_new ip port = \<lparr>ss_ip = ip, ss_port = port, ss_sock = - 1, ss_session = None\<rparr>"

text \<open>\<^verbatim>\<open>libssh2_session_free\<close> frees the channels of the session as well.\<close>

definition session_free :: "nat \<Rightarrow> ssh_world \<Rightarrow> ssh_world" where
  "session_free h w = w\<lparr>live_sessions := live_sessions w - {h},
     live_channels := (\<lambda>c. if live_channels w c = Some h then None else live_channels w c)\<rparr>"

definition ssh_Disconnect :: "ssh_session \<Rightarrow> ssh_world \<Rightarrow> bool \<times> ssh_session \<times> ssh_world" where
  "ssh_Disconnect s w =
     (let (s, w) =
            (case ss_session s of
               None \<Rightarrow> (s, w)
             | Some h \<Rightarrow> (s\<lparr>ss_session := None\<rparr>, session_free h w));
          (s, w) =
            (if ss_sock s \<noteq> - 1
             then (s\<lparr>ss_sock := - 1\<rparr>, w\<lparr>open_sockets := open_sockets w - {ss_sock s}\<rparr>)
             else (s, w))
      in (True, s, w))"

definition auth_methods :: "string \<Rightarrow> 32 word" where
  "auth_methods userauthlist =
     (let auth_pw = (0 :: 32 word);
          auth_pw = (if find0 ''password'' userauthlist \<noteq> None then auth_pw OR 1 else auth_pw);
          auth_pw = (if find0 ''keyboard-interactive'' userauthlist \<noteq> None then auth_pw OR 2 else auth_pw)
      in if find0 ''publickey'' userauthlist \<noteq> None then auth_pw OR 4 else auth_pw)"

text \<open>
  \<open>Connect\<close>: true or false, or the process stops. A null fingerprint or list of methods is
  turned into a \<^verbatim>\<open>std::string\<close>, which is undefined, and a null session is passed on.
\<close>

definition ssh_Connect ::
  "libssh2 \<Rightarrow> string \<Rightarrow> string \<Rightarrow> ssh_session \<Rightarrow> ssh_world \<Rightarrow> (ssh_stop + bool) \<times> ssh_session \<times> ssh_world" where
  "ssh_Connect L username userpwd s w =
     (let fail = (\<lambda>s w. case ssh_Disconnect s w of (_, s, w) \<Rightarrow> (Inr False, s, w));
          sock = lib_socket L; s = s\<lparr>ss_sock := sock\<rparr>;
          w = (if sock = - 1 then w else w\<lparr>open_sockets := insert sock (open_sockets w)\<rparr>)
      in if \<not> lib_connect L sock (c_str (ss_ip s)) (word_of_int (ss_port s)) then fail s w
         else
           case lib_session_init L of
             None \<Rightarrow> (Inl SshUndefined, s\<lparr>ss_session := None\<rparr>, w)
           | Some h \<Rightarrow>
               let s = s\<lparr>ss_session := Some h\<rparr>; w = w\<lparr>live_sessions := insert h (live_sessions w)\<rparr>
               in if lib_handshake L h sock \<noteq> 0 then fail s w
                  else
                    case (lib_hostkey_hash L h, lib_userauth_list L h username) of
                      (Some fingerprint, Some userauthlist) \<Rightarrow>
                        if auth_methods userauthlist AND 1 \<noteq> 0
                        then if lib_userauth_password L h (c_str username) (c_str userpwd) \<noteq> 0 then fail s w
                             else (Inr True, s, w)
                        else if auth_methods userauthlist AND 2 \<noteq> 0 then (Inl (SshExit (- 100)), s, w)
                        else fail s w
                    | _ \<Rightarrow> (Inl SshUndefined, s, w))"

definition ssh_CreateChannel :: "libssh2 \<Rightarrow> ssh_session \<Rightarrow> string \<Rightarrow> ssh_world \<Rightarrow> nat option \<times> ssh_world" where
  "ssh_CreateChannel L s ptyType w =
     (case ss_session s of
        None \<Rightarrow> (None, w)
      | Some h \<Rightarrow>
          (case lib_channel_open L h of
             None \<Rightarrow> (None, w)
           | Some c \<Rightarrow>
               let opened = w\<lparr>live_channels := (live_channels w)(c \<mapsto> h)\<rparr>;
                   freed = opened\<lparr>live_channels := (live_channels opened)(c := None)\<rparr>
               in if lib_request_pty L c (c_str ptyType) \<noteq> 0 then (None, freed)
                  else if lib_shell L c \<noteq> 0 then (None, freed)
                  else (Some c, opened)))"

definition ssh_waitsocket :: "libssh2 \<Rightarrow> ssh_session \<Rightarrow> int" where
  "ssh_waitsocket L s =
     (case ss_session s of
        None \<Rightarrow> - 1
      | Some h \<Rightarrow>
          let dir = lib_block_directions L h
          in lib_select L (ss_sock s + 1) (dir AND 1 \<noteq> 0) (dir AND 2 \<noteq> 0))"

text \<open>
  \<^verbatim>\<open>sshclient/main.cpp\<close>, with the destructors of the channel and of the session at its end.
\<close>

definition sshclient_main :: "libssh2 \<Rightarrow> ssh_poll list \<Rightarrow> ssh_world \<Rightarrow> (ssh_stop + read_outcome) \<times> ssh_world" where
  "sshclient_main L ps w =
     (let (ret, s, w) = ssh_Connect L ''root'' ''root'' (ssh_session_new ''192.168.1.105'' 22) w
      in case ret of
           Inl stop \<Rightarrow> (Inl stop, w)
         | Inr _ \<Rightarrow>
             (case ssh_CreateChannel L s ''vanilla'' w of
                (None, w) \<Rightarrow> (Inl SshUndefined, w)
              | (Some c, w) \<Rightarrow>
                  (case ssh_Write L w (Some c) ''ls -l'' of
                     Inl stop \<Rightarrow> (Inl stop, w)
                   | Inr _ \<Rightarrow>
                       (case ssh_Read w (Some c) ps CHANNEL_READ_TIMEOUT of
                          ReadReturns text \<Rightarrow>
                            (case ssh_channel_free c w of
                               None \<Rightarrow> (Inl SshUndefined, w)
                             | Some w \<Rightarrow> (Inr (ReadReturns text), snd (snd (ssh_Disconnect s w))))
                        | other \<Rightarrow> (Inr other, w)))))"

subsection \<open>Connecting and disconnecting\<close>

text \<open>What the operating system and libssh2 hand out is not in use, and no connection is made without a socket.\<close>

definition ssh_fresh :: "libssh2 \<Rightarrow> ssh_world \<Rightarrow> bool" where
  "ssh_fresh L w \<longleftrightarrow> lib_socket L \<notin> open_sockets w \<and> (\<forall>ip port. \<not> lib_connect L (- 1) ip port) \<and>
     (case lib_session_init L of None \<Rightarrow> True | Some h \<Rightarrow> h \<notin> live_sessions w \<and> Some h \<notin> range (live_channels w))"

lemma disconnect_socket:
  "ss_sock s = - 1 \<Longrightarrow> ss_session s = None \<Longrightarrow> k \<noteq> - 1 \<Longrightarrow> k \<notin> open_sockets w \<Longrightarrow>
     ssh_Disconnect (s\<lparr>ss_sock := k\<rparr>) (w\<lparr>open_sockets := insert k (open_sockets w)\<rparr>) = (True, s, w)"
  by (cases s; cases w) (simp add: ssh_Disconnect_def)

lemma disconnect_session:
  assumes "ss_sock s = - 1" and "ss_session s = None" and "k \<noteq> - 1" and "k \<notin> open_sockets w"
    and "h \<notin> live_sessions w" and "Some h \<notin> range (live_channels w)"
  shows "ssh_Disconnect (s\<lparr>ss_sock := k, ss_session := Some h\<rparr>)
     (w\<lparr>open_sockets := insert k (open_sockets w), live_sessions := insert h (live_sessions w)\<rparr>) = (True, s, w)"
proof -
  have "live_channels w c \<noteq> Some h" for c using assms(6) by (metis rangeI)
  with assms show ?thesis by (cases s; cases w) (auto simp: ssh_Disconnect_def session_free_def fun_eq_iff)
qed

lemma connected_or_nothing:
  assumes "ssh_fresh L w" and "ss_sock s = - 1" and "ss_session s = None"
    and "ssh_Connect L username userpwd s w = (Inr ok, s', w')"
  shows "if ok
    then ss_sock s' = lib_socket L \<and> lib_session_init L \<noteq> None \<and> ss_session s' = lib_session_init L \<and>
      open_sockets w' = insert (lib_socket L) (open_sockets w) \<and> ssh_Disconnect s' w' = (True, s, w)
    else s' = s \<and> w' = w"
proof (cases "lib_socket L = - 1")
  case True
  with assms show ?thesis
    by (auto simp: ssh_Connect_def ssh_fresh_def ssh_Disconnect_def Let_def split: prod.splits)
next
  case k: False
  have ko: "lib_socket L \<notin> open_sockets w" using assms(1) by (simp add: ssh_fresh_def)
  note sock = disconnect_socket [OF assms(2,3) k ko]
  show ?thesis
  proof (cases "lib_session_init L")
    case None
    with assms(4) sock show ?thesis by (auto simp: ssh_Connect_def k Let_def split: if_splits)
  next
    case (Some h)
    with assms(1) have "h \<notin> live_sessions w" "Some h \<notin> range (live_channels w)" by (simp_all add: ssh_fresh_def)
    note sess = disconnect_session [OF assms(2,3) k ko this]
    show ?thesis
      using assms(4) sock sess Some
      by (auto simp: ssh_Connect_def k Let_def split: if_splits option.splits)
  qed
qed

text \<open>
  C32: \<open>Connect\<close> of a new session that comes back leaves everything or nothing: after true the session
  owns the new socket and the new libssh2 session, and \<open>Disconnect\<close> gives both back; after
  false the session is as new, and nothing it took is left open, at whichever step it failed.
\<close>

theorem connect_all_or_nothing:
  assumes "ssh_fresh L w" and "ss_sock s = - 1" and "ss_session s = None"
    and "ssh_Connect L username userpwd s w = (Inr ok, s', w')"
  shows "if ok
    then ss_sock s' = lib_socket L \<and> lib_session_init L \<noteq> None \<and> ss_session s' = lib_session_init L \<and>
      open_sockets w' = insert (lib_socket L) (open_sockets w) \<and> ssh_Disconnect s' w' = (True, s, w)
    else s' = s \<and> w' = w"
  by (rule connected_or_nothing [OF assms])

definition ssh_test :: libssh2 where
  "ssh_test = \<lparr>lib_socket = 4, lib_connect = \<lambda>k ip port. k = 4, lib_session_init = Some 0, lib_handshake = \<lambda>_ _. 0,
     lib_hostkey_hash = \<lambda>_. Some ''hash'', lib_userauth_list = \<lambda>_ _. Some ''publickey,password'',
     lib_userauth_password = \<lambda>_ _ _. 0, lib_channel_open = \<lambda>_. Some 1, lib_request_pty = \<lambda>_ _. 0, lib_shell = \<lambda>_. 0,
     lib_write = \<lambda>_ d. int (length d), lib_block_directions = \<lambda>_. 1, lib_select = \<lambda>_ _ _. 1\<rparr>"

definition ssh_nothing :: ssh_world where
  "ssh_nothing = \<lparr>open_sockets = {}, live_sessions = {}, live_channels = \<lambda>_. None\<rparr>"

lemma ssh_test_fresh: "ssh_fresh ssh_test ssh_nothing"
  by (simp add: ssh_fresh_def ssh_test_def ssh_nothing_def)

lemma ssh_test_auth: "auth_methods ''publickey,password'' AND 1 \<noteq> 0" "auth_methods ''publickey'' AND 3 = 0"
  by (simp_all add: auth_methods_def)

lemma ssh_test_connect:
  "fst (ssh_Connect ssh_test ''root'' ''root'' (ssh_session_new ''h'' 22) ssh_nothing) = Inr True"
  using ssh_test_auth by (simp add: ssh_Connect_def ssh_test_def ssh_session_new_def Let_def)

theorem connect_all_or_nothing_witness:
  "\<exists>s' w'. ssh_Connect ssh_test ''root'' ''root'' (ssh_session_new ''h'' 22) ssh_nothing = (Inr True, s', w') \<and>
     ss_sock s' = 4 \<and> ssh_Disconnect s' w' = (True, ssh_session_new ''h'' 22, ssh_nothing)"
proof -
  obtain s' w' where c: "ssh_Connect ssh_test ''root'' ''root'' (ssh_session_new ''h'' 22) ssh_nothing = (Inr True, s', w')"
    using ssh_test_connect by (metis prod.collapse)
  have "ss_sock (ssh_session_new ''h'' 22) = - 1" "ss_session (ssh_session_new ''h'' 22) = None"
    by (simp_all add: ssh_session_new_def)
  from connect_all_or_nothing [OF ssh_test_fresh this c] c show ?thesis by (simp add: ssh_test_def)
qed

text \<open>
  \<open>Connect\<close> of a session that is connected takes a new socket without closing the old one. Nothing refers
  to it any more: it stays open after \<open>Disconnect\<close>, and so does the old libssh2 session when the second
  \<open>Connect\<close> succeeds.
\<close>

theorem reconnect_leaks:
  assumes "ss_sock s \<in> open_sockets w" and "lib_socket L \<noteq> ss_sock s"
    and "ssh_Connect L username userpwd s w = (Inr ok, s', w')"
  shows "ss_sock s \<in> open_sockets (snd (snd (ssh_Disconnect s' w'))) \<and>
    (\<forall>h. ok \<and> ss_session s = Some h \<and> h \<in> live_sessions w \<and> lib_session_init L \<noteq> Some h \<longrightarrow>
       h \<in> live_sessions (snd (snd (ssh_Disconnect s' w'))))"
  using assms
  by (auto simp: ssh_Connect_def ssh_Disconnect_def session_free_def Let_def split: if_splits option.splits prod.splits)

subsection \<open>Channels\<close>

text \<open>A channel that is handed out dies with its session: destroying it after \<open>Disconnect\<close> is undefined.\<close>

theorem channel_outlives_session:
  assumes "ssh_CreateChannel L s ptyType w = (Some c, w')"
  shows "ssh_channel_free c w' \<noteq> None \<and> ssh_channel_free c (snd (snd (ssh_Disconnect s w'))) = None"
  using assms
  by (auto simp: ssh_CreateChannel_def ssh_channel_free_def ssh_Disconnect_def session_free_def Let_def
      split: option.splits if_splits)

text \<open>
  \<open>Write\<close> sends the text with a newline and compares the count with the length of the text: it reports
  success only when the newline has not been sent, and failure when everything has.
\<close>

theorem write_reports_failure:
  assumes "live_channels w c \<noteq> None" and "0 \<le> lib_write L c (data @ [CHR 0x0A])"
    and "lib_write L c (data @ [CHR 0x0A]) \<le> int (length data) + 1" and "length data < 2 ^ 63"
  shows "ssh_Write L w (Some c) data = Inr (lib_write L c (data @ [CHR 0x0A]) = int (length data))"
proof -
  let ?n = "lib_write L c (data @ [CHR 0x0A])"
  have "uint (word_of_int ?n :: u64) = ?n" using assms by (simp add: uint_word_of_int)
  moreover have "uint (of_nat (length data) :: u64) = int (length data)"
    unfolding uint_nat using unat_of_nat_u64 [of "length data"] assms(4) by simp
  ultimately have "((word_of_int ?n :: u64) = of_nat (length data)) = (?n = int (length data))"
    unfolding word_uint_eq_iff by (simp only: of_nat_eq_iff)
  with assms(1) show ?thesis by (auto simp: ssh_Write_def)
qed

theorem write_reports_failure_witness:
  "ssh_Write ssh_test (ssh_nothing\<lparr>live_channels := [1 \<mapsto> 0]\<rparr>) (Some 1) ''ls'' = Inr False"
  using write_reports_failure [of "ssh_nothing\<lparr>live_channels := [1 \<mapsto> 0]\<rparr>" 1 ssh_test "''ls''"]
  by (simp add: ssh_test_def ssh_nothing_def)

subsection \<open>The reading loop\<close>

definition again :: "ssh_poll \<Rightarrow> bool" where
  "again p \<longleftrightarrow> 1 \<le> poll_rc p \<and> poll_in p \<and> read_size (poll_read p) = word_of_int LIBSSH2_ERROR_EAGAIN"

definition at_end :: "ssh_poll \<Rightarrow> bool" where
  "at_end p \<longleftrightarrow> 1 \<le> poll_rc p \<and> poll_in p \<and> read_size (poll_read p) = 0"

definition poll_text :: "ssh_poll \<Rightarrow> string" where
  "poll_text p =
     (if 1 \<le> poll_rc p \<and> poll_in p then (case poll_read p of ReadBytes b \<Rightarrow> c_str b | ReadError _ \<Rightarrow> []) else [])"

definition fits :: "ssh_poll \<Rightarrow> bool" where
  "fits p \<longleftrightarrow> (case poll_read p of ReadBytes b \<Rightarrow> length b < ssh_buffer_size | ReadError _ \<Rightarrow> True)"

text \<open>The rounds a time limit allows.\<close>

definition rounds :: "int \<Rightarrow> nat" where
  "rounds timeout = nat ((timeout + 49) div 50)"

lemma rounds_0 [simp]: "timeout \<le> 0 \<Longrightarrow> rounds timeout = 0"
  by (simp add: rounds_def)

lemma rounds_Suc: "0 < timeout \<Longrightarrow> rounds timeout = Suc (rounds (timeout - 50))"
  unfolding rounds_def by linarith

lemma c_str_zeros [simp]: "c_str (b @ replicate n (CHR 0x00)) = c_str b" "c_str (replicate n (CHR 0x00)) = []"
proof -
  show "c_str (b @ replicate n (CHR 0x00)) = c_str b" by (induction b) (auto simp: c_str_def takeWhile_replicate)
qed (simp add: c_str_def takeWhile_replicate)

lemma ssh_buffer_text:
  "fits p \<Longrightarrow> CHR 0x00 \<in> set (ssh_buffer (poll_read p)) \<and>
     c_str (ssh_buffer (poll_read p)) = (case poll_read p of ReadBytes b \<Rightarrow> c_str b | ReadError _ \<Rightarrow> [])"
  by (auto simp: fits_def ssh_buffer_def ssh_buffer_size_def split: read_result.splits)

text \<open>A round that is not told to try again.\<close>

lemma read_loop_round:
  assumes "0 < timeout" and "\<not> again p" and "fits p"
  shows "read_loop (p # ps) timeout data =
    (if at_end p then ReadReturns data else read_loop ps (timeout - 50) (data @ poll_text p))"
  using assms ssh_buffer_text [OF assms(3)]
  by (subst read_loop.simps) (auto simp: again_def at_end_def poll_text_def Let_def)

text \<open>
  C33: When libssh2 is never told to try again, \<open>Read\<close> ends within a round for every 50 of its time limit, and
  yields what came up to the end of the stream, every piece cut at its first NUL.
\<close>

theorem read_collects:
  assumes "\<forall>p \<in> set ps. \<not> again p \<and> fits p" and "rounds timeout \<le> length ps"
  shows "read_loop ps timeout data =
    ReadReturns (data @ concat (map poll_text (takeWhile (\<lambda>p. \<not> at_end p) (take (rounds timeout) ps))))"
  using assms
proof (induction ps arbitrary: timeout data)
  case Nil
  then have "timeout \<le> 0" using rounds_Suc [of timeout] by (cases "0 < timeout") auto
  then show ?case by (simp add: read_loop.simps)
next
  case (Cons p ps)
  show ?case
  proof (cases "0 < timeout")
    case True
    with Cons rounds_Suc [OF True] show ?thesis by (simp add: read_loop_round)
  qed (simp add: read_loop.simps)
qed

definition sample_poll :: ssh_poll where
  "sample_poll = \<lparr>poll_rc = 1, poll_in = True, poll_read = ReadBytes [CHR ''a'', CHR 0x00, CHR ''b'']\<rparr>"

lemma sample_poll_simps:
  "\<not> again sample_poll" "\<not> at_end sample_poll" "fits sample_poll" "poll_text sample_poll = ''a''"
proof -
  have r: "read_size (poll_read sample_poll) = 3" by (simp add: sample_poll_def read_size_def)
  then show "\<not> again sample_poll" "\<not> at_end sample_poll" by (simp_all add: again_def at_end_def LIBSSH2_ERROR_EAGAIN_def)
qed (simp_all add: sample_poll_def fits_def ssh_buffer_size_def poll_text_def c_str_def)

theorem read_collects_witness:
  "read_loop [sample_poll, sample_poll, sample_poll] 100 [] = ReadReturns ''aa''"
proof -
  have "rounds 100 = Suc (Suc 0)" by (simp add: rounds_def)
  with read_collects [of "[sample_poll, sample_poll, sample_poll]" 100 "[]"] show ?thesis
    by (simp add: sample_poll_simps)
qed

text \<open>When it is told so again and again, the loop does not end: its time limit is not touched.\<close>

theorem read_never_ends:
  assumes "0 < timeout" and "\<forall>p \<in> set ps. again p"
  shows "read_loop ps timeout data = StillReading"
  using assms(2)
proof (induction ps)
  case Nil
  with assms(1) show ?case by (simp add: read_loop.simps)
next
  case (Cons p ps)
  with assms(1) show ?case by (subst read_loop.simps) (simp add: again_def)
qed

text \<open>
  The client ignores what \<open>Connect\<close> returns: without a login there is no channel, and it writes through a
  null pointer.
\<close>

theorem sshclient_needs_login:
  assumes "ssh_fresh L w" and "fst (ssh_Connect L ''root'' ''root'' (ssh_session_new ''192.168.1.105'' 22) w) = Inr False"
  shows "sshclient_main L ps w = (Inl SshUndefined, w)"
proof -
  let ?s = "ssh_session_new ''192.168.1.105'' 22"
  obtain s' w' where c: "ssh_Connect L ''root'' ''root'' ?s w = (Inr False, s', w')"
    using assms(2) by (metis prod.collapse)
  have n: "ss_sock ?s = - 1" "ss_session ?s = None" by (simp_all add: ssh_session_new_def)
  from connected_or_nothing [OF assms(1) n c] c n show ?thesis
    by (simp add: sshclient_main_def ssh_CreateChannel_def)
qed

end
