(* ===== verification/Spec2Isabelle.thy ===== *)
theory Spec2Isabelle
  imports File_Exchange Files_Downloader Example_Programs Base_Programs Tls_Echo Ssh_Session
begin
text \<open>
  This library verifies Hnw (\<^verbatim>\<open>src/Hnw\<close>), an HTTP client and server library over boost.asio.
  Its two layers are the base library (\<^verbatim>\<open>Src/base\<close>: channels and the service that owns
  them) and the HTTP library (\<^verbatim>\<open>Src/http\<close>: messages, parsers, sessions and the service).

  How the parts interact. A channel (\<^verbatim>\<open>tcp_client_channel.hpp\<close> and its siblings) is a socket or
  a timer with an event callback. The base service keeps a table of channels by handle and passes their
  events on. The HTTP service binds its own \<open>event_cb\<close> to every channel it starts and keeps a session
  per channel: a received block goes to the session's parser, which raises header, message and
  error events; a message to be sent is queued in the session, whose \<open>on_read\<close> the channel calls
  for block after block until it returns nothing.

  Theories, bottom up:
  \<^item> \<open>Hnw_Prelude\<close>: shared types (64-bit words, strings), the locales \<open>keyed_store\<close> (the laws of a
    table with keys) and \<open>pull_source\<close> (a state that hands out its text in blocks of at most n
    characters; draining it gives the whole text). \<open>Std_Text\<close>: decimal and hexadecimal text.
    \<open>Std_Map\<close>: \<open>std::map\<close> as a sorted association list, an instance of \<open>keyed_store\<close>.
  \<^item> \<open>Hnw_Codes\<close>: \<^verbatim>\<open>base/hnw_define.h\<close>, error codes, channel kinds, configuration selectors.
  \<^item> \<open>Http_Util\<close>: \<^verbatim>\<open>http/util/http_util.hpp\<close>. \<open>Http_Types\<close>: the structures of
    \<^verbatim>\<open>http/hnw_http.h\<close>. \<open>Http_Head\<close>, \<open>Http_Auth\<close>: \<^verbatim>\<open>http_head_impl.hpp\<close>, header fields and
    ranges, then cookies and authentication. \<open>Http_Body\<close>: the raw and the file body.
    \<open>Http_Line\<close>: request and status line. \<open>Http_Message\<close>: requests and responses.
  \<^item> \<open>Http_Parser\<close>: \<^verbatim>\<open>base/define/parser.hpp\<close> and both HTTP parsers; the locale
    \<open>piecewise_parser\<close> proves once that a parser fed in pieces does what it does on the whole text.
  \<^item> \<open>Http_Session\<close>: \<^verbatim>\<open>http_session.hpp\<close>; a server session is an instance of \<open>pull_source\<close>,
    a client session one too (\<open>Http_Client\<close>).
  \<^item> \<open>Hnw_Channel\<close>: \<^verbatim>\<open>channel.hpp\<close> and \<^verbatim>\<open>asio_client_channel.hpp\<close>. \<open>Hnw_Asio\<close>: TCP, UDP and timer
    channels. \<open>Hnw_Ssl\<close>: the TLS channels, which inherit from the TCP ones. \<open>Hnw_Service\<close>:
    \<^verbatim>\<open>service.hpp\<close> with \<^verbatim>\<open>asio_service.hpp\<close>, the virtual calls of the channels included;
    \<open>service_step\<close> is one operation of the service.
  \<^item> \<open>Http_Service\<close>, \<open>Http_Download\<close>, \<open>Http_Dispatch\<close>: \<^verbatim>\<open>http_service.hpp\<close>. The first holds
    the state and what starts and sends, the second resource status and downloads, the third
    \<open>event_cb\<close> with the parser callbacks. \<open>Http_Invariant\<close>: \<open>http_step\<close>, one operation of the
    HTTP service, and the locale \<open>http_invariant\<close>, by which a predicate kept by the few
    primitive changes of the state is kept by all of them. \<open>Http_Contract\<close>: what the operations do.
  \<^item> \<open>Http_Delivery\<close>: the service as a receiver, from the block a channel reads to the
    application's callback. \<open>Http_Exchange\<close>: the service as a sender of requests. \<open>Http_Kinds\<close>:
    which events a callback can be given. \<open>Http_Interface\<close>: the rest of \<^verbatim>\<open>hnw_http.cpp\<close>.
  \<^item> Two applications of the library. The file server \<^verbatim>\<open>Example/FileService\<close>: \<open>File_Page\<close>, its pages
    and paths; \<open>File_Service\<close>, its configuration and its callback \<open>http_event_cb\<close>; \<open>File_Contract\<close>,
    which requests it serves; \<open>File_Exchange\<close>, its callback behind the parser of a session. The
    downloader \<^verbatim>\<open>Example/FilesDownloader\<close>: \<open>Files_Downloader\<close>, its file of settings and URLs, its
    callback \<open>on_response\<close> and its main program.
  \<^item> Smaller programs of \<^verbatim>\<open>Example\<close>: \<open>Example_Programs\<close>, five on the HTTP library;
    \<open>Base_Programs\<close>, six on the base library, with the rest of \<^verbatim>\<open>hnw_base.cpp\<close>; \<open>Tls_Echo\<close>, the
    server of \<^verbatim>\<open>SSLTest\<close>, a step relation on the sessions of boost.asio.
  \<^item> \<open>Ssh_Session\<close>: \<^verbatim>\<open>Src/ssh\<close>, sessions and channels on libssh2, which no other part uses, and the
    program \<^verbatim>\<open>sshclient\<close>. What libssh2 and the socket calls answer is the record \<open>libssh2\<close>; what they have
    allocated is \<open>ssh_world\<close>.
  \<^item> This theory: whole exchanges, from the call of one application to the callback of the other.

  Conventions. An operation takes the state and returns its error code and the new state. What
  boost.asio would do is an effect in a list (\<open>chan_effect\<close>), kept by the HTTP service in its log
  \<open>hs_log\<close>; what asio completes is an argument of the completion handler. The network's answers
  (bind, connect, address lookup, TLS handshakes) are the record \<open>net\<close>, the file system's \<open>host\<close>, the
  application's callbacks and time \<open>env\<close>; none of them has a definition here, and
  properties hold for all of them that meet the named hypotheses. A callback bound in the code is a value
  of \<open>event_callback\<close> that names it with the variables it captures. A dereferenced null pointer,
  an exception that leaves the library or a loop that does not end is a value: \<open>None\<close>, or
  \<open>hs_fault\<close> in the HTTP service. Integers of
  the code are words where they may wrap; characters are the bytes of a string. The parsers' virtual
  calls are steps on a record of the parser's members.

  Bounds. Where the code keeps a position in a 32-bit \<^verbatim>\<open>int\<close> (\<open>split\<close>, \<open>get_parent_path\<close>) the loop is
  also given on 32-bit words (\<open>split_loop\<close>, \<open>parent_loop_int\<close>) and shown to be the unbounded one for texts
  shorter than 2 GB; the rest of the model uses the latter, and so takes lines, fields, URLs and paths to be
  shorter than that. The handle counter is a number that does not overflow.

  Loops. No fuel is used. Loops that always end are structural or have a measure; those that may not (the loop
  of \<open>input_data\<close>, \<open>split\<close>, \<open>del_setcookie\<close> and of saving a body) are
  \<open>partial_function (option)\<close>, and that they return is part of what is proved of them; where the
  code does not return, that is proved too. The loop that reads an SSH channel takes the answers of libssh2 as a list
  and says when they are used up.

  What is shown. Printed messages are parsed back (and where not), in one piece or many; a session hands out its
  queue exactly and in order; its composition with the parser gives \<open>server_to_client\<close>, and with the
  services at both ends \<open>answer_reaches_application\<close> and \<open>request_reaches_application\<close>: what the
  application at one end sends is what the application at the other end hears, but for the words of a status line's
  reason behind the first (\<open>read_line\<close>) and the body of a request. \<open>file_fetched\<close> closes the
  circle: a client's request makes the file server answer, and the client hears the file. The services keep their tables well formed in every reachable
  state, and a callback is given events of its session's kind only. Setters and getters of header fields are inverse on stated inputs; authentication accepts
  the right password; bodies read and write inside their bounds. Where the code does not do what
  it means to, the theorem states what it does (for instance \<open>download_never_succeeds\<close>,
  \<open>file_server_faults\<close>: the file server answers nothing but files, \<open>finished_downloads_wait\<close>: the downloader
  does not end when its files are there, \<open>write_reports_failure\<close>: a write to an SSH channel that succeeds
  is reported as one that failed). Of the smaller programs: the echo servers say what they hear and the sender of a file
  sends the file, those on the base library as long as every write takes all it was given
  (\<open>send_restarts_at_front\<close> says what happens otherwise), and an SSH session that fails to connect leaves nothing open.

  Not modelled, and why:
  \<^item> threads and mutexes: each operation is one step, so two threads inside one are not covered;
    events raised while a base call runs are in the log and come back as later operations;
    later rounds of a channel's sending loop are \<open>send_run\<close> and \<open>http_step\<close>;
  \<^item> \<^verbatim>\<open>ssh_service.hpp\<close>, which initialises libssh2; the options of the TLS contexts (verification is switched
    off);
  \<^item> character set conversion and digests: boost's; the digests and codecs are parameters (\<open>platform\<close>), and so
    are the answers of name lookup and of boost's broadcast addresses;
  \<^item> \<open>HnwBase_Async\<close>, which posts a function to a worker thread, logging and printed lines, pure virtual
    interfaces, \<^verbatim>\<open>Test\<close>, and of \<^verbatim>\<open>Example\<close> the threads that print and the programs \<^verbatim>\<open>filemap\<close>
    and \<^verbatim>\<open>test\<close>, which call Windows and boost only.
\<close>

section \<open>From a server to its client\<close>

definition queued_message ::
  "platform \<Rightarrow> (string \<Rightarrow> string) \<Rightarrow> heads \<Rightarrow> HttpResponse \<Rightarrow> ResponseLine \<times> heads \<times> string" where
  "queued_message P cont sh s =
     (rs_line s, umm_iter P (sent_head P sh s), response_body_bytes cont s)"

lemma idle_pending:
  "ss_response (send_status se) = None \<Longrightarrow>
     session_pending P cont se =
       responses_text (map (queued_message P cont (session_head se)) (response_queue se))"
proof -
  have "queued_text P cont sh = (\<lambda>s. response_text (rs_line s) (umm_iter P (sent_head P sh s))
      (response_body_bytes cont s))" for sh
    by (rule ext) (simp add: queued_text_def)
  then show "ss_response (send_status se) = None \<Longrightarrow> ?thesis"
    by (simp add: session_pending_def current_text_def responses_text_def queued_message_def comp_def)
qed

text \<open>The client's end of the connection: the text of responses, in any pieces.\<close>

lemma client_reads:
  assumes "\<forall>(l, ps, d) \<in> set ms. response_ok P l ps d" and "length (responses_text ms) < 2 ^ 64"
    and "concat pieces = responses_text ms" and "no_temp_file H'"
  shows "input_pieces (resp_step P H' Pair) resp_reset w' pieces =
    Some (HNW_BASE_OK, resp_reset, w', responses_events ms)"
proof -
  have ok: "resp_ok H' Pair (length (responses_text ms)) resp_reset"
    by (rule resp_reset_ok) (use assms(2,4) in \<open>auto simp: resp_plain_def plain_body_def\<close>)
  have "input_pieces (resp_step P H' Pair) resp_reset w' pieces =
      input_data (resp_step P H' Pair) resp_reset w' (responses_text ms)"
    using resp_pieces.pieces_concat [OF ok] assms(3) by simp
  also have "\<dots> = Some (HNW_BASE_OK, resp_reset, w', responses_events ms)"
    using resp_loop_messages [OF assms(1), of H' w' "[]"] assms(2) by (simp add: input_data_def)
  finally show ?thesis .
qed

text \<open>
  C2: What a server session writes, its client reads. The responses queued in an idle server
  session are taken out by the channel through buffers of any sizes and reach the client's parser
  cut into pieces in any way; the client's parser then raises, for each response and in order,
  the header event and the message event, and is ready for the next response. The fields and the body
  bytes are those that were queued; of the line, the version and the code are, while of the reason
  only its first word arrives (\<open>read_line\<close>: 404 Not Found is read as 404 Not).
\<close>

theorem server_to_client:
  assumes "session_ok H w cont se" and "ss_response (send_status se) = None"
    and "ms = map (queued_message P cont (session_head se)) (response_queue se)"
    and "\<forall>(l, ps, d) \<in> set ms. response_ok P l ps d" and "length (responses_text ms) < 2 ^ 64"
    and "\<forall>n \<in> set ns. 0 < n \<and> n < 2 ^ 63" and "length (responses_text ms) \<le> length ns"
    and "concat pieces = fst (drain (session_pull P H w) se ns)" and "no_temp_file H'"
  shows "input_pieces (resp_step P H' Pair) resp_reset w' pieces =
    Some (HNW_BASE_OK, resp_reset, w', responses_events ms)"
proof -
  have sent: "fst (drain (session_pull P H w) se ns) = responses_text ms"
    using session_src.drain_all [OF assms(1,6), where P = P] assms(2,3,7) idle_pending
    by (metis prod.collapse)
  show ?thesis by (rule client_reads [OF assms(4,5) _ assms(9)]) (simp add: assms(8) sent)
qed

definition sample_message :: "ResponseLine \<times> heads \<times> string" where
  "sample_message = queued_message platform0 (\<lambda>_. []) (session_head sample_session) sample_response"

lemma sample_message_eq:
  "sample_message = (rs_line sample_response,
     [(''Content-Length'', ''2''), (''Content-Type'', ''text/html''), (''Accept'', ''*/*''),
      (''Connection'', ''Close'')], ''hi'')"
  by code_simp

lemma sample_message_length: "length (responses_text [sample_message]) < 2 ^ 64"
  by (simp add: sample_message_eq responses_text_def response_text_def head_line_def CRLF_def
      HEAD_SPLIT_def response_line_string_def sample_response_def HttpResponse_new_def
      ResponseLine_default_def)

lemma sample_message_ok: "\<forall>(l, ps, d) \<in> set [sample_message]. response_ok platform0 l ps d"
proof -
  have "response_line_ok (rs_line sample_response)" by code_simp
  moreover have "\<forall>p \<in> set [(''Content-Length'', ''2''), (''Content-Type'', ''text/html''),
      (''Accept'', ''*/*''), (''Connection'', ''Close'')]. field_ok p"
    by code_simp
  moreover have "get_head_int64 platform0 [(''Content-Length'', ''2''), (''Content-Type'', ''text/html''),
      (''Accept'', ''*/*''), (''Connection'', ''Close'')] HTTP_LEN 0 = 2"
    by code_simp
  ultimately show ?thesis by (simp add: sample_message_eq response_ok_def)
qed

lemma sample_session_queue:
  "response_queue sample_session = [sample_response]" "ss_response (send_status sample_session) = None"
  by (simp_all add: sample_session_def session_generate_def add_session_head_def SendStaus_new_def)

theorem server_to_client_witness:
  "input_pieces (resp_step platform0 host1 Pair) resp_reset ()
     (map (\<lambda>c. [c]) (fst (drain (session_pull platform0 host1 ()) sample_session
        (replicate (length (responses_text [sample_message])) 1)))) =
   Some (HNW_BASE_OK, resp_reset, (), responses_events [sample_message])"
  by (rule server_to_client [OF sample_session_ok sample_session_queue(2), of _ platform0,
        OF _ sample_message_ok sample_message_length _ _ _ host1_no_temp])
    (simp_all add: sample_session_queue sample_message_def)

subsection \<open>An answer\<close>

text \<open>
  C3: An answer reaches the application of the client. When a server that has nothing
  else to send calls HnwHttp_RawResponse on a connected session, the bytes the call writes and
  those the sending loop hands out afterwards, through buffers of any sizes, received by the client
  in any pieces, make the client's callback hear of one header and then of one message, with the
  completed fields and the data of the answer and its status line, of whose reason only the first word
  arrives (\<open>read_line\<close>). Nothing else in the client's service changes.
\<close>

theorem answer_reaches_application:
  assumes "http_ok sv" and "get_session sv h = Some se" and "se_type se = Server" and "connect_flag se"
    and "session_ok (env_host E) (hs_world sv) cont se" and "env_alloc E" and "length data < 2 ^ 63"
    and "ready (env_net E) (hs_base sv) h ch"
    and "session_pending (env_platform E) cont se = []"
    and "r = raw_reply (env_platform E) code data ext"
    and "ps = umm_iter (env_platform E) (sent_head (env_platform E) (session_head se) r)"
    and "response_ok (env_platform F) (rs_line r) ps data" and "length (response_text (rs_line r) ps data) < 2 ^ 64"
    and "receives cv c (u :: 'v) (RespParser resp_reset)" and "watches F u seen"
  shows "\<exists>sv' se' ef. raw_response E sv h code data ext = (HNW_BASE_OK, sv') \<and> get_session sv' h = Some se' \<and>
    hs_log sv' = hs_log sv @ map Chan ef \<and>
    (\<forall>ns pieces. (\<forall>n \<in> set ns. 0 < n \<and> n < 2 ^ 63) \<and> length (response_text (rs_line r) ps data) \<le> length ns \<and>
       concat pieces = written ef @
         fst (drain (session_pull (env_platform E) (env_host E) (hs_world sv')) se' ns) \<longrightarrow>
       recv_blocks F (Some (UserEvent u)) c pieces cv = cv\<lparr>hs_world :=
         seen (RecvResponse (read_response (rs_line r) ps data))
           (seen (RecvResponseHead \<lparr>rs_line = read_line (rs_line r), rs_head = ps, rs_body = None\<rparr>) (hs_world cv))\<rparr>)"
proof -
  have body: "response_body_bytes cont r = data"
    by (simp add: assms(10) response_body_bytes_def raw_reply_def body_pending_def
        body_content_def raw_body_of_def base_body_def)
  from raw_response_pending [OF assms(1-8), of code ext] obtain sv' se' ef where
    run: "raw_response E sv h code data ext = (HNW_BASE_OK, sv')"
    and sends: "sends_message E cont sv h se r sv' se' ef"
    unfolding assms(10) by blast
  have "get_session sv' h = Some se'" "hs_log sv' = hs_log sv @ map Chan ef"
    using sends by (simp_all add: sends_message_def)
  with run message_delivered [OF sends assms(9,11) body assms(12-15)] show ?thesis by blast
qed

text \<open>An application that writes down what it hears, and its service with one fresh session.\<close>

definition no_files :: "'w host" where
  "no_files = \<lparr>file_is_exist = \<lambda>_ _. False, file_size = \<lambda>_ _. 0, create_null_file = \<lambda>w _ _. (False, w),
     remove_file = \<lambda>w _. w, file_mapping = \<lambda>_ _ _. False, region_read = \<lambda>_ _ _ _. [],
     region_write = \<lambda>w _ _ _. w, file_output = \<lambda>_ _ _. None, host_rand = \<lambda>w. (\<lambda>i. i, w)\<rparr>"

definition recording_env :: "(nat, http_event list) env" where
  "recording_env = \<lparr>env_platform = platform0, env_host = no_files, env_net = net1,
     env_dns = \<lambda>_ _. (HNW_BASE_OK, []), env_alloc = True,
     app_event = \<lambda>u h ev sv. (ev, sv\<lparr>hs_world := (case ev of BaseEvent (EvRecvData _) \<Rightarrow> hs_world sv
       | _ \<Rightarrow> hs_world sv @ [ev])\<rparr>),
     app_status = \<lambda>u st err sv. sv, app_response = \<lambda>u r err sv. sv,
     app_download = \<lambda>u url out rg pos err sv. (True, sv)\<rparr>"

definition recorder :: "PeerType \<Rightarrow> (nat, http_event list) http_service" where
  "recorder type = (HttpService_new [])\<lparr>session_map := [(3, (session_generate 3 type, Some (UserEvent 1)))]\<rparr>"

lemma recording_watches:
  "watches recording_env u (\<lambda>ev w. case ev of BaseEvent (EvRecvData _) \<Rightarrow> w | _ \<Rightarrow> w @ [ev])"
  by (simp add: watches_def recording_env_def)

lemma recorder_world [simp]: "hs_world (recorder type) = []"
  by (simp add: recorder_def HttpService_new_def)

lemma recorder_receives:
  "receives (recorder Client) 3 1 (RespParser resp_reset)" "receives (recorder Server) 3 1 (ReqParser req_reset)"
  by (simp_all add: receives_def recorder_def HttpService_new_def session_generate_def add_session_head_def
      omap_ok_def omap_get_def Let_def)

definition sample_reply :: HttpResponse where
  "sample_reply = raw_reply platform0 ''200'' ''hi'' None"

definition sample_fields :: heads where
  "sample_fields = umm_iter platform0 (sent_head platform0 (session_head (session_generate 5 Server)) sample_reply)"

lemma sample_reply_eq: "(rs_line sample_reply, sample_fields, ''hi'') = sample_message"
  by code_simp

lemma sample_reply_ok:
  "response_ok platform0 (rs_line sample_reply) sample_fields ''hi''"
  "length (response_text (rs_line sample_reply) sample_fields ''hi'') < 2 ^ 64"
  using sample_message_ok sample_message_length unfolding sample_reply_eq [symmetric]
  by (simp_all add: responses_text_def)

theorem answer_reaches_application_witness:
  "\<exists>sv' se' ef. raw_response silent_env (sample_http_service Server True) 5 ''200'' ''hi'' None = (HNW_BASE_OK, sv') \<and>
     get_session sv' 5 = Some se' \<and> hs_log sv' = hs_log (sample_http_service Server True) @ map Chan ef \<and>
     hs_world (recv_blocks recording_env (Some (UserEvent 1)) 3
       [written ef, fst (drain (session_pull platform0 host1 (hs_world sv')) se' (replicate
          (length (response_text (rs_line sample_reply) sample_fields ''hi'')) 1))] (recorder Client)) =
     [RecvResponseHead \<lparr>rs_line = read_line (rs_line sample_reply), rs_head = sample_fields, rs_body = None\<rparr>,
      RecvResponse (read_response (rs_line sample_reply) sample_fields ''hi'')]"
proof -
  let ?sv = "sample_http_service Server True" and ?se = "(session_generate 5 Server)\<lparr>connect_flag := True\<rparr>"
  have e: "env_alloc silent_env" "env_platform silent_env = platform0" "env_host silent_env = host1"
    "env_net silent_env = net1" "env_platform recording_env = platform0"
    by (simp_all add: silent_env_def recording_env_def)
  have s: "session_ok (env_host silent_env) (hs_world ?sv) (\<lambda>_. []) ?se" "se_type ?se = Server" "connect_flag ?se"
    and p: "session_pending (env_platform silent_env) (\<lambda>_. []) ?se = []"
    by (simp_all add: session_ok_def session_generate_def add_session_head_def SendStaus_new_def Let_def
        session_pending_def current_text_def)
  have g: "get_session ?sv 5 = Some ?se" by (simp add: sample_http_service_session)
  have r: "sample_reply = raw_reply (env_platform silent_env) ''200'' ''hi'' None"
    and f: "sample_fields = umm_iter (env_platform silent_env)
      (sent_head (env_platform silent_env) (session_head ?se) sample_reply)"
    by (simp_all add: sample_reply_def sample_fields_def e)
  have d: "length ''hi'' < (2::nat) ^ 63" by simp
  note ok = sample_reply_ok [folded e(5)]
  from answer_reaches_application [OF sample_http_service_ok g s(2,3,1) e(1) d sample_http_service_ready [folded e(4)]
      p r f ok(1) sample_reply_ok(2) recorder_receives(1) recording_watches]
  obtain sv' se' ef where a: "raw_response silent_env ?sv 5 ''200'' ''hi'' None = (HNW_BASE_OK, sv')"
      "get_session sv' 5 = Some se'" "hs_log sv' = hs_log ?sv @ map Chan ef"
    and i: "\<And>ns pieces. (\<forall>n \<in> set ns. 0 < n \<and> n < 2 ^ 63) \<Longrightarrow>
      length (response_text (rs_line sample_reply) sample_fields ''hi'') \<le> length ns \<Longrightarrow>
      concat pieces = written ef @ fst (drain (session_pull platform0 host1 (hs_world sv')) se' ns) \<Longrightarrow>
      hs_world (recv_blocks recording_env (Some (UserEvent 1)) 3 pieces (recorder Client)) =
        [RecvResponseHead \<lparr>rs_line = read_line (rs_line sample_reply), rs_head = sample_fields, rs_body = None\<rparr>,
         RecvResponse (read_response (rs_line sample_reply) sample_fields ''hi'')]"
    unfolding e by (elim exE conjE) (rule that, assumption, assumption, assumption, simp)
  have j: "hs_world (recv_blocks recording_env (Some (UserEvent 1)) 3
       [written ef, fst (drain (session_pull platform0 host1 (hs_world sv')) se' (replicate
          (length (response_text (rs_line sample_reply) sample_fields ''hi'')) 1))] (recorder Client)) =
     [RecvResponseHead \<lparr>rs_line = read_line (rs_line sample_reply), rs_head = sample_fields, rs_body = None\<rparr>,
      RecvResponse (read_response (rs_line sample_reply) sample_fields ''hi'')]"
    by (rule i [of "replicate (length (response_text (rs_line sample_reply) sample_fields ''hi'')) 1"]) simp_all
  show ?thesis by (intro exI conjI) (rule a(1), rule a(2), rule a(3), rule j)
qed

subsection \<open>A request\<close>

text \<open>
  C4: A request reaches the application of the server, without its body. When a connected client that
  is not sending calls HnwHttp_RawRequest, the bytes the call writes and those the sending loop
  hands out afterwards, through buffers of any sizes, received by the server in any pieces, make the
  server's callback hear of one header and then of one message, with the method, the URL, the
  completed fields and no body. The body's bytes stay in the parser as the start of the next request.
\<close>

theorem request_reaches_application:
  assumes "http_ok cv" and "get_session cv c = Some ce" and "se_type ce = Client" and "connect_flag ce"
    and "\<not> send_flag ce" and "env_alloc E" and "length data < 2 ^ 63" and "ready (env_net E) (hs_base cv) c ch"
    and "q = raw_ask (env_platform E) method uri data ext"
    and "ps = umm_iter (env_platform E) (sent_request_head (env_platform E) (session_head ce) q)"
    and "request_text_ok (rq_line q)" and "\<forall>p \<in> set ps. field_ok p" and "plain_text data"
    and "length (request_text (rq_line q) ps data) < 2 ^ 64"
    and "receives sv h (u :: 'v) (ReqParser req_reset)" and "watches F u seen"
  shows "\<exists>cv' ce' ef. raw_request E cv c method uri data ext = (HNW_BASE_OK, cv') \<and> get_session cv' c = Some ce' \<and>
    hs_log cv' = hs_log cv @ map Chan ef \<and>
    (\<forall>ns pieces. (\<forall>n \<in> set ns. 0 < n \<and> n < 2 ^ 63) \<and> length (request_text (rq_line q) ps data) \<le> length ns \<and>
       concat pieces = written ef @
         fst (drain (client_pull (env_platform E) (env_host E) (hs_world cv')) ce' ns) \<longrightarrow>
       recv_blocks F (Some (UserEvent u)) h pieces sv = received sv h (ReqParser (req_reset\<lparr>parser_cache1 := data\<rparr>))
         (seen (RecvRequest (read_request (rq_line q) ps))
           (seen (RecvRequestHead (read_request (rq_line q) ps)) (hs_world sv))))"
proof -
  let ?P = "env_platform E" and ?t = "request_text (rq_line q) ps data"
  from request_asked [OF assms(1-10)] obtain cv' ce' ef where
    run: "raw_request E cv c method uri data ext = (HNW_BASE_OK, cv')" "get_session cv' c = Some ce'"
      "hs_log cv' = hs_log cv @ map Chan ef"
    and bytes: "\<And>ns pieces. (\<forall>n \<in> set ns. 0 < n \<and> n < 2 ^ 63) \<and> length ?t \<le> length ns \<and>
      concat pieces = written ef @ fst (drain (client_pull ?P (env_host E) (hs_world cv')) ce' ns) \<Longrightarrow>
      concat pieces = ?t" by blast
  have "recv_blocks F (Some (UserEvent u)) h pieces sv = received sv h (ReqParser (req_reset\<lparr>parser_cache1 := data\<rparr>))
         (seen (RecvRequest (read_request (rq_line q) ps))
           (seen (RecvRequestHead (read_request (rq_line q) ps)) (hs_world sv)))"
    if "concat pieces = ?t" for pieces
    using request_received [OF assms(16,15,11-14) that] by (simp add: request_events_def)
  with run bytes show ?thesis by blast
qed

definition sample_ask :: HttpRequest where
  "sample_ask = raw_ask platform0 ''POST'' ''/index?a=1'' ''hi'' None"

definition sample_ask_fields :: heads where
  "sample_ask_fields = umm_iter platform0
     (sent_request_head platform0 (session_head (session_generate 5 Client)) sample_ask)"

lemma sample_ask_ok:
  "request_text_ok (rq_line sample_ask)" "\<forall>p \<in> set sample_ask_fields. field_ok p"
  by code_simp+

lemma sample_ask_length: "length (request_text (rq_line sample_ask) sample_ask_fields ''hi'') < 2 ^ 64"
proof -
  have "length (request_text (rq_line sample_ask) sample_ask_fields ''hi'') < 1000"
    by code_simp
  then show ?thesis by simp
qed

theorem request_reaches_application_witness:
  "\<exists>cv' ce' ef. raw_request silent_env (sample_http_service Client True) 5 ''POST'' ''/index?a=1'' ''hi'' None =
       (HNW_BASE_OK, cv') \<and> get_session cv' 5 = Some ce' \<and>
     hs_log cv' = hs_log (sample_http_service Client True) @ map Chan ef \<and>
     hs_world (recv_blocks recording_env (Some (UserEvent 1)) 3
       [written ef, fst (drain (client_pull platform0 host1 (hs_world cv')) ce' (replicate
          (length (request_text (rq_line sample_ask) sample_ask_fields ''hi'')) 1))] (recorder Server)) =
     [RecvRequestHead (read_request (rq_line sample_ask) sample_ask_fields),
      RecvRequest (read_request (rq_line sample_ask) sample_ask_fields)]"
proof -
  let ?cv = "sample_http_service Client True" and ?ce = "(session_generate 5 Client)\<lparr>connect_flag := True\<rparr>"
  let ?ns = "replicate (length (request_text (rq_line sample_ask) sample_ask_fields ''hi'')) (1::nat)"
  have e: "env_alloc silent_env" "env_platform silent_env = platform0" "env_host silent_env = host1"
    "env_net silent_env = net1"
    by (simp_all add: silent_env_def)
  have s: "se_type ?ce = Client" "connect_flag ?ce" "\<not> send_flag ?ce"
    by (simp_all add: session_generate_def add_session_head_def Let_def)
  have g: "get_session ?cv 5 = Some ?ce" by (simp add: sample_http_service_session)
  have q: "sample_ask = raw_ask (env_platform silent_env) ''POST'' ''/index?a=1'' ''hi'' None"
    and f: "sample_ask_fields = umm_iter (env_platform silent_env)
      (sent_request_head (env_platform silent_env) (session_head ?ce) sample_ask)"
    by (simp_all add: sample_ask_def sample_ask_fields_def e)
  have d: "length ''hi'' < (2::nat) ^ 63" "plain_text ''hi''" by (simp_all add: CR_def LF_def)
  from request_reaches_application [OF sample_http_service_ok g s e(1) d(1) sample_http_service_ready [folded e(4)]
      q f sample_ask_ok d(2) sample_ask_length recorder_receives(2) recording_watches]
  obtain cv' ce' ef where a: "raw_request silent_env ?cv 5 ''POST'' ''/index?a=1'' ''hi'' None = (HNW_BASE_OK, cv')"
      "get_session cv' 5 = Some ce'" "hs_log cv' = hs_log ?cv @ map Chan ef"
    and i: "\<And>ns pieces. (\<forall>n \<in> set ns. 0 < n \<and> n < 2 ^ 63) \<Longrightarrow>
      length (request_text (rq_line sample_ask) sample_ask_fields ''hi'') \<le> length ns \<Longrightarrow>
      concat pieces = written ef @ fst (drain (client_pull platform0 host1 (hs_world cv')) ce' ns) \<Longrightarrow>
      hs_world (recv_blocks recording_env (Some (UserEvent 1)) 3 pieces (recorder Server)) =
        [RecvRequestHead (read_request (rq_line sample_ask) sample_ask_fields),
         RecvRequest (read_request (rq_line sample_ask) sample_ask_fields)]"
    unfolding e by (elim exE conjE) (rule that, assumption, assumption, assumption, simp)
  have j: "hs_world (recv_blocks recording_env (Some (UserEvent 1)) 3
      [written ef, fst (drain (client_pull platform0 host1 (hs_world cv')) ce' ?ns)] (recorder Server)) =
     [RecvRequestHead (read_request (rq_line sample_ask) sample_ask_fields),
      RecvRequest (read_request (rq_line sample_ask) sample_ask_fields)]"
    by (rule i [of ?ns]) simp_all
  show ?thesis by (intro exI conjI) (rule a(1), rule a(2), rule a(3), rule j)
qed

subsection \<open>A file\<close>

text \<open>
  The pieces of what a session sends: the bytes its first call has written and those the sending loop
  pulls out of it, through buffers of the sizes \<open>ns\<close>.
\<close>

definition sent_pieces ::
  "(session \<Rightarrow> nat \<Rightarrow> string \<times> session) \<Rightarrow> session \<Rightarrow> 'c chan_effect list \<Rightarrow> nat list \<Rightarrow> string list \<Rightarrow> bool" where
  "sent_pieces pull se ef ns pieces \<longleftrightarrow>
     (\<forall>n \<in> set ns. 0 < n \<and> n < 2 ^ 63) \<and> concat pieces = written ef @ fst (drain pull se ns)"

text \<open>
  C1: A file is fetched, from the client's call to the client's callback. A client asks with
  HnwHttp_RawRequest for a path that, put behind the directory the file server shares, names a file, and the
  request as it arrives is authorized. The bytes of the request, through buffers of any sizes and in any
  pieces, the last of them not empty, make the server's session, in the middle of its parser's work, answer with the
  file; the bytes of that answer, again through any buffers and in any pieces, make the client's application hear of one
  header and one message with the status line 200, or 206 for a range, and exactly the bytes of the wanted
  range, which is announced by its length and at most 10 MB (\<open>response_ok\<close>). The path is taken as it is: the
  witness walks out of the shared directory.
\<close>

theorem file_fetched:
  assumes "http_ok cv" and "get_session cv c = Some ce" and "se_type ce = Client" and "connect_flag ce"
    and "\<not> send_flag ce" and "env_alloc G" and "ready (env_net G) (hs_base cv) c cch"
    and "a = raw_ask (env_platform G) ''GET'' uri [] ext"
    and "as = umm_iter (env_platform G) (sent_request_head (env_platform G) (session_head ce) a)"
    and "request_text_ok (rq_line a)" and "\<forall>p \<in> set as. field_ok p"
    and "length (request_text (rq_line a) as []) < 2 ^ 64"
    and "idle_server E sv h se ch" and "receives sv h u (ReqParser req_reset)" and "env_alloc E"
    and "q = read_request (rq_line a) as" and "authorized (env_platform E) fs q" and "wants_file fs D q dir"
    and "shared_file (env_host E) (hs_world sv) dir content" and "\<not> is_directory D (hs_world sv) dir"
    and "range_fits (wanted_range (env_platform E) q) (length content)"
    and "data = range_part (wanted_range (env_platform E) q) content" and "r = file_reply E (hs_world sv) q dir"
    and "ps = umm_iter (env_platform E) (sent_head (env_platform E) (session_head se) r)"
    and "response_ok (env_platform F) (rs_line r) ps data" and "length (response_text (rs_line r) ps data) < 2 ^ 64"
    and "receives cv2 c (v :: 'v) (RespParser resp_reset)" and "watches F v seen"
  shows "sl_status_code (rs_line r) = (if fst (get_range (env_platform E) (rq_head q) HttpRange_default) then ''206'' else ''200'') \<and>
    (\<exists>cv' ce' ef. raw_request G cv c ''GET'' uri [] ext = (HNW_BASE_OK, cv') \<and> get_session cv' c = Some ce' \<and>
      hs_log cv' = hs_log cv @ map Chan ef \<and>
      (\<forall>ns pieces. sent_pieces (client_pull (env_platform G) (env_host G) (hs_world cv')) ce' ef ns pieces \<and>
        length (request_text (rq_line a) as []) \<le> length ns \<longrightarrow>
        concat pieces = request_text (rq_line a) as [] \<and> (pieces \<noteq> [] \<and> last pieces \<noteq> [] \<longrightarrow>
        (\<exists>sv' se' ef2. recv_blocks (file_env E D fs) (Some (UserEvent u)) h pieces sv = sv' \<and>
          get_session sv' h = Some se' \<and> hs_log sv' = hs_log sv @ map Chan ef2 \<and>
          (\<forall>ns2 pieces2. sent_pieces (session_pull (env_platform E) (env_host E) (hs_world sv')) se' ef2 ns2 pieces2 \<and>
            length (response_text (rs_line r) ps data) \<le> length ns2 \<longrightarrow>
            recv_blocks F (Some (UserEvent v)) c pieces2 cv2 = cv2\<lparr>hs_world :=
              seen (RecvResponse (read_response (rs_line r) ps data))
                (seen (RecvResponseHead \<lparr>rs_line = read_line (rs_line r), rs_head = ps, rs_body = None\<rparr>)
                  (hs_world cv2))\<rparr>)))))"
proof -
  let ?sv' = "\<lambda>pieces. recv_blocks (file_env E D fs) (Some (UserEvent u)) h pieces sv" and ?t = "request_text (rq_line a) as []"
  have nil: "length ([] :: string) < (2::nat) ^ 63" by simp
  from request_asked [OF assms(1-6) nil assms(7-9)] obtain cv' ce' ef where
    run: "raw_request G cv c ''GET'' uri [] ext = (HNW_BASE_OK, cv')" "get_session cv' c = Some ce'"
      "hs_log cv' = hs_log cv @ map Chan ef"
    and bytes: "\<And>ns pieces. sent_pieces (client_pull (env_platform G) (env_host G) (hs_world cv')) ce' ef ns pieces \<Longrightarrow>
      length ?t \<le> length ns \<Longrightarrow> concat pieces = ?t"
    unfolding sent_pieces_def by blast
  note served = file_served [OF assms(13-21,10-12)]
  have whole: "concat [?t] = ?t" "[?t] \<noteq> []" "last [?t] \<noteq> []" by (simp_all add: request_text_def CRLF_def)
  have code: "sl_status_code (rs_line r) = (if fst (get_range (env_platform E) (rq_head q) HttpRange_default) then ''206'' else ''200'')"
    using served [OF whole] by (auto simp: assms(23))
  have answer: "\<exists>se' ef2. get_session (?sv' pieces) h = Some se' \<and> hs_log (?sv' pieces) = hs_log sv @ map Chan ef2 \<and>
      (\<forall>ns2 pieces2. sent_pieces (session_pull (env_platform E) (env_host E) (hs_world (?sv' pieces))) se' ef2 ns2 pieces2 \<and>
        length (response_text (rs_line r) ps data) \<le> length ns2 \<longrightarrow>
        recv_blocks F (Some (UserEvent v)) c pieces2 cv2 = cv2\<lparr>hs_world :=
          seen (RecvResponse (read_response (rs_line r) ps data))
            (seen (RecvResponseHead \<lparr>rs_line = read_line (rs_line r), rs_head = ps, rs_body = None\<rparr>) (hs_world cv2))\<rparr>)"
    if "concat pieces = ?t" "pieces \<noteq> []" "last pieces \<noteq> []" for pieces
  proof -
    from served [OF that] obtain se' ef2 where
      s: "sends_message E (\<lambda>_. content) sv h se r (?sv' pieces) se' ef2" and b: "response_body_bytes (\<lambda>_. content) r = data"
      unfolding assms(22,23) by blast
    have "get_session (?sv' pieces) h = Some se'" "hs_log (?sv' pieces) = hs_log sv @ map Chan ef2"
      using s by (simp_all add: sends_message_def)
    with message_delivered [OF s idle_server_pending [OF assms(13)] assms(24) b assms(25-28)] show ?thesis
      unfolding sent_pieces_def by blast
  qed
  show ?thesis
    by (intro conjI code exI [of _ cv'] exI [of _ ce'] exI [of _ ef] run allI impI) (use answer bytes in blast)+
qed

text \<open>A service with one session of the file server, and a request for the file beside its directory.\<close>

definition shared_service :: "(nat, unit) http_service" where
  "shared_service = (sample_http_service Server True)\<lparr>session_map :=
     [(5, (session_generate 5 Server)\<lparr>connect_flag := True\<rparr>, Some (UserEvent 1))]\<rparr>"

definition key_ask :: HttpRequest where
  "key_ask = raw_ask platform0 ''GET'' ''/../key'' [] None"

definition key_ask_fields :: heads where
  "key_ask_fields = umm_iter platform0
     (sent_request_head platform0 (session_head (session_generate 5 Client)) key_ask)"

definition key_request :: HttpRequest where
  "key_request = read_request (rq_line key_ask) key_ask_fields"

definition key_reply :: HttpResponse where
  "key_reply = file_reply file_test_env () key_request ''/srv/../key''"

definition key_fields :: heads where
  "key_fields = umm_iter platform0 (sent_head platform0 (session_head (session_generate 5 Server)) key_reply)"

lemma shared_service_session: "get_session shared_service = get_session (sample_http_service Server True)"
  by (rule ext, simp only: sample_http_service_session) (simp add: shared_service_def get_session_def omap_get_def)

lemma shared_service_idle:
  "idle_server file_test_env shared_service 5 ((session_generate 5 Server)\<lparr>connect_flag := True\<rparr>)
     ((Channel_new TCP_CLIENT 5)\<lparr>ch_make_shared := True, bconn := True\<rparr>)"
proof -
  have "omap_ok (session_map shared_service)" by (simp add: shared_service_def omap_ok_def)
  moreover have "hs_base shared_service = hs_base (sample_http_service Server True)" by (simp add: shared_service_def)
  ultimately show ?thesis
    using sample_idle by (simp add: idle_server_def http_ok_def shared_service_session)
qed

lemma shared_service_receives: "receives shared_service 5 1 (ReqParser req_reset)"
  by (simp add: receives_def shared_service_def sample_http_service_def HttpService_new_def session_generate_def
      add_session_head_def omap_ok_def omap_get_def Let_def)

lemma key_ask_ok:
  "request_text_ok (rq_line key_ask)" "\<forall>p \<in> set key_ask_fields. field_ok p"
  "length (request_text (rq_line key_ask) key_ask_fields []) < 2 ^ 64"
proof -
  show "request_text_ok (rq_line key_ask)" "\<forall>p \<in> set key_ask_fields. field_ok p" by code_simp+
  have "length (request_text (rq_line key_ask) key_ask_fields []) < 1000" by code_simp
  then show "length (request_text (rq_line key_ask) key_ask_fields []) < 2 ^ 64" by simp
qed

lemma key_request_wanted:
  "wants_file open_server plain_dirs key_request ''/srv/../key''"
  "wanted_range platform0 key_request = HttpRange_default"
  "\<not> fst (get_range platform0 (rq_head key_request) HttpRange_default)"
proof -
  have "rl_path (rq_line key_request) = ''/../key''" "get_query (rq_line key_request) ''action'' [] = []"
    by code_simp+
  then show "wants_file open_server plain_dirs key_request ''/srv/../key''"
    by (simp add: wants_file_def HnwUtil_UrlDecode_def open_server_def plain_dirs_def)
  show n: "\<not> fst (get_range platform0 (rq_head key_request) HttpRange_default)" by code_simp
  then show "wanted_range platform0 key_request = HttpRange_default"
    by (auto simp: wanted_range_def split: prod.split)
qed

lemma key_reply_ok:
  "response_ok platform0 (rs_line key_reply) key_fields ''hello''"
  "length (response_text (rs_line key_reply) key_fields ''hello'') < 2 ^ 64"
proof -
  have "response_line_ok (rs_line key_reply)" "\<forall>p \<in> set key_fields. field_ok p"
    "get_head_int64 platform0 key_fields HTTP_LEN 0 = 5"
    by code_simp+
  then show "response_ok platform0 (rs_line key_reply) key_fields ''hello''" by (simp add: response_ok_def)
  have "length (response_text (rs_line key_reply) key_fields ''hello'') < 1000" by code_simp
  then show "length (response_text (rs_line key_reply) key_fields ''hello'') < 2 ^ 64" by simp
qed

theorem file_fetched_witness:
  "\<exists>cv' ce' ef sv' se' ef2.
     raw_request silent_env (sample_http_service Client True) 5 ''GET'' ''/../key'' [] None = (HNW_BASE_OK, cv') \<and>
     get_session cv' 5 = Some ce' \<and> hs_log cv' = hs_log (sample_http_service Client True) @ map Chan ef \<and>
     recv_blocks (file_env file_test_env plain_dirs open_server) (Some (UserEvent 1)) 5
       [written ef @ fst (drain (client_pull platform0 host1 (hs_world cv')) ce' (replicate
          (length (request_text (rq_line key_ask) key_ask_fields [])) 1))] shared_service = sv' \<and>
     get_session sv' 5 = Some se' \<and> hs_log sv' = hs_log shared_service @ map Chan ef2 \<and>
     hs_world (recv_blocks recording_env (Some (UserEvent 1)) 5
       [written ef2, fst (drain (session_pull platform0 file_host (hs_world sv')) se' (replicate
          (length (response_text (rs_line key_reply) key_fields ''hello'')) 1))]
       ((recorder Client)\<lparr>session_map := [(5, (session_generate 5 Client, Some (UserEvent 1)))]\<rparr>)) =
     [RecvResponseHead \<lparr>rs_line = read_line (rs_line key_reply), rs_head = key_fields, rs_body = None\<rparr>,
      RecvResponse (read_response (rs_line key_reply) key_fields ''hello'')] \<and>
     sl_status_code (rs_line key_reply) = ''200''"
proof -
  let ?cv = "sample_http_service Client True" and ?ce = "(session_generate 5 Client)\<lparr>connect_flag := True\<rparr>"
    and ?se = "(session_generate 5 Server)\<lparr>connect_flag := True\<rparr>" and ?E = file_test_env and ?G = silent_env
    and ?cv2 = "(recorder Client)\<lparr>session_map := [(5, (session_generate 5 Client, Some (UserEvent 1)))]\<rparr>"
  let ?ns = "replicate (length (request_text (rq_line key_ask) key_ask_fields [])) (1::nat)"
    and ?ns2 = "replicate (length (response_text (rs_line key_reply) key_fields ''hello'')) (1::nat)"
  have e: "env_alloc ?G" "env_platform ?G = platform0" "env_host ?G = host1" "env_net ?G = net1"
    "env_platform recording_env = platform0"
    by (simp_all add: silent_env_def recording_env_def)
  have s: "se_type ?ce = Client" "connect_flag ?ce" "\<not> send_flag ?ce"
    by (simp_all add: session_generate_def add_session_head_def Let_def)
  have g: "get_session ?cv 5 = Some ?ce" by (simp add: sample_http_service_session)
  have a: "key_ask = raw_ask (env_platform ?G) ''GET'' ''/../key'' [] None"
    and as: "key_ask_fields = umm_iter (env_platform ?G) (sent_request_head (env_platform ?G) (session_head ?ce) key_ask)"
    by (simp_all add: key_ask_def key_ask_fields_def e)
  have f: "shared_file (env_host ?E) (hs_world shared_service) ''/srv/../key'' ''hello''" using sample_key by simp
  have d: "\<not> is_directory plain_dirs (hs_world shared_service) ''/srv/../key''" by (simp add: plain_dirs_def)
  have q: "range_fits (wanted_range (env_platform ?E) key_request) (length ''hello'')"
    and t: "''hello'' = range_part (wanted_range (env_platform ?E) key_request) ''hello''"
    by (simp_all add: key_request_wanted range_fits_def range_part_def range_from_def range_to_def HttpRange_default_def)
  have r: "key_reply = file_reply ?E (hs_world shared_service) key_request ''/srv/../key''"
    and p: "key_fields = umm_iter (env_platform ?E) (sent_head (env_platform ?E) (session_head ?se) key_reply)"
    by (simp_all add: key_reply_def key_fields_def)
  have rec: "receives ?cv2 5 1 (RespParser resp_reset)"
    by (simp add: receives_def recorder_def HttpService_new_def session_generate_def add_session_head_def
        omap_ok_def omap_get_def Let_def)
  note fetched = file_fetched [OF sample_http_service_ok g s e(1) sample_http_service_ready [folded e(4)] a as key_ask_ok
      shared_service_idle shared_service_receives file_test_env_simps(1) key_request_def open_server_authorized
      key_request_wanted(1) f d q t r p key_reply_ok(1) [folded e(5)] key_reply_ok(2) rec recording_watches]
  have code: "sl_status_code (rs_line key_reply) = ''200''"
    using fetched [THEN conjunct1] key_request_wanted(3) by simp
  let ?out = "\<lambda>cv' ce' ef. written ef @ fst (drain (client_pull platform0 host1 (hs_world cv')) ce' ?ns)"
    and ?heard = "[RecvResponseHead \<lparr>rs_line = read_line (rs_line key_reply), rs_head = key_fields, rs_body = None\<rparr>,
      RecvResponse (read_response (rs_line key_reply) key_fields ''hello'')]"
  have one: "sent_pieces pull x ef ?ns [written ef @ fst (drain pull x ?ns)]" for pull x ef
    by (simp add: sent_pieces_def)
  have two: "sent_pieces pull x ef ?ns2 [written ef, fst (drain pull x ?ns2)]" for pull x ef
    by (simp add: sent_pieces_def)
  have ne: "request_text (rq_line key_ask) key_ask_fields [] \<noteq> []" by (simp add: request_text_def CRLF_def)
  from fetched [THEN conjunct2, unfolded e file_test_env_simps] obtain cv' ce' ef where
    run: "raw_request ?G ?cv 5 ''GET'' ''/../key'' [] None = (HNW_BASE_OK, cv')" "get_session cv' 5 = Some ce'"
      "hs_log cv' = hs_log ?cv @ map Chan ef"
    and all: "concat [?out cv' ce' ef] = request_text (rq_line key_ask) key_ask_fields [] \<and>
      ([?out cv' ce' ef] \<noteq> [] \<and> last [?out cv' ce' ef] \<noteq> [] \<longrightarrow>
        (\<exists>sv' se' ef2. recv_blocks (file_env ?E plain_dirs open_server) (Some (UserEvent 1)) 5 [?out cv' ce' ef] shared_service = sv' \<and>
          get_session sv' 5 = Some se' \<and> hs_log sv' = hs_log shared_service @ map Chan ef2 \<and>
          hs_world (recv_blocks recording_env (Some (UserEvent 1)) 5
            [written ef2, fst (drain (session_pull platform0 file_host (hs_world sv')) se' ?ns2)] ?cv2) = ?heard))"
    by (elim exE conjE) (rule that, assumption, assumption, assumption, drule spec [of _ ?ns], drule spec, drule mp,
      rule conjI [OF one], simp, elim conjE, intro conjI impI, assumption, drule (1) mp, elim exE conjE,
      intro exI conjI, assumption, assumption, assumption, drule spec [of _ ?ns2], drule spec, drule mp,
      rule conjI [OF two], simp, simp)
  have "[?out cv' ce' ef] \<noteq> [] \<and> last [?out cv' ce' ef] \<noteq> []" using all ne by simp
  with all run code show ?thesis by blast
qed

end
